(* ===== verification/Prelude.thy ===== *)
theory Prelude
  imports "HOL-Library.Word"
begin

text \<open>
  Shared vocabulary of the development: the outcome of running C code on an explicit state, the
  sequencing of such runs, counted loops, and generic facts on lists and words that several
  components use.

  A C function is a function from the state to a \<open>result\<close>: \<open>Ok\<close> with its value and the new
  state, or \<open>Fault\<close> when the C program has no defined continuation (a null or dangling pointer is
  dereferenced, an array is indexed out of its bounds, the wrong member of a union is read, a shift
  count is not smaller than the width), blocks for ever on a semaphore, or needs more unfolding steps than the model was given.
\<close>

named_theorems run \<open>equations that execute one step of a program\<close>

section \<open>Outcomes and sequencing\<close>

datatype fault =
    NullPointer
  | DanglingPointer
  | OutOfBounds
  | WrongUnionMember
  | UndefinedShift
  | Blocked
  | OutOfFuel

datatype ('a, 's) result = Ok 'a 's | Fault fault

type_synonym ('s, 'a) prog = "'s \<Rightarrow> ('a, 's) result"

definition retM :: "'a \<Rightarrow> ('s, 'a) prog" where
  "retM x = (\<lambda>s. Ok x s)"

definition failM :: "fault \<Rightarrow> ('s, 'a) prog" where
  "failM e = (\<lambda>s. Fault e)"

definition bindM :: "('s, 'a) prog \<Rightarrow> ('a \<Rightarrow> ('s, 'b) prog) \<Rightarrow> ('s, 'b) prog" where
  "bindM m f = (\<lambda>s. case m s of Ok x s' \<Rightarrow> f x s' | Fault e \<Rightarrow> Fault e)"

text \<open>Statement sequencing: the value of the first statement is not used.\<close>

definition thenM :: "('s, 'a) prog \<Rightarrow> ('s, 'b) prog \<Rightarrow> ('s, 'b) prog" where
  "thenM m n = bindM m (\<lambda>_. n)"

definition getsM :: "('s \<Rightarrow> 'a) \<Rightarrow> ('s, 'a) prog" where
  "getsM f = (\<lambda>s. Ok (f s) s)"

definition modifyM :: "('s \<Rightarrow> 's) \<Rightarrow> ('s, unit) prog" where
  "modifyM f = (\<lambda>s. Ok () (f s))"

definition whenM :: "bool \<Rightarrow> ('s, unit) prog \<Rightarrow> ('s, unit) prog" where
  "whenM b m = (if b then m else retM ())"

lemma retM_run [run]: "retM x s = Ok x s"
  by (simp add: retM_def)

lemma failM_run [run]: "failM e s = Fault e"
  by (simp add: failM_def)

lemma getsM_run [run]: "getsM f s = Ok (f s) s"
  by (simp add: getsM_def)

lemma modifyM_run [run]: "modifyM f s = Ok () (f s)"
  by (simp add: modifyM_def)

lemma whenM_run [run]: "whenM b m s = (if b then m s else Ok () s)"
  by (simp add: whenM_def retM_def)

lemma bindM_run [run]:
  "bindM m f s = (case m s of Ok x s' \<Rightarrow> f x s' | Fault e \<Rightarrow> Fault e)"
  by (simp add: bindM_def)

lemma thenM_run [run]:
  "thenM m n s = (case m s of Ok x s' \<Rightarrow> n s' | Fault e \<Rightarrow> Fault e)"
  by (simp add: thenM_def bindM_def)

lemma bindM_Ok_iff:
  "bindM m f s = Ok y t \<longleftrightarrow> (\<exists>x u. m s = Ok x u \<and> f x u = Ok y t)"
  by (simp add: bindM_def split: result.splits)

lemma thenM_Ok_iff:
  "thenM m n s = Ok y t \<longleftrightarrow> (\<exists>x u. m s = Ok x u \<and> n u = Ok y t)"
  by (simp add: thenM_def bindM_Ok_iff)

section \<open>Loops over a list of items\<close>

fun forM :: "'b list \<Rightarrow> ('b \<Rightarrow> ('s, unit) prog) \<Rightarrow> ('s, unit) prog" where
  "forM [] f = retM ()"
| "forM (x # xs) f = thenM (f x) (forM xs f)"

fun foldM :: "('b \<Rightarrow> 'a \<Rightarrow> ('s, 'a) prog) \<Rightarrow> 'b list \<Rightarrow> 'a \<Rightarrow> ('s, 'a) prog" where
  "foldM f [] a = retM a"
| "foldM f (x # xs) a = bindM (f x a) (foldM f xs)"

text \<open>The values that an array-filling loop computes, in order.\<close>

fun mapM :: "('b \<Rightarrow> ('s, 'a) prog) \<Rightarrow> 'b list \<Rightarrow> ('s, 'a list) prog" where
  "mapM f [] = retM []"
| "mapM f (x # xs) = bindM (f x) (\<lambda>y. bindM (mapM f xs) (\<lambda>ys. retM (y # ys)))"

text \<open>Indexing an array of known extent.\<close>

definition nth_exec :: "'a list \<Rightarrow> nat \<Rightarrow> ('s, 'a) prog" where
  "nth_exec xs i = (if i < length xs then retM (xs ! i) else failM OutOfBounds)"

lemma forM_append: "forM (xs @ ys) f s = thenM (forM xs f) (forM ys f) s"
  by (induction xs arbitrary: s) (auto simp: run split: result.splits)

lemma foldM_append:
  "foldM f (xs @ ys) a s = bindM (foldM f xs a) (foldM f ys) s"
  by (induction xs arbitrary: a s) (auto simp: run split: result.splits)

lemma nth_exec_run [run]:
  "nth_exec xs i s = (if i < length xs then Ok (xs ! i) s else Fault OutOfBounds)"
  by (simp add: nth_exec_def retM_def failM_def)

text \<open>A loop that only reads computes the list of its values and leaves the state as it was.\<close>

lemma mapM_pure:
  assumes "\<And>x. x \<in> set xs \<Longrightarrow> f x s = Ok (g x) s"
  shows "mapM f xs s = Ok (map g xs) s"
  using assms by (induction xs) (auto simp: bindM_run retM_run)

text \<open>A loop whose every iteration succeeds with a known state change is a fold of that change.\<close>

lemma forM_pure:
  assumes "\<And>x s. x \<in> set xs \<Longrightarrow> P s \<Longrightarrow> f x s = Ok () (g x s) \<and> P (g x s)"
    and "P s"
  shows "forM xs f s = Ok () (fold g xs s) \<and> P (fold g xs s)"
  using assms
proof (induction xs arbitrary: s)
  case Nil
  then show ?case by (simp add: run)
next
  case (Cons x xs)
  have "f x s = Ok () (g x s)" and "P (g x s)"
    using Cons.prems by auto
  moreover have "forM xs f (g x s) = Ok () (fold g xs (g x s)) \<and> P (fold g xs (g x s))"
    using Cons.IH Cons.prems(1) calculation(2) by simp
  ultimately show ?case by (simp add: run)
qed

text \<open>A loop that keeps a relation to the starting state, whatever else it does.\<close>

lemma forM_invariant:
  assumes "forM xs f s = Ok u t" and "P s"
    and "\<And>x a b v. x \<in> set xs \<Longrightarrow> P a \<Longrightarrow> f x a = Ok v b \<Longrightarrow> P b"
  shows "P t"
  using assms
proof (induction xs arbitrary: s)
  case Nil
  then show ?case by (simp add: run)
next
  case (Cons x xs)
  from Cons.prems(1) obtain v m where "f x s = Ok v m" and "forM xs f m = Ok u t"
    by (auto simp: thenM_Ok_iff)
  with Cons show ?case by (meson list.set_intros)
qed

section \<open>Words\<close>

lemma unat_of_nat_small [simp]:
  "n < 2 ^ LENGTH('a) \<Longrightarrow> unat (word_of_nat n :: 'a::len word) = n"
  by (simp add: unat_of_nat take_bit_nat_eq_self)

lemma sint_of_nat_small: "n < 2 ^ 31 \<Longrightarrow> sint (word_of_nat n :: 32 word) = int n"
  using signed_take_bit_int_eq_self [of 31 "int n"] by (simp add: signed_of_nat)

lemma unat_same [simp]: "unat (a :: 'n::len word) = unat b \<longleftrightarrow> a = b"
  by (simp add: word_unat_eq_iff)

lemma unat_plus_small:
  "unat a + unat b < 2 ^ LENGTH('a) \<Longrightarrow> unat (a + b :: 'a::len word) = unat a + unat b"
  by (simp add: unat_word_ariths)

lemma word_of_nat_unat_upt:
  "i < unat (n :: 'a::len word) \<Longrightarrow> unat (word_of_nat i :: 'a word) = i"
  by (rule unat_of_nat_small) (metis less_trans unsigned_less)

section \<open>Strictly sorted lists\<close>

lemma sorted_wrt_less_append_iff:
  "sorted_wrt (<) (xs @ x # ys) \<longleftrightarrow>
     sorted_wrt (<) xs \<and> sorted_wrt (<) ys \<and>
     (\<forall>a\<in>set xs. a < x) \<and> (\<forall>b\<in>set ys. (x::'a::linorder) < b)"
  by (auto simp: sorted_wrt_append) (meson less_trans)

lemma map_of_filter_key:
  "map_of (filter (\<lambda>p. fst p \<noteq> k) xs) = (map_of xs)(k := None)"
  by (induction xs) auto

end
