(* ===== verification/Platform.thy ===== *)
theory Platform
  imports Prelude
begin

unbundle bit_operations_syntax

text \<open>
  The platform layer: the integer types, sentinels and byte-order macros of \<open>obl/platform.h\<close> and
  the compile-time constants of \<open>obl/constants.h\<close>.

  \<open>obl_uint\<close> and both address types are unsigned 32-bit words; \<open>obl_int\<close> has the same bits and is
  read with \<open>sint\<close>. A database cell is modelled as the word the host sees in memory, so the
  byte-order functions matter: \<open>htonl\<close> and \<open>htons\<close> are the ones of a little-endian host (they
  reverse the bytes). The laws of the macros are stated once, as the locale \<open>cell_codec\<close>, and
  interpreted for the unsigned, signed, address and UTF-16 macros.
\<close>

section \<open>Types and sentinels\<close>

type_synonym obl_uint = "32 word"
type_synonym obl_int = "32 word"
type_synonym obl_address = obl_uint
type_synonym obl_physical_address = obl_address
type_synonym obl_logical_address = obl_address
type_synonym UChar = "16 word"
type_synonym UChar32 = "32 word"

definition OBL_UINT_MAX :: obl_uint where
  "OBL_UINT_MAX = 0xFFFFFFFF"

definition OBL_SENTINEL :: obl_uint where
  "OBL_SENTINEL = OBL_UINT_MAX"

definition OBL_ADDRESS_MAX :: obl_uint where
  "OBL_ADDRESS_MAX = OBL_UINT_MAX"

abbreviation (input) OBL_PHYSICAL_UNASSIGNED :: obl_physical_address where
  "OBL_PHYSICAL_UNASSIGNED \<equiv> 0"

abbreviation (input) OBL_LOGICAL_UNASSIGNED :: obl_logical_address where
  "OBL_LOGICAL_UNASSIGNED \<equiv> 0"

section \<open>Compile-time constants\<close>

definition CHUNK_SIZE :: nat where
  "CHUNK_SIZE = 256"

definition CHUNK_SIZE_LOG2 :: nat where
  "CHUNK_SIZE_LOG2 = 9"

definition DEFAULT_STUB_DEPTH :: int where
  "DEFAULT_STUB_DEPTH = 4"

definition DEFAULT_GROWTH_SIZE :: int where
  "DEFAULT_GROWTH_SIZE = 4096"

section \<open>Network byte order on a little-endian host\<close>

definition htonl :: "obl_uint \<Rightarrow> obl_uint" where
  "htonl x = push_bit 24 (x AND 0xFF) OR push_bit 8 (x AND 0xFF00) OR
             drop_bit 8 (x AND 0xFF0000) OR drop_bit 24 (x AND 0xFF000000)"

definition ntohl :: "obl_uint \<Rightarrow> obl_uint" where
  "ntohl x = htonl x"

definition htons :: "UChar \<Rightarrow> UChar" where
  "htons x = push_bit 8 (x AND 0xFF) OR drop_bit 8 (x AND 0xFF00)"

definition ntohs :: "UChar \<Rightarrow> UChar" where
  "ntohs x = htons x"

definition writable_uint :: "obl_uint \<Rightarrow> obl_uint" where
  "writable_uint x = htonl x"

definition readable_uint :: "obl_uint \<Rightarrow> obl_uint" where
  "readable_uint x = ntohl x"

definition writable_int :: "obl_int \<Rightarrow> obl_uint" where
  "writable_int x = htonl x"

definition readable_int :: "obl_uint \<Rightarrow> obl_int" where
  "readable_int x = ntohl x"

definition writable_UChar :: "UChar \<Rightarrow> UChar" where
  "writable_UChar ch = htons ch"

definition readable_UChar :: "UChar \<Rightarrow> UChar" where
  "readable_UChar ch = ntohs ch"

definition writable_logical :: "obl_logical_address \<Rightarrow> obl_uint" where
  "writable_logical x = writable_uint x"

definition readable_logical :: "obl_uint \<Rightarrow> obl_logical_address" where
  "readable_logical x = readable_uint x"

definition writable_physical :: "obl_physical_address \<Rightarrow> obl_uint" where
  "writable_physical x = writable_uint x"

definition readable_physical :: "obl_uint \<Rightarrow> obl_physical_address" where
  "readable_physical x = writable_uint x"

text \<open>The byte masks as shifted masks, for reasoning bit by bit.\<close>

lemma byte_masks32:
  "(0xFF :: 32 word) = mask 8" "(0xFF00 :: 32 word) = push_bit 8 (mask 8)"
  "(0xFF0000 :: 32 word) = push_bit 16 (mask 8)" "(0xFF000000 :: 32 word) = push_bit 24 (mask 8)"
  by (simp_all add: mask_eq_exp_minus_1 push_bit_eq_mult)

lemma byte_masks16:
  "(0xFF :: 16 word) = mask 8" "(0xFF00 :: 16 word) = push_bit 8 (mask 8)"
  by (simp_all add: mask_eq_exp_minus_1 push_bit_eq_mult)

lemma htonl_htonl: "htonl (htonl x) = x"
proof (rule bit_word_eqI)
  fix n assume "n < LENGTH(32)"
  then consider "n < 8" | "8 \<le> n" "n < 16" | "16 \<le> n" "n < 24" | "24 \<le> n" "n < 32"
    by force
  then show "bit (htonl (htonl x)) n = bit x n"
    by cases (auto simp: htonl_def byte_masks32 bit_simps)
qed

lemma htons_htons: "htons (htons x) = x"
proof (rule bit_word_eqI)
  fix n assume "n < LENGTH(16)"
  then consider "n < 8" | "8 \<le> n" "n < 16"
    by force
  then show "bit (htons (htons x)) n = bit x n"
    by cases (auto simp: htons_def byte_masks16 bit_simps)
qed

text \<open>The bytes of a word in the order in which a little-endian host stores them.\<close>

definition bytes32 :: "32 word \<Rightarrow> 8 word list" where
  "bytes32 u = map (\<lambda>i. ucast (drop_bit (8 * i) u)) [0, 1, 2, 3]"

definition bytes16 :: "16 word \<Rightarrow> 8 word list" where
  "bytes16 u = map (\<lambda>i. ucast (drop_bit (8 * i) u)) [0, 1]"

lemma bytes32_htonl: "bytes32 (htonl u) = rev (bytes32 u)"
proof -
  have byte: "ucast (drop_bit (8 * i) (htonl u)) = (ucast (drop_bit (8 * (3 - i)) u) :: 8 word)"
    if "i < 4" for i
  proof (rule bit_word_eqI)
    fix n assume "n < LENGTH(8)"
    with that consider "i = 0" "n < 8" | "i = 1" "n < 8" | "i = 2" "n < 8" | "i = 3" "n < 8" by force
    then show "bit (ucast (drop_bit (8 * i) (htonl u)) :: 8 word) n
        = bit (ucast (drop_bit (8 * (3 - i)) u) :: 8 word) n"
      by cases (auto simp: htonl_def byte_masks32 bit_simps)
  qed
  show ?thesis using byte [of 0] byte [of 1] byte [of 2] byte [of 3] by (simp add: bytes32_def)
qed

lemma bytes16_htons: "bytes16 (htons u) = rev (bytes16 u)"
proof -
  have byte: "ucast (drop_bit (8 * i) (htons u)) = (ucast (drop_bit (8 * (1 - i)) u) :: 8 word)"
    if "i < 2" for i
  proof (rule bit_word_eqI)
    fix n assume "n < LENGTH(8)"
    with that consider "i = 0" "n < 8" | "i = 1" "n < 8" by force
    then show "bit (ucast (drop_bit (8 * i) (htons u)) :: 8 word) n
        = bit (ucast (drop_bit (8 * (1 - i)) u) :: 8 word) n"
      by cases (auto simp: htons_def byte_masks16 bit_simps)
  qed
  show ?thesis using byte [of 0] byte [of 1] by (simp add: bytes16_def)
qed

lemma writable_bytes:
  "bytes32 (writable_uint u) = rev (bytes32 u)" "bytes32 (writable_int i) = rev (bytes32 i)"
  "bytes16 (writable_UChar c) = rev (bytes16 c)"
  "bytes32 (writable_logical l) = rev (bytes32 l)"
  "bytes32 (writable_physical p) = rev (bytes32 p)"
  by (simp_all add: writable_uint_def writable_int_def writable_UChar_def writable_logical_def
      writable_physical_def bytes32_htonl bytes16_htons)

section \<open>The codec interface\<close>

text \<open>
  What every reader and writer of the database relies on: the reading macro undoes the writing
  macro and the other way round. The list forms serve the array loops of the storage modules.
\<close>

locale cell_codec =
  fixes wr :: "'v \<Rightarrow> 'c"
    and rd :: "'c \<Rightarrow> 'v"
  assumes rd_wr: "rd (wr v) = v"
    and wr_rd: "wr (rd c) = c"
begin

lemma wr_inj: "wr a = wr b \<longleftrightarrow> a = b"
  by (metis rd_wr)

lemma rd_eq_iff: "rd c = v \<longleftrightarrow> c = wr v"
  by (metis rd_wr wr_rd)

lemma map_rd_wr: "map (rd \<circ> wr) vs = vs"
  by (simp add: rd_wr o_def)

end

interpretation uint_codec: cell_codec writable_uint readable_uint
  by unfold_locales (simp_all add: writable_uint_def readable_uint_def ntohl_def htonl_htonl)

interpretation int_codec: cell_codec writable_int readable_int
  by unfold_locales (simp_all add: writable_int_def readable_int_def ntohl_def htonl_htonl)

interpretation uchar_codec: cell_codec writable_UChar readable_UChar
  by unfold_locales (simp_all add: writable_UChar_def readable_UChar_def ntohs_def htons_htons)

interpretation logical_codec: cell_codec writable_logical readable_logical
  by unfold_locales
    (simp_all add: writable_logical_def readable_logical_def uint_codec.rd_wr uint_codec.wr_rd)

interpretation physical_codec: cell_codec writable_physical readable_physical
  by unfold_locales
    (simp_all add: writable_physical_def readable_physical_def writable_uint_def htonl_htonl)

lemmas codec_simps = uint_codec.rd_wr int_codec.rd_wr uchar_codec.rd_wr logical_codec.rd_wr
  physical_codec.rd_wr

end
