(* ===== verification/RBTree.thy ===== *)
theory RBTree
  imports Platform
begin

text \<open>
  The red-black tree of \<open>obl/set.c\<close>: node manipulation, lookup, insertion, deletion and the
  structural check.

  A node pointer is a value of type \<open>'o rb\<close>: \<open>Tip\<close> is \<open>NULL\<close> and \<open>Node\<close> carries the fields of
  \<open>struct obl_rb_node\<close> (colour, left child, key, object, right child). The nodes of a set are
  reachable only through the set, so a subtree that the C code updates in place is a subtree that
  the model returns. Keys are unsigned machine integers, read as natural numbers. The macros
  \<open>IS_RED\<close>, \<open>IS_BLACK\<close> and \<open>OPPOSITE\<close> and the child array have their own definitions, so the
  operations read like the C text.
\<close>

section \<open>Nodes\<close>

datatype color = RED | BLACK

datatype direction = LEFT | RIGHT

type_synonym obl_set_key = nat

datatype 'o rb = Tip | Node color "'o rb" obl_set_key 'o "'o rb"

fun OPPOSITE :: "direction \<Rightarrow> direction" where
  "OPPOSITE LEFT = RIGHT"
| "OPPOSITE RIGHT = LEFT"

fun IS_RED :: "'o rb \<Rightarrow> bool" where
  "IS_RED Tip = False"
| "IS_RED (Node c l k x r) = (c = RED)"

fun IS_BLACK :: "'o rb \<Rightarrow> bool" where
  "IS_BLACK Tip = True"
| "IS_BLACK (Node c l k x r) = (c = BLACK)"

text \<open>Reading and writing \<open>n->children[dir]\<close> and \<open>n->color\<close>. The code never does either on \<open>NULL\<close>.\<close>

fun child :: "direction \<Rightarrow> 'o rb \<Rightarrow> 'o rb" where
  "child d Tip = Tip"
| "child LEFT (Node c l k x r) = l"
| "child RIGHT (Node c l k x r) = r"

fun set_child :: "direction \<Rightarrow> 'o rb \<Rightarrow> 'o rb \<Rightarrow> 'o rb" where
  "set_child d Tip t = Tip"
| "set_child LEFT (Node c l k x r) t = Node c t k x r"
| "set_child RIGHT (Node c l k x r) t = Node c l k x t"

fun color_of :: "'o rb \<Rightarrow> color" where
  "color_of Tip = BLACK"
| "color_of (Node c l k x r) = c"

fun set_color :: "color \<Rightarrow> 'o rb \<Rightarrow> 'o rb" where
  "set_color c Tip = Tip"
| "set_color c (Node c' l k x r) = Node c l k x r"

section \<open>Rotations\<close>

definition rotate_single :: "'o rb \<Rightarrow> direction \<Rightarrow> 'o rb" where
  "rotate_single fulcrum dir =
     (let saved = child (OPPOSITE dir) fulcrum;
          fulcrum' = set_color RED (set_child (OPPOSITE dir) fulcrum (child dir saved))
      in set_color BLACK (set_child dir saved fulcrum'))"

definition rotate_double :: "'o rb \<Rightarrow> direction \<Rightarrow> 'o rb" where
  "rotate_double fulcrum dir =
     rotate_single
       (set_child (OPPOSITE dir) fulcrum
          (rotate_single (child (OPPOSITE dir) fulcrum) (OPPOSITE dir)))
       dir"

section \<open>Lookup\<close>

fun lookup_r :: "'o rb \<Rightarrow> obl_set_key \<Rightarrow> 'o option" where
  "lookup_r Tip key = None"
| "lookup_r (Node c l k x r) key =
     (if k = key then Some x
      else if key < k then lookup_r l key
      else lookup_r r key)"

section \<open>Insertion\<close>

text \<open>
  The rebalancing that follows the recursive call of \<open>insert_r\<close>, on the node whose child in
  direction \<open>dir\<close> has just been replaced.
\<close>

definition insert_balance :: "'o rb \<Rightarrow> direction \<Rightarrow> 'o rb" where
  "insert_balance n dir =
     (if IS_RED (child dir n) then
        if IS_RED (child (OPPOSITE dir) n) then
          (let n1 = set_color RED n;
               n2 = set_child LEFT n1 (set_color BLACK (child LEFT n1))
           in set_child RIGHT n2 (set_color BLACK (child RIGHT n2)))
        else if IS_RED (child dir (child dir n)) then rotate_single n (OPPOSITE dir)
        else if IS_RED (child (OPPOSITE dir) (child dir n)) then rotate_double n (OPPOSITE dir)
        else n
      else n)"

text \<open>
  \<open>insert_r\<close> also returns the object it replaced, if the key was present: the caller releases it
  when it is not the object being inserted.
\<close>

fun insert_r :: "'o rb \<Rightarrow> obl_set_key \<Rightarrow> 'o \<Rightarrow> 'o rb \<times> 'o option" where
  "insert_r Tip key x = (Node RED Tip key x Tip, None)"
| "insert_r (Node c l k y r) key x =
     (if key \<noteq> k then
        if key > k then
          (let (r', old) = insert_r r key x in (insert_balance (Node c l k y r') RIGHT, old))
        else
          (let (l', old) = insert_r l key x in (insert_balance (Node c l' k y r) LEFT, old))
      else (Node c l k x r, Some y))"

definition set_insert :: "'o rb \<Rightarrow> obl_set_key \<Rightarrow> 'o \<Rightarrow> 'o rb \<times> 'o option" where
  "set_insert root key x = (let (root', old) = insert_r root key x in (set_color BLACK root', old))"

section \<open>Deletion\<close>

text \<open>
  \<open>remove_balance\<close> holds three pointers: \<open>n\<close> (what will be returned), \<open>p\<close> (the node whose subtree
  in direction \<open>dir\<close> became too short) and \<open>s\<close> (its sibling subtree). When the sibling is red, a
  rotation makes it the new \<open>n\<close>, and \<open>p\<close> is then its child in direction \<open>dir\<close>. Updates through \<open>p\<close>
  show up in \<open>n\<close> because \<open>n->children[dir]\<close> is the node \<open>p\<close> points to. The second branch rotates
  \<open>p\<close> and makes the variable \<open>p\<close> point to another node; \<open>n\<close> is replaced by it only when both
  pointed to the same node (\<open>new_root\<close>). Otherwise \<open>n->children[dir]\<close> still is the node that was
  the fulcrum of the rotation, and that node is \<open>p->children[dir]\<close> afterwards.
\<close>

definition remove_balance :: "'o rb \<Rightarrow> direction \<Rightarrow> bool \<Rightarrow> 'o rb \<times> bool" where
  "remove_balance n0 dir finished =
     (let red_sibling = IS_RED (child (OPPOSITE dir) n0);
          n = (if red_sibling then rotate_single n0 dir else n0);
          p = (if red_sibling then child dir n else n0);
          s = child (OPPOSITE dir) p
      in if s \<noteq> Tip then
           if IS_BLACK (child LEFT s) \<and> IS_BLACK (child RIGHT s) then
             (let p' = set_color BLACK (set_child (OPPOSITE dir) p (set_color RED s))
              in (if red_sibling then set_child dir n p' else p',
                  if IS_RED p then True else finished))
           else
             (let n_color = color_of n;
                  new_root = (\<not> red_sibling);
                  q = (if IS_RED (child (OPPOSITE dir) s) then rotate_single p dir
                       else rotate_double p dir);
                  q1 = set_color n_color q;
                  q2 = set_child LEFT q1 (set_color BLACK (child LEFT q1));
                  q3 = set_child RIGHT q2 (set_color BLACK (child RIGHT q2))
              in (if new_root then q3 else set_child dir n (child dir q3), True))
         else (n, finished))"

text \<open>The in-order predecessor of the root of a tree with this left subtree.\<close>

fun heir :: "'o rb \<Rightarrow> obl_set_key \<Rightarrow> 'o \<Rightarrow> obl_set_key \<times> 'o" where
  "heir Tip k x = (k, x)"
| "heir (Node c l k x r) k' x' = heir r k x"

text \<open>
  \<open>dir = (enum direction) n->key < key\<close>: the cast applies to the key of the node and narrows it to
  the 32 bits of an enumeration before the comparison.
\<close>

definition enum_cast :: "obl_set_key \<Rightarrow> nat" where
  "enum_cast k = k mod 2 ^ 32"

definition remove_dir :: "obl_set_key \<Rightarrow> obl_set_key \<Rightarrow> direction" where
  "remove_dir node_key key = (if enum_cast node_key < key then RIGHT else LEFT)"

fun remove_r :: "'o rb \<Rightarrow> obl_set_key \<Rightarrow> bool \<Rightarrow> 'o rb \<times> bool" where
  "remove_r Tip key finished = (Tip, True)"
| "remove_r (Node c l k x r) key finished =
     (if k = key \<and> (l = Tip \<or> r = Tip) then
        (let saved = (if l = Tip then r else l)
         in if c = RED then (saved, True)
            else if IS_RED saved then (set_color BLACK saved, True)
            else (saved, finished))
      else
        (let (k', x') = (if k = key then heir l k x else (k, x));
             key' = (if k = key then k' else key)
         in case remove_dir k' key' of
              RIGHT \<Rightarrow>
                (let (r', f) = remove_r r key' finished; n = Node c l k' x' r'
                 in if f then (n, f) else remove_balance n RIGHT f)
            | LEFT \<Rightarrow>
                (let (l', f) = remove_r l key' finished; n = Node c l' k' x' r
                 in if f then (n, f) else remove_balance n LEFT f)))"

definition set_remove :: "'o rb \<Rightarrow> obl_set_key \<Rightarrow> 'o rb" where
  "set_remove root key = fst (remove_r root key False)"

section \<open>The structural check\<close>

fun verify_r :: "'o rb \<Rightarrow> nat" where
  "verify_r Tip = 1"
| "verify_r (Node c l k x r) =
     (if c = RED \<and> (IS_RED l \<or> IS_RED r) then 0
      else if (case l of Tip \<Rightarrow> False | Node _ _ kl _ _ \<Rightarrow> kl \<ge> k) \<or>
              (case r of Tip \<Rightarrow> False | Node _ _ kr _ _ \<Rightarrow> kr \<le> k) then 0
      else
        (let left_height = verify_r l; right_height = verify_r r
         in if left_height \<noteq> 0 \<and> right_height \<noteq> 0 \<and> left_height \<noteq> right_height then 0
            else if left_height \<noteq> 0 \<and> right_height \<noteq> 0 then
              (if c = BLACK then left_height + 1 else left_height)
            else 0))"

section \<open>Invariants\<close>

fun entries :: "'o rb \<Rightarrow> (obl_set_key \<times> 'o) list" where
  "entries Tip = []"
| "entries (Node c l k x r) = entries l @ (k, x) # entries r"

definition keys :: "'o rb \<Rightarrow> obl_set_key list" where
  "keys t = map fst (entries t)"

definition ordered :: "'o rb \<Rightarrow> bool" where
  "ordered t \<longleftrightarrow> sorted_wrt (<) (keys t)"

fun black_height :: "'o rb \<Rightarrow> nat" where
  "black_height Tip = 1"
| "black_height (Node c l k x r) = (if c = BLACK then black_height l + 1 else black_height l)"

fun same_height :: "'o rb \<Rightarrow> bool" where
  "same_height Tip = True"
| "same_height (Node c l k x r) =
     (same_height l \<and> same_height r \<and> black_height l = black_height r)"

fun no_red_red :: "'o rb \<Rightarrow> bool" where
  "no_red_red Tip = True"
| "no_red_red (Node c l k x r) =
     (no_red_red l \<and> no_red_red r \<and> (c = RED \<longrightarrow> IS_BLACK l \<and> IS_BLACK r))"

text \<open>Everything but the root satisfies \<open>no_red_red\<close>, with at most one red child under a red root.\<close>

fun no_red_red_below :: "'o rb \<Rightarrow> bool" where
  "no_red_red_below Tip = True"
| "no_red_red_below (Node c l k x r) =
     (no_red_red l \<and> no_red_red r \<and> (c = RED \<longrightarrow> IS_BLACK l \<or> IS_BLACK r))"

definition rb_valid :: "'o rb \<Rightarrow> bool" where
  "rb_valid t \<longleftrightarrow> ordered t \<and> same_height t \<and> no_red_red t \<and> IS_BLACK t"

end
