(* ===== verification/RBCorrect.thy ===== *)
theory RBCorrect
  imports RBTree
begin

text \<open>
  Correctness of the red-black tree: the in-order listing after each operation, the preservation of
  the ordering, height and colour invariants, and the contract \<open>object_set\<close> that the sessions and
  transactions rely on.
\<close>

section \<open>Colours\<close>

lemma IS_BLACK_iff [simp]: "IS_BLACK t \<longleftrightarrow> \<not> IS_RED t"
  by (cases t) (auto simp: color.exhaust, metis color.exhaust)

lemma not_RED [simp]: "c \<noteq> RED \<longleftrightarrow> c = BLACK"
  by (cases c) auto

lemma not_BLACK [simp]: "c \<noteq> BLACK \<longleftrightarrow> c = RED"
  by (cases c) auto

lemma IS_RED_obtain:
  assumes "IS_RED t"
  obtains l k x r where "t = Node RED l k x r"
  using assms by (cases t) auto

lemma IS_RED_set_color_BLACK [simp]: "\<not> IS_RED (set_color BLACK t)"
  by (cases t) auto

lemma entries_set_color [simp]: "entries (set_color c t) = entries t"
  by (cases t) auto

lemma keys_set_color [simp]: "keys (set_color c t) = keys t"
  by (simp add: keys_def)

lemma same_height_set_color [simp]: "same_height (set_color c t) = same_height t"
  by (cases t) auto

lemma keys_simps [simp]:
  "keys Tip = []" "keys (Node c l k x r) = keys l @ k # keys r"
  by (simp_all add: keys_def)

lemma ordered_Tip [simp]: "ordered Tip"
  by (simp add: ordered_def)

lemma ordered_Node:
  "ordered (Node c l k x r) \<longleftrightarrow>
     ordered l \<and> ordered r \<and> (\<forall>j\<in>set (keys l). j < k) \<and> (\<forall>j\<in>set (keys r). k < j)"
  by (simp add: ordered_def sorted_wrt_less_append_iff)

lemma ordered_set_color [simp]: "ordered (set_color c t) = ordered t"
  by (simp add: ordered_def)

lemma black_height_pos [simp]: "0 < black_height t"
  by (induction t) auto

lemma black_height_nonzero [simp]: "black_height t \<noteq> 0"
  by (induction t) auto

section \<open>Lookup\<close>

lemma map_of_entries_None: "j \<notin> set (keys t) \<Longrightarrow> map_of (entries t) j = None"
  by (simp add: keys_def map_of_eq_None_iff)

lemma lookup_r_entries: "ordered t \<Longrightarrow> lookup_r t k = map_of (entries t) k"
proof (induction t)
  case Tip
  then show ?case by simp
next
  case (Node c l j x r)
  then have ord: "ordered l" "ordered r" "\<forall>i\<in>set (keys l). i < j" "\<forall>i\<in>set (keys r). j < i"
    by (auto simp: ordered_Node)
  consider "k = j" | "k < j" | "j < k"
    by linarith
  then show ?case
  proof cases
    case 1
    then have "k \<notin> set (keys l)" using ord by auto
    then show ?thesis using 1 by (simp add: map_add_def map_of_entries_None)
  next
    case 2
    then have "k \<notin> set (keys r)" using ord by auto
    then show ?thesis using 2 Node ord
      by (auto simp: map_add_def map_of_entries_None split: option.splits)
  next
    case 3
    then have "k \<notin> set (keys l)" using ord by auto
    then show ?thesis using 3 Node ord
      by (auto simp: map_add_def map_of_entries_None split: option.splits)
  qed
qed

section \<open>Insertion\<close>

subsection \<open>In-order listing\<close>

fun insert_entry :: "obl_set_key \<Rightarrow> 'o \<Rightarrow> (obl_set_key \<times> 'o) list \<Rightarrow> (obl_set_key \<times> 'o) list" where
  "insert_entry k x [] = [(k, x)]"
| "insert_entry k x ((j, y) # es) =
     (if k < j then (k, x) # (j, y) # es
      else if k = j then (k, x) # es
      else (j, y) # insert_entry k x es)"

lemma map_of_insert_entry:
  "sorted_wrt (<) (map fst es) \<Longrightarrow> map_of (insert_entry k x es) = (map_of es)(k \<mapsto> x)"
  by (induction k x es rule: insert_entry.induct) (auto simp: fun_eq_iff)

lemma set_insert_entry: "fst ` set (insert_entry k x es) = insert k (fst ` set es)"
  by (induction k x es rule: insert_entry.induct) auto

lemma sorted_insert_entry:
  "sorted_wrt (<) (map fst es) \<Longrightarrow> sorted_wrt (<) (map fst (insert_entry k x es))"
proof (induction k x es rule: insert_entry.induct)
  case (2 k x j y es)
  have "fst ` set (insert_entry k x es) = insert k (fst ` set es)"
    by (rule set_insert_entry)
  with 2 show ?case by (auto simp flip: set_map)
qed simp

lemma insert_entry_left:
  "\<lbrakk>k < j; \<forall>i\<in>set (map fst es). i < j\<rbrakk> \<Longrightarrow>
     insert_entry k x (es @ (j, y) # fs) = insert_entry k x es @ (j, y) # fs"
  by (induction k x es rule: insert_entry.induct) auto

lemma insert_entry_right:
  "\<lbrakk>j \<le> k; \<forall>i\<in>set (map fst es). i < j\<rbrakk> \<Longrightarrow>
     insert_entry k x (es @ (j, y) # fs) = es @ insert_entry k x ((j, y) # fs)"
  by (induction k x es rule: insert_entry.induct) auto

lemma entries_insert_balance [simp]: "entries (insert_balance n dir) = entries n"
proof (cases n)
  case (Node c l k x r)
  show ?thesis
    by (cases dir; cases l; cases r)
      (auto simp: Node insert_balance_def rotate_single_def rotate_double_def Let_def
        elim!: IS_RED_obtain)
qed (simp add: insert_balance_def)

lemma entries_insert_r:
  "ordered t \<Longrightarrow> entries (fst (insert_r t k x)) = insert_entry k x (entries t)"
proof (induction t k x rule: insert_r.induct)
  case (2 c l j y r k x)
  then have ord: "ordered l" "ordered r" "\<forall>i\<in>set (map fst (entries l)). i < j"
    by (auto simp: ordered_Node keys_def)
  consider "k = j" | "k < j" | "j < k"
    by linarith
  then show ?case
  proof cases
    case 1
    then show ?thesis using ord by (simp add: insert_entry_right)
  next
    case 2
    then show ?thesis using ord "2.IH"(2)
      by (simp add: insert_entry_left case_prod_beta)
  next
    case 3
    then show ?thesis using ord "2.IH"(1)
      by (simp add: insert_entry_right case_prod_beta)
  qed
qed simp

lemma insert_r_replaced:
  "ordered t \<Longrightarrow> snd (insert_r t k x) = lookup_r t k"
  by (induction t k x rule: insert_r.induct) (auto simp: case_prod_beta ordered_Node)

subsection \<open>Colours and heights\<close>

lemma no_red_red_imp_below: "no_red_red t \<Longrightarrow> no_red_red_below t"
  by (cases t) auto

lemma insert_balance_inv_LEFT:
  assumes "same_height l" "same_height r" "black_height l = black_height r"
    and "no_red_red_below l" "no_red_red r"
    and "c = RED \<Longrightarrow> no_red_red l \<and> \<not> IS_RED r"
  shows "same_height (insert_balance (Node c l k x r) LEFT) \<and>
         black_height (insert_balance (Node c l k x r) LEFT) = black_height (Node c l k x r) \<and>
         no_red_red_below (insert_balance (Node c l k x r) LEFT) \<and>
         (c = BLACK \<longrightarrow> no_red_red (insert_balance (Node c l k x r) LEFT))"
proof (cases l)
  case Tip
  then show ?thesis using assms by (cases c) (auto simp: insert_balance_def)
next
  case (Node cl ll kl xl lr)
  show ?thesis
    using assms unfolding Node
    by (cases c; cases cl; cases "IS_RED ll"; cases "IS_RED lr"; cases "IS_RED r")
      (auto simp: insert_balance_def rotate_single_def rotate_double_def Let_def
        elim!: IS_RED_obtain)
qed

lemma insert_balance_inv_RIGHT:
  assumes "same_height l" "same_height r" "black_height l = black_height r"
    and "no_red_red l" "no_red_red_below r"
    and "c = RED \<Longrightarrow> no_red_red r \<and> \<not> IS_RED l"
  shows "same_height (insert_balance (Node c l k x r) RIGHT) \<and>
         black_height (insert_balance (Node c l k x r) RIGHT) = black_height (Node c l k x r) \<and>
         no_red_red_below (insert_balance (Node c l k x r) RIGHT) \<and>
         (c = BLACK \<longrightarrow> no_red_red (insert_balance (Node c l k x r) RIGHT))"
proof (cases r)
  case Tip
  then show ?thesis using assms by (cases c) (auto simp: insert_balance_def)
next
  case (Node cr rl kr xr rr)
  show ?thesis
    using assms unfolding Node
    by (cases c; cases cr; cases "IS_RED rl"; cases "IS_RED rr"; cases "IS_RED l")
      (auto simp: insert_balance_def rotate_single_def rotate_double_def Let_def
        elim!: IS_RED_obtain)
qed

lemma insert_r_inv:
  "\<lbrakk>same_height t; no_red_red t\<rbrakk> \<Longrightarrow>
     same_height (fst (insert_r t k x)) \<and>
     black_height (fst (insert_r t k x)) = black_height t \<and>
     no_red_red_below (fst (insert_r t k x)) \<and>
     (\<not> IS_RED t \<longrightarrow> no_red_red (fst (insert_r t k x)))"
proof (induction t k x rule: insert_r.induct)
  case (2 c l j y r k x)
  consider "k = j" | "k < j" | "j < k"
    by linarith
  then show ?case
  proof cases
    case 1
    then show ?thesis using 2 by (auto simp: no_red_red_imp_below)
  next
    case 2
    obtain l' old where l': "insert_r l k x = (l', old)" by force
    with 2 "2.IH"(2) "2.prems" show ?thesis
      using insert_balance_inv_LEFT [of l' r c j y] by (auto simp: no_red_red_imp_below)
  next
    case 3
    obtain r' old where r': "insert_r r k x = (r', old)" by force
    with 3 "2.IH"(1) "2.prems" show ?thesis
      using insert_balance_inv_RIGHT [of l r' c j y] by (auto simp: no_red_red_imp_below)
  qed
qed simp

lemma no_red_red_set_color_BLACK: "no_red_red_below t \<Longrightarrow> no_red_red (set_color BLACK t)"
  by (cases t) auto

lemma entries_set_insert:
  "ordered t \<Longrightarrow> entries (fst (set_insert t k x)) = insert_entry k x (entries t)"
  by (simp add: set_insert_def case_prod_beta entries_insert_r)

lemma keys_set_insert:
  "ordered t \<Longrightarrow> set (keys (fst (set_insert t k x))) = insert k (set (keys t))"
  by (simp add: keys_def entries_set_insert set_insert_entry)

lemma rb_valid_set_insert: "rb_valid t \<Longrightarrow> rb_valid (fst (set_insert t k x))"
  using insert_r_inv [of t k x] sorted_insert_entry [of "entries t" k x]
  by (auto simp: rb_valid_def set_insert_def case_prod_beta no_red_red_set_color_BLACK
      ordered_def keys_def entries_insert_r)

section \<open>Deletion\<close>

lemma entries_rotate_single [simp]: "entries (rotate_single t dir) = entries t"
  if "child (OPPOSITE dir) t \<noteq> Tip"
proof (cases t)
  case (Node c l k x r)
  with that show ?thesis
    by (cases dir; cases l; cases r) (auto simp: rotate_single_def Let_def)
qed (simp add: rotate_single_def)

text \<open>The sibling that \<open>remove_balance\<close> looks at first.\<close>

abbreviation sibling :: "'o rb \<Rightarrow> direction \<Rightarrow> 'o rb" where
  "sibling n dir \<equiv> child (OPPOSITE dir) n"

lemma entries_remove_balance_black:
  assumes "\<not> IS_RED (sibling n dir)"
  shows "entries (fst (remove_balance n dir f)) = entries n"
proof (cases n)
  case (Node c l k x r)
  show ?thesis
  proof (cases dir)
    case LEFT
    then show ?thesis using assms unfolding Node
      by (cases r; cases "IS_RED (child LEFT r)"; cases "IS_RED (child RIGHT r)")
        (auto simp: remove_balance_def rotate_single_def rotate_double_def Let_def
          elim!: IS_RED_obtain)
  next
    case RIGHT
    then show ?thesis using assms unfolding Node
      by (cases l; cases "IS_RED (child LEFT l)"; cases "IS_RED (child RIGHT l)")
        (auto simp: remove_balance_def rotate_single_def rotate_double_def Let_def
          elim!: IS_RED_obtain)
  qed
qed (simp add: remove_balance_def)

lemma remove_balance_shrinks:
  assumes "ordered n"
  shows "ordered (fst (remove_balance n dir f)) \<and>
         set (entries (fst (remove_balance n dir f))) \<subseteq> set (entries n)"
proof (cases "IS_RED (sibling n dir)")
  case False
  then have "entries (fst (remove_balance n dir f)) = entries n"
    by (rule entries_remove_balance_black)
  with assms show ?thesis by (simp add: ordered_def keys_def)
next
  case True
  then obtain c l k x r where n: "n = Node c l k x r"
    by (cases n) auto
  show ?thesis
  proof (cases dir)
    case LEFT
    with True n obtain rl rk rx rr where r: "r = Node RED rl rk rx rr"
      by (auto elim: IS_RED_obtain)
    show ?thesis using assms unfolding n r LEFT ordered_def
      by (cases rl; cases "IS_RED (child LEFT rl)"; cases "IS_RED (child RIGHT rl)")
        (auto simp: remove_balance_def rotate_single_def rotate_double_def Let_def
          sorted_wrt_append elim!: IS_RED_obtain)
  next
    case RIGHT
    with True n obtain ll lk lx lr where l: "l = Node RED ll lk lx lr"
      by (auto elim: IS_RED_obtain)
    show ?thesis using assms unfolding n l RIGHT ordered_def
      by (cases lr; cases "IS_RED (child LEFT lr)"; cases "IS_RED (child RIGHT lr)")
        (auto simp: remove_balance_def rotate_single_def rotate_double_def Let_def
          sorted_wrt_append elim!: IS_RED_obtain)
  qed
qed

lemma remove_balance_inv_LEFT:
  assumes "same_height l" "same_height r" "black_height r = Suc (black_height l)"
    and "no_red_red l" "no_red_red r" "\<not> IS_RED l" "c = RED \<Longrightarrow> \<not> IS_RED r"
    and "remove_balance (Node c l k x r) LEFT False = (t, f)"
  shows "same_height t \<and> no_red_red t \<and> (c = BLACK \<longrightarrow> \<not> IS_RED t) \<and>
         (if f then black_height t = black_height (Node c r k x r)
          else Suc (black_height t) = black_height (Node c r k x r) \<and> \<not> IS_RED t)"
proof (cases r)
  case Tip
  then show ?thesis using assms black_height_pos [of l] black_height_pos [of r] by simp
next
  case (Node cr rl rk rx rr)
  show ?thesis
  proof (cases cr)
    case BLACK
    then show ?thesis using assms unfolding Node
      by (cases c; cases "IS_RED rl"; cases "IS_RED rr")
        (auto simp: remove_balance_def rotate_single_def rotate_double_def Let_def
          elim!: IS_RED_obtain)
  next
    case RED
    with assms Node obtain sl sk sx sr where rl: "rl = Node BLACK sl sk sx sr"
      by (cases rl) auto
    show ?thesis using assms unfolding Node RED rl
      by (cases c; cases "IS_RED sl"; cases "IS_RED sr")
        (auto simp: remove_balance_def rotate_single_def rotate_double_def Let_def
          elim!: IS_RED_obtain)
  qed
qed

lemma remove_balance_inv_RIGHT:
  assumes "same_height l" "same_height r" "black_height l = Suc (black_height r)"
    and "no_red_red l" "no_red_red r" "\<not> IS_RED r" "c = RED \<Longrightarrow> \<not> IS_RED l"
    and "remove_balance (Node c l k x r) RIGHT False = (t, f)"
  shows "same_height t \<and> no_red_red t \<and> (c = BLACK \<longrightarrow> \<not> IS_RED t) \<and>
         (if f then black_height t = black_height (Node c l k x l)
          else Suc (black_height t) = black_height (Node c l k x l) \<and> \<not> IS_RED t)"
proof (cases l)
  case Tip
  then show ?thesis using assms black_height_pos [of l] black_height_pos [of r] by simp
next
  case (Node cl ll lk lx lr)
  show ?thesis
  proof (cases cl)
    case BLACK
    then show ?thesis using assms unfolding Node
      by (cases c; cases "IS_RED ll"; cases "IS_RED lr")
        (auto simp: remove_balance_def rotate_single_def rotate_double_def Let_def
          elim!: IS_RED_obtain)
  next
    case RED
    with assms Node obtain sl sk sx sr where lr: "lr = Node BLACK sl sk sx sr"
      by (cases lr) auto
    show ?thesis using assms unfolding Node RED lr
      by (cases c; cases "IS_RED sl"; cases "IS_RED sr")
        (auto simp: remove_balance_def rotate_single_def rotate_double_def Let_def
          elim!: IS_RED_obtain)
  qed
qed

text \<open>One unfolding of the recursive branch of \<open>remove_r\<close>, with the swapped entry made explicit.\<close>

lemma remove_r_branch:
  assumes "\<not> (k = key \<and> (l = Tip \<or> r = Tip))"
    and "(if k = key then heir l k x else (k, x)) = (k', x')"
    and "(if k = key then k' else key) = key'"
  shows "remove_r (Node c l k x r) key finished =
     (case remove_dir k' key' of
        RIGHT \<Rightarrow> (let (r', f) = remove_r r key' finished
                  in if f then (Node c l k' x' r', f) else remove_balance (Node c l k' x' r') RIGHT f)
      | LEFT \<Rightarrow> (let (l', f) = remove_r l key' finished
                 in if f then (Node c l' k' x' r, f) else remove_balance (Node c l' k' x' r) LEFT f))"
proof (cases "k = key")
  case True
  then have "heir l k x = (k', x')" "key' = k'" using assms(2,3) by auto
  with True show ?thesis using assms(1)
    by (cases "remove_dir k' k'") (simp_all add: Let_def)
next
  case False
  then have eqs: "k' = k" "x' = x" "key' = key" using assms by auto
  show ?thesis unfolding eqs using False
    by (cases "remove_dir k key") (simp_all add: Let_def)
qed

definition removal_inv :: "'o rb \<Rightarrow> 'o rb \<Rightarrow> bool \<Rightarrow> bool" where
  "removal_inv t t' f \<longleftrightarrow>
     same_height t' \<and> no_red_red t' \<and> (\<not> IS_RED t \<longrightarrow> \<not> IS_RED t') \<and>
     (if f then black_height t' = black_height t
      else Suc (black_height t') = black_height t \<and> \<not> IS_RED t')"

lemma removal_inv_LEFT:
  assumes "same_height (Node c l k x r)" "no_red_red (Node c l k x r)" "removal_inv l l' g"
    and "(t', f) = (if g then (Node c l' k' x' r, g)
                    else remove_balance (Node c l' k' x' r) LEFT g)"
  shows "removal_inv (Node c l k x r) t' f"
proof (cases g)
  case True
  then show ?thesis using assms by (auto simp: removal_inv_def)
next
  case False
  then show ?thesis
    using remove_balance_inv_LEFT [of l' r c k' x' t' f] assms
    by (cases f; cases c) (auto simp: removal_inv_def)
qed

lemma removal_inv_RIGHT:
  assumes "same_height (Node c l k x r)" "no_red_red (Node c l k x r)" "removal_inv r r' g"
    and "(t', f) = (if g then (Node c l k' x' r', g)
                    else remove_balance (Node c l k' x' r') RIGHT g)"
  shows "removal_inv (Node c l k x r) t' f"
proof (cases g)
  case True
  then show ?thesis using assms by (auto simp: removal_inv_def)
next
  case False
  then show ?thesis
    using remove_balance_inv_RIGHT [of l r' c k' x' t' f] assms
    by (cases f; cases c) (auto simp: removal_inv_def)
qed

lemma remove_r_inv:
  "\<lbrakk>same_height t; no_red_red t; remove_r t key False = (t', f)\<rbrakk> \<Longrightarrow> removal_inv t t' f"
proof (induction t arbitrary: key t' f)
  case Tip
  then show ?case by (simp add: removal_inv_def)
next
  case (Node c l k x r)
  show ?case
  proof (cases "k = key \<and> (l = Tip \<or> r = Tip)")
    case True
    obtain saved where saved: "saved = (if l = Tip then r else l)" by simp
    have heights: "same_height saved" "no_red_red saved" "black_height saved = 1"
        "black_height l = 1" "c = RED \<Longrightarrow> \<not> IS_RED saved"
      using Node.prems(1,2) True by (auto simp: saved split: if_splits)
    have step: "(t', f) = (if c = RED then (saved, True)
            else if IS_RED saved then (set_color BLACK saved, True) else (saved, False))"
      unfolding saved using Node.prems(3) True
      by (simp only: remove_r.simps Let_def if_True simp_thms)
    consider "c = RED" | "c = BLACK" "IS_RED saved" | "c = BLACK" "\<not> IS_RED saved"
      by (cases c) auto
    then show ?thesis
    proof cases
      case 1
      then show ?thesis using step heights by (simp add: removal_inv_def)
    next
      case 2
      then show ?thesis using step heights
        by (auto simp: removal_inv_def elim!: IS_RED_obtain)
    next
      case 3
      then show ?thesis using step heights by (simp add: removal_inv_def)
    qed
  next
    case False
    obtain k' x' where kx: "(if k = key then heir l k x else (k, x)) = (k', x')" by force
    obtain key' where key': "(if k = key then k' else key) = key'" by simp
    note step = remove_r_branch [OF False kx key', of c False]
    show ?thesis
    proof (cases "remove_dir k' key'")
      case LEFT
      obtain l' g where l': "remove_r l key' False = (l', g)" by force
      then have "removal_inv l l' g"
        using Node.IH(1) Node.prems by simp
      moreover have "(t', f) = (if g then (Node c l' k' x' r, g)
                                else remove_balance (Node c l' k' x' r) LEFT g)"
        using Node.prems(3) step LEFT l' by simp
      ultimately show ?thesis
        by (rule removal_inv_LEFT [OF Node.prems(1,2)])
    next
      case RIGHT
      obtain r' g where r': "remove_r r key' False = (r', g)" by force
      then have "removal_inv r r' g"
        using Node.IH(2) Node.prems by simp
      moreover have "(t', f) = (if g then (Node c l k' x' r', g)
                                else remove_balance (Node c l k' x' r') RIGHT g)"
        using Node.prems(3) step RIGHT r' by simp
      ultimately show ?thesis
        by (rule removal_inv_RIGHT [OF Node.prems(1,2)])
    qed
  qed
qed

subsection \<open>The listing after a deletion\<close>

lemma remove_dir_small:
  "a < 2 ^ 32 \<Longrightarrow> remove_dir a b = (if a < b then RIGHT else LEFT)"
  by (simp add: remove_dir_def enum_cast_def)

lemma heir_max:
  "\<lbrakk>ordered l; l \<noteq> Tip; heir l k x = (k', x')\<rbrakk> \<Longrightarrow>
     (k', x') \<in> set (entries l) \<and> (\<forall>j\<in>set (keys l). j \<le> k')"
proof (induction l arbitrary: k x)
  case Tip
  then show ?case by simp
next
  case (Node c ll lk lx lr)
  show ?case
  proof (cases lr)
    case Tip
    then show ?thesis using Node.prems by (force simp: ordered_Node)
  next
    case (Node c2 l2 k2 x2 r2)
    then have "(k', x') \<in> set (entries lr) \<and> (\<forall>j\<in>set (keys lr). j \<le> k')"
      using Node.IH(2) Node.prems by (simp add: ordered_Node del: heir.simps(1))
    moreover from this have "lk < k'"
      using Node.prems(1) by (force simp: ordered_Node keys_def)
    ultimately show ?thesis using Node.prems(1) by (force simp: ordered_Node)
  qed
qed

lemma keys_entries: "(j, y) \<in> set (entries t) \<Longrightarrow> j \<in> set (keys t)"
  by (force simp: keys_def)

text \<open>
  What a removal may do to a listing: the order stays, nothing is invented and the removed key is
  gone.
\<close>

definition shrunk :: "'o rb \<Rightarrow> 'o rb \<Rightarrow> obl_set_key \<Rightarrow> bool" where
  "shrunk t t' key \<longleftrightarrow>
     ordered t' \<and> (\<forall>(j, y)\<in>set (entries t'). (j, y) \<in> set (entries t) \<and> j \<noteq> key)"

lemma shrunk_keys: "shrunk t t' key \<Longrightarrow> j \<in> set (keys t') \<Longrightarrow> j \<in> set (keys t) \<and> j \<noteq> key"
  by (force simp: shrunk_def keys_def)

lemma shrunk_balance:
  "shrunk t n key \<Longrightarrow> shrunk t (fst (remove_balance n dir f)) key"
  using remove_balance_shrinks [of n dir f] by (auto simp: shrunk_def)

lemma shrunk_LEFT:
  assumes "ordered (Node c l k x r)" "shrunk l l' key" "key < k"
  shows "shrunk (Node c l k x r) (Node c l' k x r) key"
  using assms shrunk_keys [OF assms(2)]
  by (fastforce simp: shrunk_def ordered_Node dest: keys_entries)

lemma shrunk_RIGHT:
  assumes "ordered (Node c l k x r)" "shrunk r r' key" "k < key"
  shows "shrunk (Node c l k x r) (Node c l k x r') key"
  using assms shrunk_keys [OF assms(2)]
  by (fastforce simp: shrunk_def ordered_Node dest: keys_entries)

lemma shrunk_heir:
  assumes "ordered (Node c l k x r)" "l \<noteq> Tip" "heir l k x = (k', x')" "shrunk l l' k'"
  shows "shrunk (Node c l k x r) (Node c l' k' x' r) k"
proof -
  have heir: "(k', x') \<in> set (entries l)" "\<forall>j\<in>set (keys l). j \<le> k'"
    using heir_max [OF _ assms(2,3)] assms(1) by (auto simp: ordered_Node)
  then have "k' < k" using assms(1) by (auto simp: ordered_Node dest: keys_entries)
  moreover have "\<forall>j\<in>set (keys l'). j < k'"
    using shrunk_keys [OF assms(4)] heir(2) by (metis le_neq_implies_less)
  ultimately show ?thesis using assms heir shrunk_keys [OF assms(4)]
    by (fastforce simp: shrunk_def ordered_Node dest: keys_entries)
qed

lemma remove_r_shrunk:
  "\<lbrakk>ordered t; \<forall>j\<in>set (keys t). j < 2 ^ 32\<rbrakk> \<Longrightarrow>
     shrunk t (fst (remove_r t key finished)) key"
proof (induction t arbitrary: key)
  case Tip
  then show ?case by (simp add: shrunk_def)
next
  case (Node c l k x r)
  have small: "k < 2 ^ 32" "\<forall>j\<in>set (keys l). j < 2 ^ 32" "\<forall>j\<in>set (keys r). j < 2 ^ 32"
    and ord: "ordered l" "ordered r"
    using Node.prems by (auto simp: ordered_Node)
  note IH = Node.IH(1)[OF ord(1) small(2)] Node.IH(2)[OF ord(2) small(3)]
  consider "k = key" "l = Tip \<or> r = Tip" | "k = key" "l \<noteq> Tip" "r \<noteq> Tip" | "key < k" | "k < key"
    by linarith
  then show ?case
  proof cases
    case 1
    then show ?thesis using Node.prems
      by (auto simp: shrunk_def ordered_Node Let_def dest: keys_entries)
  next
    case 2
    obtain k' x' where heir: "heir l k x = (k', x')" by force
    have "k' \<in> set (keys l)"
      using heir_max [OF ord(1) 2(2) heir] by (auto intro: keys_entries)
    then have dir: "remove_dir k' k' = LEFT" using small(2) by (simp add: remove_dir_small)
    obtain l' f where l': "remove_r l k' finished = (l', f)" by force
    have "shrunk (Node c l k x r) (Node c l' k' x' r) k"
      using shrunk_heir [OF Node.prems(1) 2(2) heir] IH(1)[of k'] l' by simp
    then show ?thesis using 2 heir dir l' shrunk_balance by (auto simp: Let_def)
  next
    case 3
    obtain l' f where l': "remove_r l key finished = (l', f)" by force
    have "shrunk (Node c l k x r) (Node c l' k x r) key"
      using shrunk_LEFT [OF Node.prems(1) _ 3] IH(1)[of key] l' by simp
    moreover have "remove_dir k key = LEFT" using 3 small(1) by (simp add: remove_dir_small)
    ultimately show ?thesis using 3 l' shrunk_balance by (auto simp: Let_def)
  next
    case 4
    obtain r' f where r': "remove_r r key finished = (r', f)" by force
    have "shrunk (Node c l k x r) (Node c l k x r') key"
      using shrunk_RIGHT [OF Node.prems(1) _ 4] IH(2)[of key] r' by simp
    moreover have "remove_dir k key = RIGHT" using 4 small(1) by (simp add: remove_dir_small)
    ultimately show ?thesis using 4 r' shrunk_balance by (auto simp: Let_def)
  qed
qed

subsection \<open>When a deletion keeps everything else\<close>

text \<open>
  The branch of \<open>remove_balance\<close> that rotates below a red sibling does not attach the rotated
  subtree to the new root. It runs when the nephew that replaces the sibling has a red child.
\<close>

definition drops_nodes :: "'o rb \<Rightarrow> direction \<Rightarrow> bool" where
  "drops_nodes n dir \<longleftrightarrow>
     IS_RED (sibling n dir) \<and>
     (IS_RED (child LEFT (child dir (sibling n dir))) \<or>
      IS_RED (child RIGHT (child dir (sibling n dir))))"

fun removal_safe :: "'o rb \<Rightarrow> obl_set_key \<Rightarrow> bool" where
  "removal_safe Tip key = True"
| "removal_safe (Node c l k x r) key =
     (if k = key \<and> (l = Tip \<or> r = Tip) then True
      else if k = key then
        \<not> drops_nodes (Node c l k x r) LEFT \<and> removal_safe l (fst (heir l k x))
      else if k < key then \<not> drops_nodes (Node c l k x r) RIGHT \<and> removal_safe r key
      else \<not> drops_nodes (Node c l k x r) LEFT \<and> removal_safe l key)"

lemma drops_nodes_simps [simp]:
  "drops_nodes (Node c l k x r) LEFT \<longleftrightarrow>
     IS_RED r \<and> (IS_RED (child LEFT (child LEFT r)) \<or> IS_RED (child RIGHT (child LEFT r)))"
  "drops_nodes (Node c l k x r) RIGHT \<longleftrightarrow>
     IS_RED l \<and> (IS_RED (child LEFT (child RIGHT l)) \<or> IS_RED (child RIGHT (child RIGHT l)))"
  by (simp_all add: drops_nodes_def)

lemma entries_remove_balance:
  assumes "\<not> drops_nodes n dir"
  shows "entries (fst (remove_balance n dir f)) = entries n"
proof (cases "IS_RED (sibling n dir)")
  case False
  then show ?thesis by (rule entries_remove_balance_black)
next
  case True
  then obtain c l k x r where n: "n = Node c l k x r"
    by (cases n) auto
  show ?thesis
  proof (cases dir)
    case LEFT
    with True n obtain rl rk rx rr where r: "r = Node RED rl rk rx rr"
      by (auto elim: IS_RED_obtain)
    show ?thesis using assms unfolding n r LEFT
      by (cases rl) (auto simp: remove_balance_def rotate_single_def Let_def)
  next
    case RIGHT
    with True n obtain ll lk lx lr where l: "l = Node RED ll lk lx lr"
      by (auto elim: IS_RED_obtain)
    show ?thesis using assms unfolding n l RIGHT
      by (cases lr) (auto simp: remove_balance_def rotate_single_def Let_def)
  qed
qed

lemma filter_other_keys:
  "key \<notin> set (keys t) \<Longrightarrow> filter (\<lambda>e. fst e \<noteq> key) (entries t) = entries t"
  by (auto simp: filter_id_conv keys_def)

lemma entries_heir:
  "\<lbrakk>ordered l; l \<noteq> Tip; heir l k x = (k', x')\<rbrakk> \<Longrightarrow>
     entries l = filter (\<lambda>e. fst e \<noteq> k') (entries l) @ [(k', x')]"
proof (induction l arbitrary: k x)
  case Tip
  then show ?case by simp
next
  case (Node c ll lk lx lr)
  show ?case
  proof (cases "lr = Tip")
    case True
    then have "k' = lk" "x' = lx" "lk \<notin> set (keys ll)"
      using Node.prems by (auto simp: ordered_Node)
    then show ?thesis using True by (simp add: filter_other_keys)
  next
    case False
    then have IH: "entries lr = filter (\<lambda>e. fst e \<noteq> k') (entries lr) @ [(k', x')]"
      and "k' \<in> set (keys lr)"
      using Node.IH(2) Node.prems heir_max [of lr lk lx k' x']
      by (auto simp: ordered_Node intro: keys_entries)
    then have "k' \<notin> set (keys ll)" "k' \<noteq> lk"
      using Node.prems(1) by (fastforce simp: ordered_Node)+
    then show ?thesis using IH by (simp add: filter_other_keys)
  qed
qed

lemma removed_LEFT:
  "\<lbrakk>ordered (Node c l k x r); key < k; entries l' = filter (\<lambda>e. fst e \<noteq> key) (entries l)\<rbrakk> \<Longrightarrow>
     entries (Node c l' k x r) = filter (\<lambda>e. fst e \<noteq> key) (entries (Node c l k x r))"
  by (subst entries.simps, subst filter_other_keys [of key r, symmetric])
    (auto simp: ordered_Node)

lemma removed_RIGHT:
  "\<lbrakk>ordered (Node c l k x r); k < key; entries r' = filter (\<lambda>e. fst e \<noteq> key) (entries r)\<rbrakk> \<Longrightarrow>
     entries (Node c l k x r') = filter (\<lambda>e. fst e \<noteq> key) (entries (Node c l k x r))"
  by (subst entries.simps, subst filter_other_keys [of key l, symmetric])
    (auto simp: ordered_Node)

lemma removed_here:
  assumes "ordered (Node c l k x r)"
  shows "filter (\<lambda>e. fst e \<noteq> k) (entries (Node c l k x r)) = entries l @ entries r"
proof -
  have "k \<notin> set (keys l)" "k \<notin> set (keys r)" using assms by (auto simp: ordered_Node)
  then show ?thesis by (simp add: filter_other_keys)
qed

lemma entries_remove_r:
  "\<lbrakk>ordered t; \<forall>j\<in>set (keys t). j < 2 ^ 32; removal_safe t key\<rbrakk> \<Longrightarrow>
     entries (fst (remove_r t key finished)) = filter (\<lambda>e. fst e \<noteq> key) (entries t)"
proof (induction t arbitrary: key)
  case Tip
  then show ?case by simp
next
  case (Node c l k x r)
  have small: "k < 2 ^ 32" "\<forall>j\<in>set (keys l). j < 2 ^ 32" "\<forall>j\<in>set (keys r). j < 2 ^ 32"
    and ord: "ordered l" "ordered r"
    using Node.prems by (auto simp: ordered_Node)
  note IH = Node.IH(1)[OF ord(1) small(2)] Node.IH(2)[OF ord(2) small(3)]
  consider "k = key" "l = Tip \<or> r = Tip" | "k = key" "l \<noteq> Tip" "r \<noteq> Tip" | "key < k" | "k < key"
    by linarith
  then show ?case
  proof cases
    case 1
    then show ?thesis using removed_here [OF Node.prems(1)] by (auto simp: Let_def)
  next
    case 2
    obtain k' x' where heir: "heir l k x = (k', x')" by force
    have "k' \<in> set (keys l)"
      using heir_max [OF ord(1) 2(2) heir] by (auto intro: keys_entries)
    then have dir: "remove_dir k' k' = LEFT" using small(2) by (simp add: remove_dir_small)
    obtain l' f where l': "remove_r l k' finished = (l', f)" by force
    have safe: "\<not> drops_nodes (Node c l' k' x' r) LEFT" "removal_safe l k'"
      using Node.prems(3) 2 heir by simp_all
    then have "entries (Node c l' k' x' r) = entries l @ entries r"
      using IH(1)[of k'] l' entries_heir [OF ord(1) 2(2) heir] by simp
    then show ?thesis
      using 2 heir dir l' removed_here [OF Node.prems(1)] entries_remove_balance [OF safe(1)]
      by (simp add: Let_def)
  next
    case 3
    obtain l' f where l': "remove_r l key finished = (l', f)" by force
    have safe: "\<not> drops_nodes (Node c l' k x r) LEFT" "removal_safe l key"
      using Node.prems(3) 3 by simp_all
    have dir: "remove_dir k key = LEFT" using 3 small(1) by (simp add: remove_dir_small)
    have "entries (Node c l' k x r) = filter (\<lambda>e. fst e \<noteq> key) (entries (Node c l k x r))"
      by (rule removed_LEFT [OF Node.prems(1) 3]) (use IH(1)[OF safe(2)] l' in simp)
    then show ?thesis using 3 l' dir entries_remove_balance [OF safe(1)]
      by (simp add: Let_def del: entries.simps)
  next
    case 4
    obtain r' f where r': "remove_r r key finished = (r', f)" by force
    have safe: "\<not> drops_nodes (Node c l k x r') RIGHT" "removal_safe r key"
      using Node.prems(3) 4 by simp_all
    have dir: "remove_dir k key = RIGHT" using 4 small(1) by (simp add: remove_dir_small)
    have "entries (Node c l k x r') = filter (\<lambda>e. fst e \<noteq> key) (entries (Node c l k x r))"
      by (rule removed_RIGHT [OF Node.prems(1) 4]) (use IH(2)[OF safe(2)] r' in simp)
    then show ?thesis using 4 r' dir entries_remove_balance [OF safe(1)]
      by (simp add: Let_def del: entries.simps)
  qed
qed

subsection \<open>When a deletion loses objects\<close>

lemma length_remove_balance:
  "if drops_nodes n dir then length (entries (fst (remove_balance n dir f))) < length (entries n)
   else entries (fst (remove_balance n dir f)) = entries n"
proof (cases "drops_nodes n dir")
  case False
  then show ?thesis by (simp add: entries_remove_balance)
next
  case True
  then obtain c l k x r where n: "n = Node c l k x r"
    by (cases n) (auto simp: drops_nodes_def)
  show ?thesis
  proof (cases dir)
    case LEFT
    with True n obtain rl rk rx rr where r: "r = Node RED rl rk rx rr"
      by (auto elim: IS_RED_obtain)
    show ?thesis using True unfolding n r LEFT
      by (cases rl; cases "IS_RED (child LEFT rl)"; cases "IS_RED (child RIGHT rl)")
        (auto simp: remove_balance_def rotate_single_def rotate_double_def Let_def
          elim!: IS_RED_obtain)
  next
    case RIGHT
    with True n obtain ll lk lx lr where l: "l = Node RED ll lk lx lr"
      by (auto elim: IS_RED_obtain)
    show ?thesis using True unfolding n l RIGHT
      by (cases lr; cases "IS_RED (child LEFT lr)"; cases "IS_RED (child RIGHT lr)")
        (auto simp: remove_balance_def rotate_single_def rotate_double_def Let_def
          elim!: IS_RED_obtain)
  qed
qed

text \<open>
  The removals that lose objects: on the way back from the removed node, a step that still has to
  rebalance meets the shape above.
\<close>

fun removal_drops :: "'o rb \<Rightarrow> obl_set_key \<Rightarrow> bool" where
  "removal_drops Tip key = False"
| "removal_drops (Node c l k x r) key =
     (if k = key \<and> (l = Tip \<or> r = Tip) then False
      else if k < key then
        removal_drops r key \<or> \<not> snd (remove_r r key False) \<and> drops_nodes (Node c l k x r) RIGHT
      else
        (let key' = (if k = key then fst (heir l k x) else key)
         in removal_drops l key' \<or>
            \<not> snd (remove_r l key' False) \<and> drops_nodes (Node c l k x r) LEFT))"

text \<open>What a removal leaves of a listing: everything but the key, or less than that.\<close>

definition removal_outcome :: "'o rb \<Rightarrow> 'o rb \<Rightarrow> obl_set_key \<Rightarrow> bool \<Rightarrow> bool" where
  "removal_outcome t t' key lossy \<longleftrightarrow>
     (if lossy then length (entries t') < length (filter (\<lambda>e. fst e \<noteq> key) (entries t))
      else entries t' = filter (\<lambda>e. fst e \<noteq> key) (entries t))"

lemma removal_outcome_balance:
  assumes "removal_outcome t n key lossy"
  shows "removal_outcome t (fst (if f then (n, f) else remove_balance n dir f)) key
     (lossy \<or> \<not> f \<and> drops_nodes n dir)"
  using assms length_remove_balance [of n dir f]
  by (cases f; cases "drops_nodes n dir"; cases lossy) (auto simp: removal_outcome_def)

lemma removal_outcome_LEFT:
  assumes "ordered (Node c l k x r)" "key < k" "removal_outcome l l' key lossy"
  shows "removal_outcome (Node c l k x r) (Node c l' k x r) key lossy"
proof -
  have "key \<notin> set (keys r)" using assms(1,2) by (auto simp: ordered_Node)
  then show ?thesis using assms(2,3)
    by (cases lossy) (simp_all add: removal_outcome_def filter_other_keys)
qed

lemma removal_outcome_RIGHT:
  assumes "ordered (Node c l k x r)" "k < key" "removal_outcome r r' key lossy"
  shows "removal_outcome (Node c l k x r) (Node c l k x r') key lossy"
proof -
  have "key \<notin> set (keys l)" using assms(1,2) by (auto simp: ordered_Node)
  then show ?thesis using assms(2,3)
    by (cases lossy) (simp_all add: removal_outcome_def filter_other_keys)
qed

lemma removal_outcome_heir:
  assumes "ordered (Node c l k x r)" "l \<noteq> Tip" "heir l k x = (k', x')"
    and "removal_outcome l l' k' lossy"
  shows "removal_outcome (Node c l k x r) (Node c l' k' x' r) k lossy"
proof -
  let ?rest = "filter (\<lambda>e. fst e \<noteq> k') (entries l)"
  have "ordered l" using assms(1) by (auto simp: ordered_Node)
  then have l: "entries l = ?rest @ [(k', x')]" by (rule entries_heir [OF _ assms(2,3)])
  then have len: "length (entries l) = Suc (length ?rest)"
    by (metis length_append_singleton)
  show ?thesis
  proof (cases lossy)
    case True
    then show ?thesis using assms(4) removed_here [OF assms(1)] len
      by (simp add: removal_outcome_def)
  next
    case False
    then show ?thesis using assms(4) removed_here [OF assms(1)] l
      by (simp add: removal_outcome_def)
  qed
qed

lemma remove_r_outcome:
  "\<lbrakk>ordered t; \<forall>j\<in>set (keys t). j < 2 ^ 32\<rbrakk> \<Longrightarrow>
     removal_outcome t (fst (remove_r t key False)) key (removal_drops t key)"
proof (induction t arbitrary: key)
  case Tip
  then show ?case by (simp add: removal_outcome_def)
next
  case (Node c l k x r)
  have small: "k < 2 ^ 32" "\<forall>j\<in>set (keys l). j < 2 ^ 32" "\<forall>j\<in>set (keys r). j < 2 ^ 32"
    and ord: "ordered l" "ordered r"
    using Node.prems by (auto simp: ordered_Node)
  note IH = Node.IH(1)[OF ord(1) small(2)] Node.IH(2)[OF ord(2) small(3)]
  consider "k = key" "l = Tip \<or> r = Tip" | "k = key" "l \<noteq> Tip" "r \<noteq> Tip" | "key < k" | "k < key"
    by linarith
  then show ?case
  proof cases
    case 1
    then show ?thesis using removed_here [OF Node.prems(1)]
      by (auto simp: removal_outcome_def Let_def)
  next
    case 2
    obtain k' x' where heir: "heir l k x = (k', x')" by force
    have "k' \<in> set (keys l)"
      using heir_max [OF ord(1) 2(2) heir] by (auto intro: keys_entries)
    then have dir: "remove_dir k' k' = LEFT" using small(2) by (simp add: remove_dir_small)
    obtain l' f where l': "remove_r l k' False = (l', f)" by force
    have "removal_outcome (Node c l k x r) (Node c l' k' x' r) k (removal_drops l k')"
      using removal_outcome_heir [OF Node.prems(1) 2(2) heir] IH(1) [of k'] l' by simp
    from removal_outcome_balance [OF this, of f LEFT] show ?thesis
      using 2 heir dir l' by (simp add: Let_def)
  next
    case 3
    obtain l' f where l': "remove_r l key False = (l', f)" by force
    have dir: "remove_dir k key = LEFT" using 3 small(1) by (simp add: remove_dir_small)
    have "removal_outcome (Node c l k x r) (Node c l' k x r) key (removal_drops l key)"
      using removal_outcome_LEFT [OF Node.prems(1) 3] IH(1) [of key] l' by simp
    from removal_outcome_balance [OF this, of f LEFT] show ?thesis
      using 3 dir l' by (simp add: Let_def)
  next
    case 4
    obtain r' f where r': "remove_r r key False = (r', f)" by force
    have dir: "remove_dir k key = RIGHT" using 4 small(1) by (simp add: remove_dir_small)
    have "removal_outcome (Node c l k x r) (Node c l k x r') key (removal_drops r key)"
      using removal_outcome_RIGHT [OF Node.prems(1) 4] IH(2) [of key] r' by simp
    from removal_outcome_balance [OF this, of f RIGHT] show ?thesis
      using 4 dir r' by (simp add: Let_def)
  qed
qed

lemma rb_valid_set_remove:
  assumes "rb_valid t" "\<forall>j\<in>set (keys t). j < 2 ^ 32"
  shows "rb_valid (set_remove t key)"
proof -
  obtain t' f where t': "remove_r t key False = (t', f)" by force
  have "removal_inv t t' f"
    using remove_r_inv [OF _ _ t'] assms(1) by (simp add: rb_valid_def)
  moreover have "shrunk t t' key"
    using remove_r_shrunk [of t key False] assms t' by (simp add: rb_valid_def)
  ultimately show ?thesis using assms(1) t'
    by (auto simp: rb_valid_def set_remove_def removal_inv_def shrunk_def)
qed

section \<open>The structural check\<close>

lemma verify_r_valid:
  "\<lbrakk>ordered t; same_height t; no_red_red t\<rbrakk> \<Longrightarrow> verify_r t = black_height t"
proof (induction t)
  case Tip
  then show ?case by simp
next
  case (Node c l k x r)
  have "\<not> (case l of Tip \<Rightarrow> False | Node _ _ kl _ _ \<Rightarrow> k \<le> kl)"
       "\<not> (case r of Tip \<Rightarrow> False | Node _ _ kr _ _ \<Rightarrow> kr \<le> k)"
    using Node.prems(1) by (cases l, auto simp: ordered_Node) (cases r, auto simp: ordered_Node)
  moreover have "verify_r l = black_height l" "verify_r r = black_height r"
    using Node by (auto simp: ordered_Node)
  ultimately show ?case using Node.prems by (auto simp: Let_def)
qed

lemma verify_r_Node_nonzero:
  assumes "verify_r (Node c l k x r) \<noteq> 0"
  shows "\<not> (c = RED \<and> (IS_RED l \<or> IS_RED r)) \<and> verify_r l \<noteq> 0 \<and> verify_r r = verify_r l \<and>
    verify_r (Node c l k x r) = (if c = BLACK then verify_r l + 1 else verify_r l)"
proof -
  define wrong where "wrong \<longleftrightarrow> (case l of Tip \<Rightarrow> False | Node _ _ kl _ _ \<Rightarrow> kl \<ge> k) \<or>
              (case r of Tip \<Rightarrow> False | Node _ _ kr _ _ \<Rightarrow> kr \<le> k)"
  define reds where "reds \<longleftrightarrow> c = RED \<and> (IS_RED l \<or> IS_RED r)"
  show ?thesis
    using assms unfolding verify_r.simps wrong_def [symmetric] reds_def [symmetric] Let_def
    by (simp split: if_split_asm)
qed

lemma verify_r_sound:
  "verify_r t \<noteq> 0 \<Longrightarrow> same_height t \<and> no_red_red t \<and> verify_r t = black_height t"
proof (induction t)
  case (Node c l k x r)
  then show ?case using verify_r_Node_nonzero [of c l k x r]
    by (auto simp del: verify_r.simps)
qed simp

end
