(* ===== verification/ObjectSet.thy ===== *)
theory ObjectSet
  imports RBCorrect
begin

text \<open>
  What the users of \<open>obl/set.c\<close> rely on: the depth of a valid tree, the contract \<open>object_set\<close> and
  its extension \<open>removable_object_set\<close> with their client lemmas, the interpretation of both on the
  tree keyed by logical addresses, and the properties of the set.
\<close>

section \<open>Depth\<close>

fun tree_depth :: "'o rb \<Rightarrow> nat" where
  "tree_depth Tip = 0"
| "tree_depth (Node c l k x r) = Suc (max (tree_depth l) (tree_depth r))"

lemma black_height_size: "same_height t \<Longrightarrow> 2 ^ black_height t \<le> 2 * (length (entries t) + 1)"
  by (induction t) (auto simp: algebra_simps)

lemma depth_black_height:
  "\<lbrakk>same_height t; no_red_red t\<rbrakk> \<Longrightarrow>
     tree_depth t + 2 \<le> 2 * black_height t + (if IS_RED t then 1 else 0)"
  by (induction t) (auto split: if_split_asm)

lemma valid_tree_depth:
  assumes "rb_valid t"
  shows "2 ^ tree_depth t \<le> (length (entries t) + 1) ^ 2"
proof -
  have "tree_depth t + 2 \<le> 2 * black_height t"
    using depth_black_height [of t] assms by (simp add: rb_valid_def)
  then have "2 ^ (tree_depth t + 2) \<le> (2 :: nat) ^ (2 * black_height t)"
    by (rule power_increasing) simp
  also have "\<dots> = (2 ^ black_height t) ^ 2"
    by (simp add: power_mult mult.commute)
  also have "\<dots> \<le> (2 * (length (entries t) + 1)) ^ 2"
    by (rule power_mono) (use black_height_size assms in \<open>auto simp: rb_valid_def\<close>)
  finally show ?thesis by (simp add: power2_eq_square)
qed

section \<open>The contract of an object set\<close>

text \<open>
  Sessions and transactions use a set through insertion and lookup by a machine word. The contract
  states what they may rely on. Its client lemma describes the lookup after any sequence of
  insertions: the last object inserted under a key is the one that is found.
\<close>

locale object_set =
  fixes empty :: 's
    and ins :: "'k \<Rightarrow> 'o \<Rightarrow> 's \<Rightarrow> 's"
    and look :: "'s \<Rightarrow> 'k \<Rightarrow> 'o option"
    and good :: "'s \<Rightarrow> bool"
  assumes good_empty: "good empty"
    and good_ins: "good s \<Longrightarrow> good (ins k x s)"
    and look_empty: "look empty k = None"
    and look_ins: "good s \<Longrightarrow> look (ins k x s) j = (if j = k then Some x else look s j)"
begin

definition ins_all :: "('k \<times> 'o) list \<Rightarrow> 's \<Rightarrow> 's" where
  "ins_all ps = fold (\<lambda>(k, x). ins k x) ps"

lemma good_ins_all: "good s \<Longrightarrow> good (ins_all ps s)"
  by (induction ps arbitrary: s) (auto simp: ins_all_def good_ins)

lemma look_ins_all:
  "good s \<Longrightarrow> look (ins_all ps s) j = (case map_of (rev ps) j of None \<Rightarrow> look s j | Some x \<Rightarrow> Some x)"
proof (induction ps arbitrary: s)
  case Nil
  then show ?case by (simp add: ins_all_def)
next
  case (Cons p ps)
  obtain k x where p: "p = (k, x)" by force
  have "look (ins_all (p # ps) s) j = look (ins_all ps (ins k x s)) j"
    by (simp add: ins_all_def p)
  with Cons show ?case
    by (auto simp: p good_ins look_ins map_add_def split: option.splits)
qed

lemma look_built: "look (ins_all ps empty) j = map_of (rev ps) j"
  by (simp add: look_ins_all good_empty look_empty split: option.split)

lemma look_ins_again: "good s \<Longrightarrow> look (ins k y (ins k x s)) j = look (ins k y s) j"
  by (simp add: good_ins look_ins)

lemma look_ins_swap:
  "\<lbrakk>good s; k \<noteq> j\<rbrakk> \<Longrightarrow> look (ins k x (ins j y s)) i = look (ins j y (ins k x s)) i"
  by (auto simp: good_ins look_ins)

end

text \<open>A set that also forgets objects: removal never invents an object and drops the given key.\<close>

locale removable_object_set = object_set empty ins look good
  for empty :: 's and ins :: "'k \<Rightarrow> 'o \<Rightarrow> 's \<Rightarrow> 's" and look and good +
  fixes rem :: "'k \<Rightarrow> 's \<Rightarrow> 's"
  assumes good_rem: "good s \<Longrightarrow> good (rem k s)"
    and look_rem_same: "good s \<Longrightarrow> look (rem k s) k = None"
    and look_rem_only: "\<lbrakk>good s; look (rem k s) j = Some x\<rbrakk> \<Longrightarrow> look s j = Some x"
begin

lemma look_rem_ins: "good s \<Longrightarrow> look (rem k (ins k x s)) k = None"
  by (simp add: look_rem_same good_ins)

text \<open>Any sequence of insertions and removals; an edit without an object removes its key.\<close>

definition edit_all :: "('k \<times> 'o option) list \<Rightarrow> 's \<Rightarrow> 's" where
  "edit_all edits =
     fold (\<lambda>(k, e) s. case e of Some x \<Rightarrow> ins k x s | None \<Rightarrow> rem k s) edits"

lemma good_edits: "good s \<Longrightarrow> good (edit_all edits s)"
  by (induction edits arbitrary: s)
    (auto simp: edit_all_def good_ins good_rem split: option.split)

lemma look_after_rems:
  "\<lbrakk>good s; look (fold rem ks s) j = Some x\<rbrakk> \<Longrightarrow> look s j = Some x \<and> j \<notin> set ks"
proof (induction ks arbitrary: s)
  case (Cons k ks)
  then have "look (rem k s) j = Some x" "j \<notin> set ks"
    using good_rem by auto
  then show ?case using Cons.prems(1) look_rem_only [of s k j x] look_rem_same [of s k] by auto
qed simp

end

text \<open>The sets of \<open>obl/set.c\<close> under \<open>logical_address_keyfunction\<close>.\<close>

definition address_insert :: "obl_logical_address \<Rightarrow> 'o \<Rightarrow> 'o rb \<Rightarrow> 'o rb" where
  "address_insert a x t = fst (set_insert t (unat a) x)"

definition address_lookup :: "'o rb \<Rightarrow> obl_logical_address \<Rightarrow> 'o option" where
  "address_lookup t a = lookup_r t (unat a)"

definition address_remove :: "obl_logical_address \<Rightarrow> 'o rb \<Rightarrow> 'o rb" where
  "address_remove a t = set_remove t (unat a)"

definition address_valid :: "'o rb \<Rightarrow> bool" where
  "address_valid t \<longleftrightarrow> rb_valid t \<and> (\<forall>j\<in>set (keys t). j < 2 ^ 32)"

lemma unat_address_less [simp]: "unat (a :: obl_logical_address) < 4294967296"
  using unsigned_less [of a] by simp

lemma lookup_set_insert:
  "ordered t \<Longrightarrow> lookup_r (fst (set_insert t k x)) j = (if j = k then Some x else lookup_r t j)"
  using sorted_insert_entry [of "entries t" k x]
  by (simp add: lookup_r_entries entries_set_insert ordered_def keys_def map_of_insert_entry)

lemma ordered_unique:
  "ordered t \<Longrightarrow> (k, x) \<in> set (entries t) \<longleftrightarrow> lookup_r t k = Some x"
  by (simp add: lookup_r_entries ordered_def keys_def strict_sorted_iff)

lemma set_remove_shrunk:
  "address_valid t \<Longrightarrow> shrunk t (set_remove t k) k"
  using remove_r_shrunk [of t k False] by (auto simp: address_valid_def rb_valid_def set_remove_def)

lemma shrunk_lookup:
  assumes "shrunk t t' k"
  shows "lookup_r t' k = None"
proof -
  have "k \<notin> set (keys t')" using shrunk_keys [OF assms] by blast
  then show ?thesis using assms by (simp add: shrunk_def lookup_r_entries map_of_entries_None)
qed

interpretation session_set: removable_object_set Tip address_insert address_lookup address_valid
    address_remove
proof unfold_locales
  show "address_valid Tip"
    by (simp add: address_valid_def rb_valid_def)
next
  fix s :: "'a rb" and k x assume "address_valid s"
  then show "address_valid (address_insert k x s)"
    by (auto simp: address_valid_def address_insert_def rb_valid_set_insert keys_set_insert
        rb_valid_def [of s])
next
  fix k show "address_lookup Tip k = None"
    by (simp add: address_lookup_def)
next
  fix s :: "'a rb" and k x j assume "address_valid s"
  then show "address_lookup (address_insert k x s) j =
      (if j = k then Some x else address_lookup s j)"
    by (auto simp: address_valid_def rb_valid_def address_lookup_def address_insert_def
        lookup_set_insert)
next
  fix s :: "'a rb" and k assume s: "address_valid s"
  then have "shrunk s (address_remove k s) (unat k)"
    by (simp add: address_remove_def set_remove_shrunk)
  with s show "address_valid (address_remove k s)"
    using rb_valid_set_remove [of s "unat k"] shrunk_keys [of s _ "unat k"]
    by (auto simp: address_valid_def address_remove_def)
next
  fix s :: "'a rb" and k assume s: "address_valid s"
  then have "shrunk s (address_remove k s) (unat k)"
    by (simp add: address_remove_def set_remove_shrunk)
  then show "address_lookup (address_remove k s) k = None"
    by (simp add: address_lookup_def shrunk_lookup)
next
  fix s :: "'a rb" and k j x
  assume s: "address_valid s" and found: "address_lookup (address_remove k s) j = Some x"
  then have "shrunk s (address_remove k s) (unat k)"
    by (simp add: address_remove_def set_remove_shrunk)
  with s found show "address_lookup s j = Some x"
    by (auto simp: address_lookup_def shrunk_def address_valid_def rb_valid_def
        simp flip: ordered_unique)
qed


section \<open>Properties\<close>

text \<open>A builder for the examples: insert keys one after the other, each with itself as object.\<close>

definition build :: "nat list \<Rightarrow> nat rb" where
  "build ks = fold (\<lambda>k t. fst (set_insert t k k)) ks Tip"

lemmas set_exec = build_def set_insert_def set_remove_def insert_balance_def remove_balance_def
  rotate_single_def rotate_double_def remove_dir_def enum_cast_def Let_def

text \<open>
  C1: Inserting an object keeps the set a valid red-black tree (ordered, equal black heights, no red
  node with a red child, black root), and its in-order listing is the old one with the entry
  inserted at its place, or replaced when the key was present.
\<close>

theorem set_insert_correct:
  assumes "rb_valid t"
  shows "rb_valid (fst (set_insert t k x)) \<and>
         entries (fst (set_insert t k x)) = insert_entry k x (entries t) \<and>
         snd (set_insert t k x) = lookup_r t k"
  using assms rb_valid_set_insert [of t k x] entries_set_insert [of t k x] insert_r_replaced [of t k x]
  by (simp add: rb_valid_def set_insert_def case_prod_beta)

lemma set_insert_correct_witness:
  "rb_valid (fst (set_insert (build [10, 20]) 30 30)) \<and>
   entries (fst (set_insert (build [10, 20]) 30 30)) = [(10, 10), (20, 20), (30, 30)]"
proof -
  have "rb_valid (build [10, 20])"
    by (simp add: set_exec rb_valid_def ordered_def keys_def)
  from set_insert_correct [OF this, of 30 30] show ?thesis
    by (simp add: set_exec)
qed

text \<open>
  C25: After any sequence of insertions into an empty set, keyed by logical address, a lookup finds
  the object inserted last under that address, and nothing where none was inserted.
\<close>

theorem set_lookup_after_inserts:
  "lookup_r (fold (\<lambda>(a, x) t. fst (set_insert t (unat (a :: obl_logical_address)) x)) ps Tip) (unat b)
     = map_of (rev ps) b"
  using session_set.look_built [of ps b]
  unfolding session_set.ins_all_def address_lookup_def
  unfolding address_insert_def [abs_def] .

text \<open>
  C2: Removing a key from a valid tree gives a valid tree (when the keys fit the 32 bits of the
  direction cast). The key is gone, and every entry left was an entry before.
\<close>

theorem set_remove_valid:
  assumes "rb_valid t" "\<forall>j\<in>set (keys t). j < 2 ^ 32"
  shows "rb_valid (set_remove t k) \<and> lookup_r (set_remove t k) k = None \<and>
         (\<forall>e\<in>set (entries (set_remove t k)). e \<in> set (entries t) \<and> fst e \<noteq> k)"
proof -
  have "shrunk t (set_remove t k) k"
    using set_remove_shrunk [of t k] assms by (simp add: address_valid_def)
  then show ?thesis
    using rb_valid_set_remove [OF assms] shrunk_lookup
    by (auto simp: shrunk_def)
qed

lemma set_remove_valid_witness:
  "rb_valid (set_remove (build [10, 20, 30, 40]) 20) \<and>
   lookup_r (set_remove (build [10, 20, 30, 40]) 20) 20 = None"
proof -
  have "rb_valid (build [10, 20, 30, 40])" "\<forall>j\<in>set (keys (build [10, 20, 30, 40])). j < 2 ^ 32"
    by (simp_all add: set_exec rb_valid_def ordered_def keys_def)
  from set_remove_valid [OF this, of 20] show ?thesis by simp
qed



text \<open>
  C4: Removal loses objects exactly when a step that still has to rebalance meets a red sibling
  whose near child has a red child (\<open>remove_balance\<close> then does not attach the tree that it rotated):
  in that case fewer entries are left than the tree had under other keys, while the structural
  check still accepts the tree; in every other case precisely the entry of the key is gone.
\<close>

theorem set_remove_loses_objects:
  assumes "rb_valid t" "\<forall>j\<in>set (keys t). j < 2 ^ 32"
  shows "if removal_drops t k
     then length (entries (set_remove t k)) < length (filter (\<lambda>e. fst e \<noteq> k) (entries t)) \<and>
          verify_r (set_remove t k) \<noteq> 0
     else entries (set_remove t k) = filter (\<lambda>e. fst e \<noteq> k) (entries t)"
proof -
  have "rb_valid (set_remove t k)" by (rule rb_valid_set_remove [OF assms])
  then have "verify_r (set_remove t k) \<noteq> 0"
    using verify_r_valid [of "set_remove t k"] by (simp add: rb_valid_def)
  moreover have "removal_outcome t (set_remove t k) k (removal_drops t k)"
    using remove_r_outcome [of t k] assms by (simp add: set_remove_def rb_valid_def)
  ultimately show ?thesis by (simp add: removal_outcome_def)
qed

lemma set_remove_loses_objects_witness:
  "rb_valid (build [10, 20, 30, 40, 50, 60, 25]) \<and>
   removal_drops (build [10, 20, 30, 40, 50, 60, 25]) 10 \<and>
   length (entries (set_remove (build [10, 20, 30, 40, 50, 60, 25]) 10)) < 6 \<and>
   keys (set_remove (build [10, 20, 30, 40, 50, 60, 25]) 10) = [20, 40, 50, 60]"
proof -
  let ?t = "build [10, 20, 30, 40, 50, 60, 25]"
  have valid: "rb_valid ?t" "\<forall>j\<in>set (keys ?t). j < 2 ^ 32"
    by (simp_all add: set_exec rb_valid_def ordered_def keys_def)
  moreover have drops: "removal_drops ?t 10" by (simp add: set_exec)
  moreover have "length (filter (\<lambda>e. fst e \<noteq> 10) (entries ?t)) = 6" by (simp add: set_exec)
  moreover have "keys (set_remove ?t 10) = [20, 40, 50, 60]" by (simp add: set_exec)
  ultimately show ?thesis using set_remove_loses_objects [OF valid, of 10] by simp
qed

text \<open>
  C28: The structural check accepts every valid tree, with its black height. A tree it accepts has
  equal black heights on every path and no red node with a red child. (\<open>set.h\<close> documents the answers
  of \<open>obl_set_verify\<close> as 1 for a valid and 0 for an invalid set: a caller has to compare with 0.)
\<close>

theorem verify_r_correct:
  "(rb_valid t \<longrightarrow> verify_r t = black_height t \<and> verify_r t \<noteq> 0) \<and>
   (verify_r t \<noteq> 0 \<longrightarrow> same_height t \<and> no_red_red t)"
proof (intro conjI impI)
  assume "rb_valid t"
  then show "verify_r t = black_height t" and "verify_r t \<noteq> 0"
    using verify_r_valid [of t] by (simp_all add: rb_valid_def)
next
  assume "verify_r t \<noteq> 0"
  then show "same_height t" and "no_red_red t"
    using verify_r_sound [of t] by blast+
qed

lemma verify_r_correct_witness:
  "rb_valid (build [1, 2, 3]) \<and> verify_r (build [1, 2, 3]) = 2"
proof -
  have "rb_valid (build [1, 2, 3])"
    by (simp add: set_exec rb_valid_def ordered_def keys_def)
  moreover have "verify_r (build [1, 2, 3]) = black_height (build [1, 2, 3])"
    using verify_r_correct [of "build [1, 2, 3]"] calculation by blast
  ultimately show ?thesis by (simp add: set_exec)
qed

text \<open>
  C29: Whatever insertions and removals (keyed by logical addresses) built a set, the tree that
  \<open>set_insert\<close> and \<open>set_remove\<close> leave is balanced: its depth, the longest way that a lookup can take,
  is at most twice the logarithm of the number of its entries plus one. An edit without an object
  removes its address.
\<close>

theorem depth_after_edits:
  "2 ^ tree_depth (fold (\<lambda>(a, e) t. case e of
        Some x \<Rightarrow> fst (set_insert t (unat (a :: obl_logical_address)) x)
      | None \<Rightarrow> set_remove t (unat a)) edits Tip)
   \<le> (length (entries (fold (\<lambda>(a, e) t. case e of
        Some x \<Rightarrow> fst (set_insert t (unat a) x)
      | None \<Rightarrow> set_remove t (unat a)) edits Tip)) + 1) ^ 2"
proof (rule valid_tree_depth)
  show "rb_valid (fold (\<lambda>(a, e) t. case e of
        Some x \<Rightarrow> fst (set_insert t (unat a) x)
      | None \<Rightarrow> set_remove t (unat a)) edits Tip)"
    using session_set.good_edits [OF session_set.good_empty, of edits]
    unfolding session_set.edit_all_def address_insert_def address_remove_def address_valid_def
    by blast
qed

end
