(* ===== verification/RBIter.thy ===== *)
theory RBIter
  imports ObjectSet "HOL-Library.Multiset"
begin

text \<open>
  The iterators of \<open>obl/set.c\<close>. A chain of \<open>struct iterator_context\<close> frames linked by \<open>parent\<close> is a
  list of pairs of a node and its \<open>visited\<close> flag, the top of the stack first.

  The destroying iterator frees a node before it reads the children of the node, which C leaves
  undefined (and between the two reads it allocates a frame, which may be given the freed block).
  Its definitions take a parameter \<open>kept\<close> that says what becomes of the block: when it stays readable
  and unchanged until the call returns, the children are read with the values that they had,
  otherwise reading them is the fault \<open>DanglingPointer\<close>.
\<close>

section \<open>Iterators\<close>

type_synonym 'o iterator_context = "'o rb \<times> bool"

datatype next_function = inorder_iter | destroying_iter

record 'o obl_set_iterator =
  next_function :: next_function
  stack :: "'o iterator_context list"

text \<open>Push frames for a node and its chain of left children.\<close>

fun push_left :: "'o rb \<Rightarrow> 'o iterator_context list \<Rightarrow> 'o iterator_context list" where
  "push_left Tip frames = frames"
| "push_left (Node c l k x r) frames = push_left l ((Node c l k x r, False) # frames)"

definition obl_set_inorder_iter :: "'o rb \<Rightarrow> 'o obl_set_iterator" where
  "obl_set_inorder_iter root = \<lparr>next_function = inorder_iter, stack = push_left root []\<rparr>"

definition obl_set_destroying_iter :: "'o rb \<Rightarrow> 'o obl_set_iterator" where
  "obl_set_destroying_iter root =
     \<lparr>next_function = destroying_iter, stack = (if root \<noteq> Tip then [(root, False)] else [])\<rparr>"

fun node_object :: "'o rb \<Rightarrow> 'o option" where
  "node_object Tip = None"
| "node_object (Node c l k x r) = Some x"

text \<open>
  Visit the node on top, push frames for its right subtree, then pop every frame up to the first
  one that was not visited.
\<close>

definition inorder_iternext :: "'o iterator_context list \<Rightarrow> 'o option \<times> 'o iterator_context list" where
  "inorder_iternext frames =
     (case frames of
        [] \<Rightarrow> (None, [])
      | (node, _) # parents \<Rightarrow>
          (node_object node,
           dropWhile snd (push_left (child RIGHT node) ((node, True) # parents))))"

text \<open>The node is freed after its object has been read and before its children are.\<close>

definition destroying_iternext ::
    "bool \<Rightarrow> 'o iterator_context list \<Rightarrow> fault + 'o option \<times> 'o iterator_context list" where
  "destroying_iternext kept frames =
     (case frames of
        [] \<Rightarrow> Inr (None, [])
      | (node, _) # parent \<Rightarrow>
          (if kept then
             (let right = child RIGHT node;
                  left = child LEFT node;
                  below = (if right \<noteq> Tip then (right, False) # parent else parent);
                  new_context = (if left \<noteq> Tip then (left, False) # below else below)
              in Inr (node_object node, new_context))
           else Inl DanglingPointer))"

definition obl_set_iternext ::
    "bool \<Rightarrow> 'o obl_set_iterator \<Rightarrow> fault + 'o option \<times> 'o obl_set_iterator" where
  "obl_set_iternext kept iter =
     map_sum id (map_prod id (\<lambda>frames. iter\<lparr>stack := frames\<rparr>))
       (case next_function iter of
          inorder_iter \<Rightarrow> Inr (inorder_iternext (stack iter))
        | destroying_iter \<Rightarrow> destroying_iternext kept (stack iter))"

text \<open>
  The loop \<open>while ((o = obl_set_iternext(it)) != NULL)\<close> of the clients, collecting the objects in
  the order in which they are visited. It needs one call for each object and one that ends it.
\<close>

fun iterate :: "nat \<Rightarrow> bool \<Rightarrow> 'o obl_set_iterator \<Rightarrow> fault + 'o list" where
  "iterate 0 kept iter = Inl OutOfFuel"
| "iterate (Suc fuel) kept iter =
     (case obl_set_iternext kept iter of
        Inl e \<Rightarrow> Inl e
      | Inr (None, iter') \<Rightarrow> Inr []
      | Inr (Some x, iter') \<Rightarrow> map_sum id (\<lambda>xs. x # xs) (iterate fuel kept iter'))"

text \<open>The order in which \<open>obl_destroy_set\<close> hands the objects to its callback.\<close>

definition obl_destroy_set :: "bool \<Rightarrow> 'o rb \<Rightarrow> fault + 'o list" where
  "obl_destroy_set kept root =
     iterate (Suc (length (entries root))) kept (obl_set_destroying_iter root)"

section \<open>What is left to visit\<close>

definition inorder :: "'o rb \<Rightarrow> 'o list" where
  "inorder t = map snd (entries t)"

lemma inorder_simps [simp]:
  "inorder Tip = []" "inorder (Node c l k x r) = inorder l @ x # inorder r"
  by (simp_all add: inorder_def)

fun preorder :: "'o rb \<Rightarrow> 'o list" where
  "preorder Tip = []"
| "preorder (Node c l k x r) = x # preorder l @ preorder r"

fun pending :: "'o iterator_context list \<Rightarrow> 'o list" where
  "pending [] = []"
| "pending ((Tip, v) # frames) = pending frames"
| "pending ((Node c l k x r, v) # frames) = (if v then [] else x # inorder r) @ pending frames"

definition stack_ok :: "'o iterator_context list \<Rightarrow> bool" where
  "stack_ok frames \<longleftrightarrow>
     (Tip \<notin> fst ` set frames) \<and> (frames \<noteq> [] \<longrightarrow> \<not> snd (hd frames))"

lemma pending_push_left: "pending (push_left t frames) = inorder t @ pending frames"
  by (induction t arbitrary: frames) auto

lemma nodes_push_left:
  "Tip \<notin> fst ` set frames \<Longrightarrow> Tip \<notin> fst ` set (push_left t frames)"
  by (induction t arbitrary: frames) simp_all

lemma pending_drop: "pending (dropWhile snd frames) = pending frames"
  by (induction frames rule: pending.induct) auto

lemma stack_ok_drop:
  "Tip \<notin> fst ` set frames \<Longrightarrow> stack_ok (dropWhile snd frames)"
proof -
  assume "Tip \<notin> fst ` set frames"
  then have "Tip \<notin> fst ` set (dropWhile snd frames)"
    by (auto dest: set_dropWhileD)
  then show ?thesis using hd_dropWhile [of snd frames] by (auto simp: stack_ok_def)
qed

lemma stack_ok_push_left: "stack_ok (push_left t [])"
proof -
  have "frames \<noteq> [] \<longrightarrow> \<not> snd (hd frames) \<Longrightarrow>
      push_left t frames \<noteq> [] \<longrightarrow> \<not> snd (hd (push_left t frames))" for frames
    by (induction t arbitrary: frames) auto
  from this [of "[]"] nodes_push_left [of "[]" t] show ?thesis
    by (simp add: stack_ok_def)
qed

lemma inorder_iternext_step:
  assumes "stack_ok frames"
  shows "(frames = [] \<and> inorder_iternext frames = (None, [])) \<or>
         (\<exists>x frames'. inorder_iternext frames = (Some x, frames') \<and>
            pending frames = x # pending frames' \<and> stack_ok frames')"
proof (cases frames)
  case Nil
  then show ?thesis by (simp add: inorder_iternext_def)
next
  case (Cons f parents)
  with assms obtain c l k x r where f: "f = (Node c l k x r, False)"
    by (cases f; cases "fst f") (auto simp: stack_ok_def)
  let ?next = "push_left r ((Node c l k x r, True) # parents)"
  have "Tip \<notin> fst ` set ?next"
    by (rule nodes_push_left) (use assms Cons f in \<open>auto simp: stack_ok_def\<close>)
  then have "stack_ok (dropWhile snd ?next)" by (rule stack_ok_drop)
  then show ?thesis
    by (simp add: Cons f inorder_iternext_def pending_drop pending_push_left)
qed

lemma iterate_inorder:
  "\<lbrakk>stack_ok frames; length (pending frames) < fuel\<rbrakk> \<Longrightarrow>
     iterate fuel kept \<lparr>next_function = inorder_iter, stack = frames\<rparr> = Inr (pending frames)"
proof (induction fuel arbitrary: frames)
  case (Suc fuel)
  from inorder_iternext_step [OF Suc.prems(1)] show ?case
    using Suc.IH Suc.prems(2) by (auto simp: obl_set_iternext_def)
qed simp

definition pre_pending :: "'o iterator_context list \<Rightarrow> 'o list" where
  "pre_pending frames = concat (map (preorder \<circ> fst) frames)"

lemma iterate_destroying:
  "\<lbrakk>Tip \<notin> fst ` set frames; length (pre_pending frames) < fuel\<rbrakk> \<Longrightarrow>
     iterate fuel True \<lparr>next_function = destroying_iter, stack = frames\<rparr> = Inr (pre_pending frames)"
proof (induction fuel arbitrary: frames)
  case (Suc fuel)
  show ?case
  proof (cases frames)
    case Nil
    then show ?thesis by (simp add: obl_set_iternext_def destroying_iternext_def pre_pending_def)
  next
    case (Cons f parents)
    obtain frames' where frames': "destroying_iternext True frames = Inr (node_object (fst f), frames')"
      by (cases f) (auto simp: Cons destroying_iternext_def Let_def)
    obtain c l k x r v where f: "f = (Node c l k x r, v)"
      using Suc.prems(1) Cons by (cases f; cases "fst f") auto
    have "pre_pending frames = x # pre_pending frames'" and "Tip \<notin> fst ` set frames'"
      using frames' Suc.prems(1)
      by (auto simp: Cons f destroying_iternext_def pre_pending_def Let_def split: if_split_asm)
    then show ?thesis using Suc.IH [of frames'] Suc.prems(2) frames'
      by (simp add: obl_set_iternext_def f)
  qed
qed simp

lemma length_preorder: "length (preorder t) = length (entries t)"
  by (induction t) auto

lemma mset_preorder: "mset (preorder t) = mset (inorder t)"
  by (induction t) auto

text \<open>What the two loops visit.\<close>

lemma iterate_inorder_all:
  "iterate (Suc (length (entries t))) kept (obl_set_inorder_iter t) = Inr (map snd (entries t))"
  using iterate_inorder [OF stack_ok_push_left [of t], of "Suc (length (entries t))"]
  by (simp add: obl_set_inorder_iter_def pending_push_left inorder_def del: iterate.simps)

lemma destroy_set_preorder: "obl_destroy_set True t = Inr (preorder t)"
  using iterate_destroying [of "stack (obl_set_destroying_iter t)" "Suc (length (entries t))"]
  by (cases t) (simp_all add: obl_destroy_set_def obl_set_destroying_iter_def pre_pending_def
      length_preorder)

lemma destroy_set_Tip: "obl_destroy_set kept Tip = Inr []"
  by (simp add: obl_destroy_set_def obl_set_destroying_iter_def obl_set_iternext_def
      destroying_iternext_def)

section \<open>Properties\<close>

text \<open>
  C26: An in-order iterator over a set visits every object once, in the order of the keys, and then
  returns no further object: one call more than there are objects ends the loop.
\<close>

theorem inorder_iteration:
  "iterate (Suc (length (entries t))) kept (obl_set_inorder_iter t) = Inr (map snd (entries t))"
  by (rule iterate_inorder_all)

text \<open>
  C27: \<open>obl_destroy_set\<close> reads the children of every node after it has freed the node. Where freed
  blocks stay readable and unchanged meanwhile, the destruction ends and hands every object of the set to the
  callback exactly once; otherwise the destruction of any set that is not empty reads a dangling
  pointer at its first node.
\<close>

theorem destroy_visits_all:
  "if kept \<or> t = Tip
   then \<exists>xs. obl_destroy_set kept t = Inr xs \<and> mset xs = mset (map snd (entries t))
   else obl_destroy_set kept t = Inl DanglingPointer"
proof (cases "kept \<or> t = Tip")
  case True
  then have "obl_destroy_set kept t = Inr (preorder t)"
    using destroy_set_preorder [of t] destroy_set_Tip [of kept] by auto
  with True show ?thesis by (simp add: mset_preorder flip: inorder_def)
next
  case False
  then show ?thesis
    by (simp add: obl_destroy_set_def obl_set_destroying_iter_def obl_set_iternext_def
        destroying_iternext_def)
qed

end
