(* ===== verification/World.thy ===== *)
theory World
  imports RBIter
begin

text \<open>
  The state of an ObjectLite process: the structures of \<open>storage/object.h\<close> and of the storage
  headers, \<open>session.h\<close>, \<open>transaction.h\<close>, \<open>database.h\<close>, \<open>log.h\<close> and \<open>set.h\<close>, the heap they live in
  and the primitive accesses to them.

  A pointer is a natural number, \<open>NULL\<close> is 0. Objects, sessions, transactions and databases live in
  maps from pointers; reading through a pointer that is not in its map is a \<open>Fault\<close>. An object
  carries its storage block (the union member in use), since no block is ever reachable from two
  objects that are both alive. Semaphores are counters, and the process has one thread: waiting on
  a semaphore at 0 is the \<open>Fault\<close> \<open>Blocked\<close>. \<open>malloc\<close> succeeds for ever, or a given number of times.
\<close>

section \<open>Enumerations\<close>

datatype obl_storage_type =
    OBL_SHAPE | OBL_SLOTTED | OBL_FIXED | OBL_CHUNK | OBL_ADDRTREEPAGE | OBL_INTEGER | OBL_FLOAT
  | OBL_DOUBLE | OBL_CHAR | OBL_STRING | OBL_BOOLEAN | OBL_NIL | OBL_STUB
  | OBL_OTHER obl_uint

text \<open>The value of the enumeration and the cast to it; \<open>OBL_OTHER\<close> is a number outside of it.\<close>

fun storage_code :: "obl_storage_type \<Rightarrow> obl_uint" where
  "storage_code OBL_SHAPE = 0"
| "storage_code OBL_SLOTTED = 1"
| "storage_code OBL_FIXED = 2"
| "storage_code OBL_CHUNK = 3"
| "storage_code OBL_ADDRTREEPAGE = 4"
| "storage_code OBL_INTEGER = 5"
| "storage_code OBL_FLOAT = 6"
| "storage_code OBL_DOUBLE = 7"
| "storage_code OBL_CHAR = 8"
| "storage_code OBL_STRING = 9"
| "storage_code OBL_BOOLEAN = 10"
| "storage_code OBL_NIL = 11"
| "storage_code OBL_STUB = 12"
| "storage_code (OBL_OTHER u) = u"

definition storage_types :: "obl_storage_type list" where
  "storage_types = [OBL_SHAPE, OBL_SLOTTED, OBL_FIXED, OBL_CHUNK, OBL_ADDRTREEPAGE, OBL_INTEGER,
     OBL_FLOAT, OBL_DOUBLE, OBL_CHAR, OBL_STRING, OBL_BOOLEAN, OBL_NIL, OBL_STUB]"

definition OBL_STORAGE_TYPE_MAX :: obl_uint where
  "OBL_STORAGE_TYPE_MAX = storage_code OBL_STUB"

definition storage_type_of :: "obl_uint \<Rightarrow> obl_storage_type" where
  "storage_type_of u = (if u > OBL_STORAGE_TYPE_MAX then OBL_OTHER u else storage_types ! unat u)"

datatype obl_log_level = L_DEFAULT | L_DEBUG | L_INFO | L_NOTICE | L_WARN | L_ERROR | L_NONE

fun level_rank :: "obl_log_level \<Rightarrow> nat" where
  "level_rank L_DEFAULT = 0"
| "level_rank L_DEBUG = 1"
| "level_rank L_INFO = 2"
| "level_rank L_NOTICE = 3"
| "level_rank L_WARN = 4"
| "level_rank L_ERROR = 5"
| "level_rank L_NONE = 6"

datatype obl_error_code =
    OBL_OK | OBL_OUT_OF_MEMORY | OBL_UNABLE_TO_READ_FILE | OBL_UNABLE_TO_OPEN_FILE
  | OBL_CONVERSION_ERROR | OBL_WRONG_STORAGE | OBL_ARGUMENT_SIZE | OBL_MISSING_SYSTEM_OBJECT
  | OBL_DATABASE_NOT_OPEN | OBL_INVALID_INDEX | OBL_INVALID_ADDRESS | OBL_ALREADY_IN_TRANSACTION

text \<open>A message: a text, or a format with the numbers, texts and messages it is filled with.\<close>

datatype argument = Num int | Str string

datatype message = Text string | Formatted string "argument list" | Quoting string message

section \<open>Fixed addresses\<close>

definition OBL_FIXED_SIZE :: nat where
  "OBL_FIXED_SIZE = 15"

definition OBL_FIXED_ADDR_MIN :: obl_logical_address where
  "OBL_FIXED_ADDR_MIN = OBL_ADDRESS_MAX - of_nat OBL_FIXED_SIZE + 1"

text \<open>The members of \<open>obl_fixed_address\<close>, in the order of the enumeration.\<close>

datatype obl_fixed_address =
    OBL_NIL_ADDR | OBL_TRUE_ADDR | OBL_FALSE_ADDR
  | OBL_INTEGER_SHAPE_ADDR | OBL_FLOAT_SHAPE_ADDR | OBL_DOUBLE_SHAPE_ADDR | OBL_CHAR_SHAPE_ADDR
  | OBL_STRING_SHAPE_ADDR
  | OBL_FIXED_SHAPE_ADDR | OBL_CHUNK_SHAPE_ADDR | OBL_ADDRTREEPAGE_SHAPE_ADDR
  | OBL_ALLOCATOR_SHAPE_ADDR
  | OBL_NIL_SHAPE_ADDR | OBL_BOOLEAN_SHAPE_ADDR | OBL_STUB_SHAPE_ADDR

fun fixed_ordinal :: "obl_fixed_address \<Rightarrow> nat" where
  "fixed_ordinal OBL_NIL_ADDR = 0"
| "fixed_ordinal OBL_TRUE_ADDR = 1"
| "fixed_ordinal OBL_FALSE_ADDR = 2"
| "fixed_ordinal OBL_INTEGER_SHAPE_ADDR = 3"
| "fixed_ordinal OBL_FLOAT_SHAPE_ADDR = 4"
| "fixed_ordinal OBL_DOUBLE_SHAPE_ADDR = 5"
| "fixed_ordinal OBL_CHAR_SHAPE_ADDR = 6"
| "fixed_ordinal OBL_STRING_SHAPE_ADDR = 7"
| "fixed_ordinal OBL_FIXED_SHAPE_ADDR = 8"
| "fixed_ordinal OBL_CHUNK_SHAPE_ADDR = 9"
| "fixed_ordinal OBL_ADDRTREEPAGE_SHAPE_ADDR = 10"
| "fixed_ordinal OBL_ALLOCATOR_SHAPE_ADDR = 11"
| "fixed_ordinal OBL_NIL_SHAPE_ADDR = 12"
| "fixed_ordinal OBL_BOOLEAN_SHAPE_ADDR = 13"
| "fixed_ordinal OBL_STUB_SHAPE_ADDR = 14"

definition fixed_addr :: "obl_fixed_address \<Rightarrow> obl_logical_address" where
  "fixed_addr a = OBL_FIXED_ADDR_MIN + of_nat (fixed_ordinal a)"

definition IS_FIXED_ADDR :: "obl_logical_address \<Rightarrow> bool" where
  "IS_FIXED_ADDR addr \<longleftrightarrow> addr \<ge> OBL_FIXED_ADDR_MIN"

section \<open>Objects and their storage\<close>

type_synonym ptr = nat

abbreviation (input) NULL :: ptr where
  "NULL \<equiv> 0"

record obl_shape_storage =
  shape_name :: ptr
  shape_slot_names :: ptr
  shape_current_shape :: ptr
  shape_storage_format :: obl_uint

record obl_slotted_storage =
  slots :: "ptr list"

record obl_fixed_storage =
  fixed_length :: obl_uint
  fixed_contents :: "ptr list"

record obl_chunk_storage =
  chunk_next :: ptr
  chunk_contents :: "ptr list"

record obl_addrtreepage_storage =
  page_height :: obl_uint
  page_contents :: "obl_physical_address list"

record obl_integer_storage =
  integer_value :: obl_int

record obl_float_storage =
  float_sign :: "1 word"
  float_exponent :: "8 word"
  float_mantissa :: "23 word"

record obl_double_storage =
  double_sign :: "1 word"
  double_exponent :: "11 word"
  double_mantissa :: "52 word"

record obl_char_storage =
  char_value :: UChar32

record obl_string_storage =
  string_length :: obl_uint
  string_contents :: "UChar list"

record obl_boolean_storage =
  boolean_value :: obl_uint

record obl_stub_storage =
  stub_value :: obl_logical_address

text \<open>The union: \<open>Unset\<close> before any member is assigned, \<open>Null_storage\<close> for a null member.\<close>

datatype obl_storage =
    Shape_storage obl_shape_storage
  | Slotted_storage obl_slotted_storage
  | Fixed_storage obl_fixed_storage
  | Chunk_storage obl_chunk_storage
  | Addrtreepage_storage obl_addrtreepage_storage
  | Integer_storage obl_integer_storage
  | Float_storage obl_float_storage
  | Double_storage obl_double_storage
  | Char_storage obl_char_storage
  | String_storage obl_string_storage
  | Boolean_storage obl_boolean_storage
  | Stub_storage obl_stub_storage
  | Null_storage
  | Unset

record obl_object =
  obj_session :: ptr
  logical_address :: obl_logical_address
  physical_address :: obl_physical_address
  obj_shape :: ptr
  obj_storage :: obl_storage

section \<open>Sets, sessions, transactions and databases\<close>

datatype obl_set_keyfunction = logical_address_keyfunction | heap_address_keyfunction

record obl_set =
  set_root :: "ptr rb"
  set_keyfunction :: obl_set_keyfunction

text \<open>A set pointer that may be null is an option.\<close>

record obl_session =
  ses_database :: ptr
  current_transaction :: ptr
  read_set :: "obl_set option"
  session_mutex :: nat

record obl_transaction =
  tx_session :: ptr
  write_set :: "obl_set option"

record obl_database_config =
  filename :: "string option"
  prohibit_creation :: bool
  growth_size :: int
  log_filename :: "string option"
  log_level :: obl_log_level
  default_stub_depth :: int
  zero_check :: bool

record obl_root =
  address_map_addr :: obl_physical_address
  allocator_addr :: obl_logical_address
  shape_map_addr :: obl_logical_address
  name_map_addr :: obl_logical_address
  dirty :: bool

text \<open>
  The block that \<open>content\<close> points to: its cells, and how many words of it may be accessed. The words
  are the ones the processor reads, so the byte order of the file is undone by the macros.
\<close>

record memory =
  cells :: "nat \<Rightarrow> obl_uint"
  capacity :: nat

record obl_database =
  configuration :: obl_database_config
  error_message :: "message option"
  error_code :: obl_error_code
  root :: obl_root
  content :: "memory option"
  content_size :: obl_uint
  content_mutex :: nat
  session_list :: "ptr list"
  session_list_mutex :: nat

text \<open>
  A file of the file system: its size in bytes, and its bytes as words the way the processor reads
  them. Bytes behind the end count as 0.
\<close>

record disk_file =
  file_bytes :: nat
  file_words :: "nat \<Rightarrow> obl_uint"

text \<open>
  \<open>refused call path\<close> tells which system calls fail on which files, \<open>errno_text\<close> what \<open>strerror\<close> then
  says about it. \<open>fresh_words\<close> is what a block contains where nothing has been stored into it, such as
  the words that \<open>realloc\<close> adds; C leaves these values open, and so does the model.
\<close>

record world =
  heap :: "ptr \<Rightarrow> obl_object option"
  sessions :: "ptr \<Rightarrow> obl_session option"
  transactions :: "ptr \<Rightarrow> obl_transaction option"
  databases :: "ptr \<Rightarrow> obl_database option"
  next_ptr :: ptr
  fixed_space :: "ptr list"
  malloc_budget :: "nat option"
  ambient_log_level :: obl_log_level
  log_lines :: "(string option \<times> obl_log_level \<times> message) list"
  files :: "string \<Rightarrow> disk_file option"
  refused :: "string \<Rightarrow> string \<Rightarrow> bool"
  errno_text :: string
  printed :: string
  fresh_words :: "nat \<Rightarrow> obl_uint"

type_synonym 'a exec = "(world, 'a) prog"

text \<open>A process before \<open>obl_startup\<close>.\<close>

definition initial_world :: world where
  "initial_world =
     \<lparr>heap = (\<lambda>_. None), sessions = (\<lambda>_. None), transactions = (\<lambda>_. None),
      databases = (\<lambda>_. None), next_ptr = 1, fixed_space = replicate OBL_FIXED_SIZE NULL,
      malloc_budget = None, ambient_log_level = L_NOTICE, log_lines = [], files = (\<lambda>_. None),
      refused = (\<lambda>_ _. False), errno_text = [], printed = [],
      fresh_words = (\<lambda>_. 0)\<rparr>"

end
