(* ===== verification/Store.thy ===== *)
theory Store
  imports World
begin

text \<open>
  Primitive accesses to the state: dereferencing, allocation, semaphores, and the words and
  half-words of the memory that \<open>content\<close> points to; then the logging subsystem of \<open>log.c\<close> and the
  error reports and fixed addresses of \<open>database.c\<close>, which every other part uses.
\<close>

section \<open>Pointers\<close>

definition bad_pointer :: "ptr \<Rightarrow> fault" where
  "bad_pointer p = (if p = NULL then NullPointer else DanglingPointer)"

definition get_object :: "ptr \<Rightarrow> obl_object exec" where
  "get_object p = (\<lambda>w. case heap w p of Some x \<Rightarrow> Ok x w | None \<Rightarrow> Fault (bad_pointer p))"

definition update_object :: "ptr \<Rightarrow> (obl_object \<Rightarrow> obl_object) \<Rightarrow> unit exec" where
  "update_object p f =
     bindM (get_object p) (\<lambda>x. modifyM (\<lambda>w. w\<lparr>heap := (heap w)(p \<mapsto> f x)\<rparr>))"

definition get_session :: "ptr \<Rightarrow> obl_session exec" where
  "get_session p = (\<lambda>w. case sessions w p of Some x \<Rightarrow> Ok x w | None \<Rightarrow> Fault (bad_pointer p))"

definition update_session :: "ptr \<Rightarrow> (obl_session \<Rightarrow> obl_session) \<Rightarrow> unit exec" where
  "update_session p f =
     bindM (get_session p) (\<lambda>x. modifyM (\<lambda>w. w\<lparr>sessions := (sessions w)(p \<mapsto> f x)\<rparr>))"

definition get_transaction :: "ptr \<Rightarrow> obl_transaction exec" where
  "get_transaction p =
     (\<lambda>w. case transactions w p of Some x \<Rightarrow> Ok x w | None \<Rightarrow> Fault (bad_pointer p))"

definition update_transaction :: "ptr \<Rightarrow> (obl_transaction \<Rightarrow> obl_transaction) \<Rightarrow> unit exec" where
  "update_transaction p f =
     bindM (get_transaction p)
       (\<lambda>x. modifyM (\<lambda>w. w\<lparr>transactions := (transactions w)(p \<mapsto> f x)\<rparr>))"

definition get_database :: "ptr \<Rightarrow> obl_database exec" where
  "get_database p = (\<lambda>w. case databases w p of Some x \<Rightarrow> Ok x w | None \<Rightarrow> Fault (bad_pointer p))"

definition update_database :: "ptr \<Rightarrow> (obl_database \<Rightarrow> obl_database) \<Rightarrow> unit exec" where
  "update_database p f =
     bindM (get_database p) (\<lambda>x. modifyM (\<lambda>w. w\<lparr>databases := (databases w)(p \<mapsto> f x)\<rparr>))"

text \<open>A set pointer held in a structure; using a null one is a fault.\<close>

definition the_set :: "obl_set option \<Rightarrow> obl_set exec" where
  "the_set p = (case p of Some s \<Rightarrow> retM s | None \<Rightarrow> failM NullPointer)"

section \<open>Allocation\<close>

text \<open>\<open>malloc\<close> returned something other than \<open>NULL\<close>.\<close>

definition malloc :: "bool exec" where
  "malloc = (\<lambda>w. case malloc_budget w of
       None \<Rightarrow> Ok True w
     | Some 0 \<Rightarrow> Ok False w
     | Some (Suc n) \<Rightarrow> Ok True (w\<lparr>malloc_budget := Some n\<rparr>))"

text \<open>The pointer of a block that \<open>malloc\<close> just returned, with its first contents.\<close>

definition new_object :: "obl_object \<Rightarrow> ptr exec" where
  "new_object x = (\<lambda>w. Ok (next_ptr w)
     (w\<lparr>heap := (heap w)(next_ptr w \<mapsto> x), next_ptr := next_ptr w + 1\<rparr>))"

definition new_session :: "obl_session \<Rightarrow> ptr exec" where
  "new_session x = (\<lambda>w. Ok (next_ptr w)
     (w\<lparr>sessions := (sessions w)(next_ptr w \<mapsto> x), next_ptr := next_ptr w + 1\<rparr>))"

definition new_transaction :: "obl_transaction \<Rightarrow> ptr exec" where
  "new_transaction x = (\<lambda>w. Ok (next_ptr w)
     (w\<lparr>transactions := (transactions w)(next_ptr w \<mapsto> x), next_ptr := next_ptr w + 1\<rparr>))"

definition new_database :: "obl_database \<Rightarrow> ptr exec" where
  "new_database x = (\<lambda>w. Ok (next_ptr w)
     (w\<lparr>databases := (databases w)(next_ptr w \<mapsto> x), next_ptr := next_ptr w + 1\<rparr>))"

definition free_object :: "ptr \<Rightarrow> unit exec" where
  "free_object p =
     (if p = NULL then retM ()
      else thenM (get_object p) (modifyM (\<lambda>w. w\<lparr>heap := (heap w)(p := None)\<rparr>)))"

definition free_session :: "ptr \<Rightarrow> unit exec" where
  "free_session p =
     (if p = NULL then retM ()
      else thenM (get_session p) (modifyM (\<lambda>w. w\<lparr>sessions := (sessions w)(p := None)\<rparr>)))"

definition free_transaction :: "ptr \<Rightarrow> unit exec" where
  "free_transaction p =
     (if p = NULL then retM ()
      else thenM (get_transaction p)
        (modifyM (\<lambda>w. w\<lparr>transactions := (transactions w)(p := None)\<rparr>)))"

definition free_database :: "ptr \<Rightarrow> unit exec" where
  "free_database p =
     (if p = NULL then retM ()
      else thenM (get_database p) (modifyM (\<lambda>w. w\<lparr>databases := (databases w)(p := None)\<rparr>)))"

section \<open>Semaphores\<close>

definition wait_session_mutex :: "ptr \<Rightarrow> unit exec" where
  "wait_session_mutex s = bindM (get_session s) (\<lambda>r.
     if session_mutex r = 0 then failM Blocked
     else update_session s (\<lambda>r. r\<lparr>session_mutex := session_mutex r - 1\<rparr>))"

definition post_session_mutex :: "ptr \<Rightarrow> unit exec" where
  "post_session_mutex s = update_session s (\<lambda>r. r\<lparr>session_mutex := session_mutex r + 1\<rparr>)"

definition wait_content_mutex :: "ptr \<Rightarrow> unit exec" where
  "wait_content_mutex d = bindM (get_database d) (\<lambda>r.
     if content_mutex r = 0 then failM Blocked
     else update_database d (\<lambda>r. r\<lparr>content_mutex := content_mutex r - 1\<rparr>))"

definition post_content_mutex :: "ptr \<Rightarrow> unit exec" where
  "post_content_mutex d = update_database d (\<lambda>r. r\<lparr>content_mutex := content_mutex r + 1\<rparr>)"

definition wait_session_list_mutex :: "ptr \<Rightarrow> unit exec" where
  "wait_session_list_mutex d = bindM (get_database d) (\<lambda>r.
     if session_list_mutex r = 0 then failM Blocked
     else update_database d (\<lambda>r. r\<lparr>session_list_mutex := session_list_mutex r - 1\<rparr>))"

definition post_session_list_mutex :: "ptr \<Rightarrow> unit exec" where
  "post_session_list_mutex d =
     update_database d (\<lambda>r. r\<lparr>session_list_mutex := session_list_mutex r + 1\<rparr>)"

section \<open>Database content\<close>

text \<open>\<open>content[i]\<close> as a value and as the target of an assignment.\<close>

definition with_content :: "ptr \<Rightarrow> (memory \<Rightarrow> 'a exec) \<Rightarrow> 'a exec" where
  "with_content d f = bindM (get_database d) (\<lambda>r.
     case content r of None \<Rightarrow> failM NullPointer | Some m \<Rightarrow> f m)"

definition read_cell :: "ptr \<Rightarrow> obl_uint \<Rightarrow> obl_uint exec" where
  "read_cell d i = with_content d (\<lambda>m.
     if unat i < capacity m then retM (cells m (unat i)) else failM OutOfBounds)"

definition write_cell :: "ptr \<Rightarrow> obl_uint \<Rightarrow> obl_uint \<Rightarrow> unit exec" where
  "write_cell d i v = with_content d (\<lambda>m.
     if unat i < capacity m
     then update_database d (\<lambda>r. r\<lparr>content := Some (m\<lparr>cells := (cells m)(unat i := v)\<rparr>)\<rparr>)
     else failM OutOfBounds)"

text \<open>
  The same block as an array of 16-bit units, on a little-endian host: unit \<open>2 * i\<close> is the low half
  of word \<open>i\<close>.
\<close>

definition half_of :: "obl_uint \<Rightarrow> bool \<Rightarrow> UChar" where
  "half_of c high = ucast (if high then drop_bit 16 c else c)"

definition set_half :: "obl_uint \<Rightarrow> bool \<Rightarrow> UChar \<Rightarrow> obl_uint" where
  "set_half c high u =
     (if high then (c AND 0xFFFF) OR push_bit 16 (ucast u)
      else (c AND 0xFFFF0000) OR ucast u)"

definition read_half :: "ptr \<Rightarrow> obl_uint \<Rightarrow> UChar exec" where
  "read_half d i = bindM (read_cell d (drop_bit 1 i)) (\<lambda>c. retM (half_of c (bit i 0)))"

definition write_half :: "ptr \<Rightarrow> obl_uint \<Rightarrow> UChar \<Rightarrow> unit exec" where
  "write_half d i u = bindM (read_cell d (drop_bit 1 i)) (\<lambda>c.
     write_cell d (drop_bit 1 i) (set_half c (bit i 0) u))"

section \<open>Logging\<close>

definition obl_set_ambient_log_level :: "obl_log_level \<Rightarrow> unit exec" where
  "obl_set_ambient_log_level level = modifyM (\<lambda>w. w\<lparr>ambient_log_level := level\<rparr>)"

text \<open>
  \<open>obl_log\<close> appends a line to the file that the configuration names, or to the error stream when it
  names none (\<open>None\<close>). The time stamp is left out.
\<close>

definition emit :: "string option \<Rightarrow> obl_log_level \<Rightarrow> message \<Rightarrow> unit exec" where
  "emit file level msg = modifyM (\<lambda>w. w\<lparr>log_lines := log_lines w @ [(file, level, msg)]\<rparr>)"

definition obl_log :: "obl_database_config option \<Rightarrow> obl_log_level \<Rightarrow> message \<Rightarrow> unit exec" where
  "obl_log config level msg =
     (case config of
        None \<Rightarrow>
          bindM (getsM ambient_log_level) (\<lambda>ambient.
            if level_rank ambient > level_rank level then retM ()
            else emit None level msg)
      | Some c \<Rightarrow>
          if level_rank (log_level c) > level_rank level then retM ()
          else emit (filename c) level msg)"

definition obl_logf ::
    "obl_database_config option \<Rightarrow> obl_log_level \<Rightarrow> string \<Rightarrow> argument list \<Rightarrow> unit exec" where
  "obl_logf config level pattern args = obl_log config level (Formatted pattern args)"

definition OBL_CONFIG_FROM :: "ptr \<Rightarrow> obl_database_config option exec" where
  "OBL_CONFIG_FROM d =
     (if d = NULL then retM None
      else bindM (get_database d) (\<lambda>r. retM (Some (configuration r))))"

definition obl_log_database :: "ptr \<Rightarrow> obl_log_level \<Rightarrow> message \<Rightarrow> unit exec" where
  "obl_log_database d level msg = bindM (OBL_CONFIG_FROM d) (\<lambda>config. obl_log config level msg)"

abbreviation OBL_ERROR :: "ptr \<Rightarrow> message \<Rightarrow> unit exec" where
  "OBL_ERROR d msg \<equiv> obl_log_database d L_ERROR msg"

abbreviation OBL_WARN :: "ptr \<Rightarrow> message \<Rightarrow> unit exec" where
  "OBL_WARN d msg \<equiv> obl_log_database d L_WARN msg"

abbreviation OBL_INFO :: "ptr \<Rightarrow> message \<Rightarrow> unit exec" where
  "OBL_INFO d msg \<equiv> obl_log_database d L_INFO msg"

abbreviation OBL_DEBUG :: "ptr \<Rightarrow> message \<Rightarrow> unit exec" where
  "OBL_DEBUG d msg \<equiv> obl_log_database d L_DEBUG msg"

section \<open>Error reports\<close>

fun error_messages :: "obl_error_code \<Rightarrow> string" where
  "error_messages OBL_OK = ''EVERYTHING IS FINE''"
| "error_messages OBL_OUT_OF_MEMORY = ''Unable to allocate an object''"
| "error_messages OBL_UNABLE_TO_READ_FILE = ''Unable to read file''"
| "error_messages OBL_UNABLE_TO_OPEN_FILE = ''Unable to open file''"
| "error_messages OBL_CONVERSION_ERROR = ''Error during Unicode conversion''"
| "error_messages OBL_WRONG_STORAGE = ''Incorrect object storage type''"
| "error_messages OBL_ARGUMENT_SIZE = ''Bad argument length''"
| "error_messages OBL_MISSING_SYSTEM_OBJECT = ''Missing a critical system object''"
| "error_messages OBL_DATABASE_NOT_OPEN = ''Database must be open''"
| "error_messages OBL_INVALID_INDEX = ''Invalid index''"
| "error_messages OBL_INVALID_ADDRESS = ''Invalid address''"
| "error_messages OBL_ALREADY_IN_TRANSACTION =
     ''An attempt was made to begin a transaction while one was already in progress''"

definition obl_report_error :: "ptr \<Rightarrow> obl_error_code \<Rightarrow> message option \<Rightarrow> unit exec" where
  "obl_report_error d code msg =
     (let real_message = (case msg of Some m \<Rightarrow> m | None \<Rightarrow> Text (error_messages code))
      in thenM (OBL_ERROR d real_message)
           (if d = NULL then
              thenM (emit None L_ERROR (Quoting ''Unable to report error \"%s\":'' real_message))
                (emit None L_ERROR (Text ''No database structure available to report it in.''))
            else update_database d
              (\<lambda>r. r\<lparr>error_message := Some real_message, error_code := code\<rparr>)))"

definition obl_report_errorf ::
    "ptr \<Rightarrow> obl_error_code \<Rightarrow> string \<Rightarrow> argument list \<Rightarrow> unit exec" where
  "obl_report_errorf d code format args = obl_report_error d code (Some (Formatted format args))"

definition obl_database_ok :: "ptr \<Rightarrow> bool exec" where
  "obl_database_ok d = bindM (get_database d) (\<lambda>r. retM (error_code r = OBL_OK))"

definition obl_clear_error :: "ptr \<Rightarrow> unit exec" where
  "obl_clear_error d = update_database d (\<lambda>r. r\<lparr>error_message := None, error_code := OBL_OK\<rparr>)"

section \<open>Fixed space\<close>

definition i_index_for_fixed :: "obl_logical_address \<Rightarrow> nat" where
  "i_index_for_fixed addr = unat (addr - OBL_FIXED_ADDR_MIN)"

definition i_obl_at_fixed_address :: "obl_logical_address \<Rightarrow> ptr exec" where
  "i_obl_at_fixed_address address =
     (if \<not> IS_FIXED_ADDR address then
        thenM (obl_report_errorf NULL OBL_INVALID_ADDRESS
                 ''Expected an address in fixed space, received 0x%lu.'' [Num (uint address)])
          (retM NULL)
      else getsM (\<lambda>w. fixed_space w ! i_index_for_fixed address))"

definition obl_nil :: "ptr exec" where
  "obl_nil = i_obl_at_fixed_address (fixed_addr OBL_NIL_ADDR)"

definition obl_true :: "ptr exec" where
  "obl_true = i_obl_at_fixed_address (fixed_addr OBL_TRUE_ADDR)"

definition obl_false :: "ptr exec" where
  "obl_false = i_obl_at_fixed_address (fixed_addr OBL_FALSE_ADDR)"

text \<open>Assign a slot of the fixed space.\<close>

definition set_fixed_space :: "obl_fixed_address \<Rightarrow> ptr \<Rightarrow> unit exec" where
  "set_fixed_space a p =
     modifyM (\<lambda>w. w\<lparr>fixed_space := (fixed_space w)[i_index_for_fixed (fixed_addr a) := p]\<rparr>)"

end
