(* ===== verification/Objects.thy ===== *)
theory Objects
  imports Store
begin

text \<open>
  Objects and shapes: \<open>storage/object.c\<close> (storage dispatch, allocation, deallocation),
  \<open>storage/stub.c\<close>, the accessors of \<open>storage/shape.c\<close> and the object-level set operations of
  \<open>set.c\<close>, with the release functions of \<open>session.c\<close> and \<open>database.c\<close> that destroying an object
  needs.

  Loading an object and committing a transaction call most other functions and are called back by
  them. The record \<open>calls\<close> holds these two functions. Each function that may reach one of them
  takes the record as its argument \<open>k\<close>, and the theory \<open>Commit\<close> closes the loop.
\<close>

section \<open>The functions that are called back\<close>

record calls =
  call_at_address_depth :: "ptr \<Rightarrow> obl_logical_address \<Rightarrow> int \<Rightarrow> bool \<Rightarrow> ptr exec"
  call_commit_transaction :: "ptr \<Rightarrow> int exec"

section \<open>Storage types\<close>

definition obl_object_shape :: "ptr \<Rightarrow> ptr exec" where
  "obl_object_shape p = bindM (get_object p) (\<lambda>x. retM (obj_shape x))"

definition obl_database_of :: "ptr \<Rightarrow> ptr exec" where
  "obl_database_of p = bindM (get_object p) (\<lambda>x.
     if obj_session x = NULL then retM NULL
     else bindM (get_session (obj_session x)) (\<lambda>s. retM (ses_database s)))"

text \<open>The error path that most accessors share.\<close>

definition wrong_storage :: "ptr \<Rightarrow> string \<Rightarrow> unit exec" where
  "wrong_storage p msg =
     bindM (obl_database_of p) (\<lambda>d. obl_report_error d OBL_WRONG_STORAGE (Some (Text msg)))"

text \<open>Reading the union through a member: another member in use is a fault.\<close>

definition shape_storage_of :: "ptr \<Rightarrow> obl_shape_storage exec" where
  "shape_storage_of p = bindM (get_object p) (\<lambda>x.
     case obj_storage x of Shape_storage s \<Rightarrow> retM s | Null_storage \<Rightarrow> failM NullPointer
     | _ \<Rightarrow> failM WrongUnionMember)"

definition slotted_storage_of :: "ptr \<Rightarrow> obl_slotted_storage exec" where
  "slotted_storage_of p = bindM (get_object p) (\<lambda>x.
     case obj_storage x of Slotted_storage s \<Rightarrow> retM s | Null_storage \<Rightarrow> failM NullPointer
     | _ \<Rightarrow> failM WrongUnionMember)"

definition fixed_storage_of :: "ptr \<Rightarrow> obl_fixed_storage exec" where
  "fixed_storage_of p = bindM (get_object p) (\<lambda>x.
     case obj_storage x of Fixed_storage s \<Rightarrow> retM s | Null_storage \<Rightarrow> failM NullPointer
     | _ \<Rightarrow> failM WrongUnionMember)"

definition addrtreepage_storage_of :: "ptr \<Rightarrow> obl_addrtreepage_storage exec" where
  "addrtreepage_storage_of p = bindM (get_object p) (\<lambda>x.
     case obj_storage x of Addrtreepage_storage s \<Rightarrow> retM s | Null_storage \<Rightarrow> failM NullPointer
     | _ \<Rightarrow> failM WrongUnionMember)"

definition integer_storage_of :: "ptr \<Rightarrow> obl_integer_storage exec" where
  "integer_storage_of p = bindM (get_object p) (\<lambda>x.
     case obj_storage x of Integer_storage s \<Rightarrow> retM s | Null_storage \<Rightarrow> failM NullPointer
     | _ \<Rightarrow> failM WrongUnionMember)"

definition string_storage_of :: "ptr \<Rightarrow> obl_string_storage exec" where
  "string_storage_of p = bindM (get_object p) (\<lambda>x.
     case obj_storage x of String_storage s \<Rightarrow> retM s | Null_storage \<Rightarrow> failM NullPointer
     | _ \<Rightarrow> failM WrongUnionMember)"

definition boolean_storage_of :: "ptr \<Rightarrow> obl_boolean_storage exec" where
  "boolean_storage_of p = bindM (get_object p) (\<lambda>x.
     case obj_storage x of Boolean_storage s \<Rightarrow> retM s | Null_storage \<Rightarrow> failM NullPointer
     | _ \<Rightarrow> failM WrongUnionMember)"

definition stub_storage_of :: "ptr \<Rightarrow> obl_stub_storage exec" where
  "stub_storage_of p = bindM (get_object p) (\<lambda>x.
     case obj_storage x of Stub_storage s \<Rightarrow> retM s | Null_storage \<Rightarrow> failM NullPointer
     | _ \<Rightarrow> failM WrongUnionMember)"

text \<open>
  \<open>obl_storage_of\<close> and \<open>obl_shape_storagetype\<close> call each other up the chain of shapes. A chain that
  is longer than the number of pointers ever handed out repeats a shape, and the C functions do not
  return; with that many steps the model does return whenever they do.
\<close>

definition shape_storagetype_by :: "(ptr \<Rightarrow> obl_storage_type exec) \<Rightarrow> ptr \<Rightarrow> obl_storage_type exec" where
  "shape_storagetype_by storage_of shape =
     bindM (storage_of shape) (\<lambda>t.
       if t \<noteq> OBL_SHAPE then
         thenM (wrong_storage shape ''obl_shape_storagetype invoked with a non SHAPE object.'')
           (retM (storage_type_of 0))
       else
         bindM (shape_storage_of shape) (\<lambda>s. retM (storage_type_of (shape_storage_format s))))"

fun storage_of_steps :: "nat \<Rightarrow> ptr \<Rightarrow> obl_storage_type exec" where
  "storage_of_steps 0 p = failM OutOfFuel"
| "storage_of_steps (Suc n) p =
     bindM (obl_object_shape p) (\<lambda>shape.
       bindM obl_nil (\<lambda>nil.
         if shape = nil then retM OBL_SHAPE
         else shape_storagetype_by (storage_of_steps n) shape))"

definition obl_storage_of :: "ptr \<Rightarrow> obl_storage_type exec" where
  "obl_storage_of p = (\<lambda>w. storage_of_steps (Suc (Suc (next_ptr w))) p w)"

definition obl_shape_storagetype :: "ptr \<Rightarrow> obl_storage_type exec" where
  "obl_shape_storagetype shape = shape_storagetype_by obl_storage_of shape"

section \<open>Stubs\<close>

definition i_obl_is_stub :: "ptr \<Rightarrow> bool exec" where
  "i_obl_is_stub p =
     bindM (get_object p) (\<lambda>x. bindM obl_nil (\<lambda>nil.
       if obj_shape x = nil then retM False
       else bindM (obl_shape_storagetype (obj_shape x)) (\<lambda>t. retM (t = OBL_STUB))))"

definition i_obl_resolve_stub :: "calls \<Rightarrow> ptr \<Rightarrow> ptr exec" where
  "i_obl_resolve_stub k stub =
     bindM (i_obl_is_stub stub) (\<lambda>is_stub.
       if is_stub then
         bindM (get_object stub) (\<lambda>x.
         bindM (stub_storage_of stub) (\<lambda>st.
         bindM (obl_database_of stub) (\<lambda>d.
         bindM (get_database d) (\<lambda>db.
           call_at_address_depth k (obj_session x) (stub_value st)
             (default_stub_depth (configuration db)) True))))
       else retM stub)"

section \<open>Allocation\<close>

definition i_obl_allocate_object :: "ptr exec" where
  "i_obl_allocate_object =
     bindM malloc (\<lambda>ok.
       if \<not> ok then thenM (obl_report_error NULL OBL_OUT_OF_MEMORY None) (retM NULL)
       else new_object \<lparr>obj_session = NULL, logical_address = OBL_LOGICAL_UNASSIGNED,
              physical_address = OBL_PHYSICAL_UNASSIGNED, obj_shape = NULL, obj_storage = Unset\<rparr>)"

text \<open>A second \<open>malloc\<close> for the storage block; when it fails the object is freed.\<close>

definition with_storage_block :: "ptr \<Rightarrow> ptr \<Rightarrow> ptr exec \<Rightarrow> ptr exec" where
  "with_storage_block result d continue =
     bindM malloc (\<lambda>ok.
       if \<not> ok then
         thenM (obl_report_error d OBL_OUT_OF_MEMORY None)
           (thenM (free_object result) (retM NULL))
       else continue)"

section \<open>Deallocation\<close>

definition i_obl_slotted_deallocate :: "ptr \<Rightarrow> unit exec" where
  "i_obl_slotted_deallocate p = bindM (slotted_storage_of p) (\<lambda>_. retM ())"

definition i_obl_fixed_deallocate :: "ptr \<Rightarrow> unit exec" where
  "i_obl_fixed_deallocate p = bindM (fixed_storage_of p) (\<lambda>_. retM ())"

definition i_obl_string_deallocate :: "ptr \<Rightarrow> unit exec" where
  "i_obl_string_deallocate p = bindM (string_storage_of p) (\<lambda>_. retM ())"

definition simple_deallocate :: "ptr \<Rightarrow> unit exec" where
  "simple_deallocate p = bindM (get_object p) (\<lambda>x.
     if obj_storage x = Unset then failM DanglingPointer else retM ())"

fun deallocate_functions :: "obl_storage_type \<Rightarrow> ptr \<Rightarrow> unit exec" where
  "deallocate_functions OBL_SLOTTED = i_obl_slotted_deallocate"
| "deallocate_functions OBL_FIXED = i_obl_fixed_deallocate"
| "deallocate_functions OBL_STRING = i_obl_string_deallocate"
| "deallocate_functions (OBL_OTHER u) = (\<lambda>p. failM OutOfBounds)"
| "deallocate_functions t = simple_deallocate"

definition i_obl_deallocate_object :: "ptr \<Rightarrow> unit exec" where
  "i_obl_deallocate_object p =
     bindM (obl_storage_of p) (\<lambda>t. thenM (deallocate_functions t p) (free_object p))"

section \<open>Sets of objects\<close>

definition obl_create_set :: "obl_set_keyfunction \<Rightarrow> obl_set option exec" where
  "obl_create_set kf = bindM malloc (\<lambda>ok.
     retM (if ok then Some \<lparr>set_root = Tip, set_keyfunction = kf\<rparr> else None))"

fun key_of :: "obl_set_keyfunction \<Rightarrow> ptr \<Rightarrow> obl_set_key exec" where
  "key_of logical_address_keyfunction p =
     bindM (get_object p) (\<lambda>x. retM (unat (logical_address x)))"
| "key_of heap_address_keyfunction p = retM p"

definition obl_set_verify :: "obl_set \<Rightarrow> nat" where
  "obl_set_verify oset = verify_r (set_root oset)"

text \<open>A created node: its key and its object. It is red and has no children.\<close>

definition create_node :: "obl_set_keyfunction \<Rightarrow> ptr \<Rightarrow> (obl_set_key \<times> ptr) option exec" where
  "create_node kf p =
     bindM malloc (\<lambda>ok.
       if ok then bindM (key_of kf p) (\<lambda>key. retM (Some (key, p))) else retM None)"

definition obl_set_insert :: "obl_set \<Rightarrow> ptr \<Rightarrow> obl_set exec" where
  "obl_set_insert oset p =
     bindM (create_node (set_keyfunction oset) p) (\<lambda>created.
       case created of
         None \<Rightarrow> retM oset
       | Some (key, x) \<Rightarrow>
           let (root', replaced) = set_insert (set_root oset) key x
           in thenM (case replaced of
                       Some old \<Rightarrow> whenM (old \<noteq> x) (i_obl_deallocate_object old)
                     | None \<Rightarrow> retM ())
                (retM (oset\<lparr>set_root := root'\<rparr>)))"

definition obl_set_lookup :: "obl_set \<Rightarrow> obl_set_key \<Rightarrow> ptr" where
  "obl_set_lookup oset key =
     (case lookup_r (set_root oset) key of None \<Rightarrow> NULL | Some p \<Rightarrow> p)"

definition obl_set_includes :: "obl_set \<Rightarrow> ptr \<Rightarrow> bool exec" where
  "obl_set_includes oset p =
     bindM (key_of (set_keyfunction oset) p) (\<lambda>key. retM (obl_set_lookup oset key = p))"

definition obl_set_remove :: "obl_set \<Rightarrow> ptr \<Rightarrow> obl_set exec" where
  "obl_set_remove oset p =
     bindM (key_of (set_keyfunction oset) p) (\<lambda>key.
       retM (oset\<lparr>set_root := set_remove (set_root oset) key\<rparr>))"

section \<open>Destroying an object\<close>

definition i_obl_database_release :: "ptr \<Rightarrow> unit exec" where
  "i_obl_database_release p =
     bindM (get_object p) (\<lambda>x.
       if obj_session x = NULL then retM ()
       else bindM (get_session (obj_session x)) (\<lambda>s. retM ()))"

definition i_obl_session_release :: "ptr \<Rightarrow> unit exec" where
  "i_obl_session_release p =
     bindM (get_object p) (\<lambda>x.
       let s = obj_session x in
       if s = NULL then retM ()
       else
         thenM (wait_session_mutex s)
         (bindM (get_session s) (\<lambda>r.
          bindM (the_set (read_set r)) (\<lambda>rs.
          bindM (obl_set_remove rs p) (\<lambda>rs'.
          thenM (update_session s (\<lambda>r. r\<lparr>read_set := Some rs'\<rparr>))
          (thenM
            (let t = current_transaction r in
             if t \<noteq> NULL then
               bindM (get_transaction t) (\<lambda>tx.
               bindM (the_set (write_set tx)) (\<lambda>ws.
               bindM (obl_set_remove ws p) (\<lambda>ws'.
                 update_transaction t (\<lambda>tx. tx\<lparr>write_set := Some ws'\<rparr>))))
             else retM ())
            (post_session_mutex s)))))))"

definition obl_destroy_object :: "ptr \<Rightarrow> unit exec" where
  "obl_destroy_object p =
     thenM (i_obl_database_release p)
       (thenM (i_obl_session_release p) (i_obl_deallocate_object p))"

end
