(* ===== verification/Transactions.thy ===== *)
theory Transactions
  imports Objects
begin

text \<open>
  The part of \<open>transaction.c\<close> that every modifying operation uses: allocating and freeing a
  transaction, beginning one, making sure that there is one, and marking an object as changed.
\<close>

definition i_deallocate_transaction :: "ptr \<Rightarrow> unit exec" where
  "i_deallocate_transaction t =
     bindM (get_transaction t) (\<lambda>tx.
       thenM (update_session (tx_session tx) (\<lambda>r. r\<lparr>current_transaction := NULL\<rparr>))
         (free_transaction t))"

definition i_allocate_transaction :: "ptr \<Rightarrow> ptr exec" where
  "i_allocate_transaction s =
     bindM (get_session s) (\<lambda>r.
       if current_transaction r \<noteq> NULL then
         thenM (obl_report_error (ses_database r) OBL_ALREADY_IN_TRANSACTION None) (retM NULL)
       else
         bindM malloc (\<lambda>ok.
           if \<not> ok then
             thenM (obl_report_error (ses_database r) OBL_OUT_OF_MEMORY None) (retM NULL)
           else
             bindM (obl_create_set logical_address_keyfunction) (\<lambda>ws.
             bindM (new_transaction \<lparr>tx_session = s, write_set = ws\<rparr>) (\<lambda>t.
               thenM (update_session s (\<lambda>r. r\<lparr>current_transaction := t\<rparr>)) (retM t)))))"

definition obl_begin_transaction :: "ptr \<Rightarrow> ptr exec" where
  "obl_begin_transaction s =
     thenM (wait_session_mutex s)
       (bindM (i_allocate_transaction s) (\<lambda>t.
          thenM (post_session_mutex s) (retM t)))"

text \<open>
  \<open>obl_ensure_transaction\<close> returns the transaction and, through its second argument, whether it was
  created here. Without a session it leaves that flag as it was.
\<close>

definition obl_ensure_transaction :: "ptr \<Rightarrow> bool \<Rightarrow> (ptr \<times> bool) exec" where
  "obl_ensure_transaction s created =
     (if s = NULL then retM (NULL, created)
      else
        thenM (wait_session_mutex s)
          (bindM (get_session s) (\<lambda>r.
             bindM
               (if current_transaction r \<noteq> NULL then retM (current_transaction r, False)
                else bindM (i_allocate_transaction s) (\<lambda>t. retM (t, True)))
               (\<lambda>result. thenM (post_session_mutex s) (retM result)))))"

definition obl_mark_dirty :: "ptr \<Rightarrow> unit exec" where
  "obl_mark_dirty p =
     bindM (get_object p) (\<lambda>x.
       let s = obj_session x in
       if s = NULL then retM ()
       else
         thenM (wait_session_mutex s)
           (bindM (get_session s) (\<lambda>r.
              let t = current_transaction r in
              if t = NULL then post_session_mutex s
              else
                bindM (get_transaction t) (\<lambda>tx.
                bindM (the_set (write_set tx)) (\<lambda>ws.
                bindM (obl_set_insert ws p) (\<lambda>ws'.
                  thenM (update_transaction t (\<lambda>tx. tx\<lparr>write_set := Some ws'\<rparr>))
                    (post_session_mutex s)))))))"

text \<open>
  The frame of every setter: ensure a transaction on the object's session, mark the object, change
  it, and commit if the transaction was created for this change.
\<close>

definition modify_in_transaction :: "calls \<Rightarrow> ptr \<Rightarrow> unit exec \<Rightarrow> unit exec" where
  "modify_in_transaction k p change =
     bindM (get_object p) (\<lambda>x.
       bindM (obl_ensure_transaction (obj_session x) False) (\<lambda>(t, created).
         thenM (obl_mark_dirty p)
           (thenM change
             (if created then bindM (call_commit_transaction k t) (\<lambda>_. retM ()) else retM ()))))"

end
