(* ===== verification/Values.thy ===== *)
theory Values
  imports Transactions
begin

text \<open>
  The storage modules without references to other objects: \<open>storage/integer.c\<close>, \<open>boolean.c\<close>,
  \<open>nil.c\<close>, \<open>string.c\<close> and \<open>addrtreepage.c\<close>, with creation, access, reading and writing, and the
  functions of \<open>char.c\<close>, \<open>float.c\<close> and \<open>double.c\<close>, which do nothing yet.

  Reading and writing take the database \<open>d\<close> whose \<open>content\<close> the C code passes as \<open>source\<close> or \<open>dest\<close>.
  The converter functions of ICU that strings use are the record \<open>icu\<close>, an argument of the
  definitions that call them.
\<close>

section \<open>Integers\<close>

definition obl_create_integer :: "obl_int \<Rightarrow> ptr exec" where
  "obl_create_integer i =
     bindM i_obl_allocate_object (\<lambda>result.
       if result = NULL then retM NULL
       else with_storage_block result NULL
         (bindM (i_obl_at_fixed_address (fixed_addr OBL_INTEGER_SHAPE_ADDR)) (\<lambda>shape.
            thenM (update_object result (\<lambda>x. x\<lparr>obj_shape := shape,
                     obj_storage := Integer_storage \<lparr>integer_value = i\<rparr>\<rparr>))
              (retM result))))"

definition obl_integer_value :: "ptr \<Rightarrow> obl_int exec" where
  "obl_integer_value p =
     bindM (obl_storage_of p) (\<lambda>t.
       if t \<noteq> OBL_INTEGER then
         thenM (wrong_storage p ''obl_integer_value called with a non-INTEGER object.'') (retM 0)
       else bindM (integer_storage_of p) (\<lambda>st. retM (integer_value st)))"

definition obl_integer_set :: "calls \<Rightarrow> ptr \<Rightarrow> obl_int \<Rightarrow> unit exec" where
  "obl_integer_set k p v =
     bindM (obl_storage_of p) (\<lambda>t.
       if t \<noteq> OBL_INTEGER then
         wrong_storage p ''obl_integer_set requires an object with INTEGER storage.''
       else
         modify_in_transaction k p
           (bindM (integer_storage_of p) (\<lambda>st.
              update_object p
                (\<lambda>x. x\<lparr>obj_storage := Integer_storage (st\<lparr>integer_value := v\<rparr>)\<rparr>))))"

definition obl_integer_read :: "ptr \<Rightarrow> obl_physical_address \<Rightarrow> ptr exec" where
  "obl_integer_read d base =
     bindM (read_cell d (base + 1)) (\<lambda>c. obl_create_integer (readable_int c))"

definition obl_integer_write :: "ptr \<Rightarrow> ptr \<Rightarrow> unit exec" where
  "obl_integer_write p d =
     bindM (obl_integer_value p) (\<lambda>v.
       bindM (get_object p) (\<lambda>x. write_cell d (physical_address x + 1) (writable_int v)))"

section \<open>Booleans and nil\<close>

definition i_obl_create_bool :: "bool \<Rightarrow> ptr exec" where
  "i_obl_create_bool truth =
     bindM i_obl_allocate_object (\<lambda>result.
       if result = NULL then retM NULL
       else with_storage_block result NULL
         (bindM (i_obl_at_fixed_address (fixed_addr OBL_BOOLEAN_SHAPE_ADDR)) (\<lambda>shape.
            thenM (update_object result (\<lambda>x. x\<lparr>obj_shape := shape,
                     obj_storage := Boolean_storage \<lparr>boolean_value = (if truth then 1 else 0)\<rparr>\<rparr>))
              (retM result))))"

definition obl_boolean_value :: "ptr \<Rightarrow> obl_int exec" where
  "obl_boolean_value p =
     bindM (obl_storage_of p) (\<lambda>t.
       if t \<noteq> OBL_BOOLEAN then
         bindM (obl_database_of p) (\<lambda>d.
           thenM (OBL_WARN d (Text ''Non-boolean object: assuming truth.'')) (retM 1))
       else bindM (boolean_storage_of p) (\<lambda>st. retM (boolean_value st)))"

definition i_obl_create_nil :: "ptr exec" where
  "i_obl_create_nil =
     bindM i_obl_allocate_object (\<lambda>result.
       if result = NULL then retM NULL
       else
         bindM (i_obl_at_fixed_address (fixed_addr OBL_NIL_SHAPE_ADDR)) (\<lambda>shape.
           thenM (update_object result (\<lambda>x. x\<lparr>obj_shape := shape, obj_storage := Null_storage\<rparr>))
             (retM result)))"

section \<open>Address tree pages\<close>

definition obl_create_addrtreepage :: "obl_uint \<Rightarrow> ptr exec" where
  "obl_create_addrtreepage depth =
     bindM i_obl_allocate_object (\<lambda>result.
       if result = NULL then retM NULL
       else
         bindM (i_obl_at_fixed_address (fixed_addr OBL_ADDRTREEPAGE_SHAPE_ADDR)) (\<lambda>shape.
           thenM (update_object result (\<lambda>x. x\<lparr>obj_shape := shape\<rparr>))
             (with_storage_block result NULL
               (thenM (update_object result (\<lambda>x. x\<lparr>obj_storage := Addrtreepage_storage
                         \<lparr>page_height = depth,
                          page_contents = replicate CHUNK_SIZE OBL_PHYSICAL_UNASSIGNED\<rparr>\<rparr>))
                 (retM result)))))"

definition obl_addrtreepage_read :: "ptr \<Rightarrow> obl_physical_address \<Rightarrow> ptr exec" where
  "obl_addrtreepage_read d base =
     bindM (read_cell d (base + 1)) (\<lambda>c.
       bindM (obl_create_addrtreepage (readable_uint c)) (\<lambda>result.
         thenM
           (forM [0..<CHUNK_SIZE] (\<lambda>i.
              bindM (read_cell d (base + 2 + of_nat i)) (\<lambda>c.
              bindM (addrtreepage_storage_of result) (\<lambda>st.
                update_object result (\<lambda>x. x\<lparr>obj_storage := Addrtreepage_storage
                  (st\<lparr>page_contents := (page_contents st)[i := readable_uint c]\<rparr>)\<rparr>)))))
           (retM result)))"

definition obl_addrtreepage_write :: "ptr \<Rightarrow> ptr \<Rightarrow> unit exec" where
  "obl_addrtreepage_write p d =
     bindM (get_object p) (\<lambda>x.
     bindM (addrtreepage_storage_of p) (\<lambda>st.
       let base = physical_address x in
       thenM (write_cell d (base + 1) (writable_uint (page_height st)))
         (forM [0..<CHUNK_SIZE] (\<lambda>i.
            bindM (nth_exec (page_contents st) i) (\<lambda>v.
              write_cell d (base + 2 + of_nat i) (writable_uint v))))))"


section \<open>Strings\<close>

text \<open>
  The converter of ICU: the status of \<open>ucnv_open\<close>; for a byte string, the number of its bytes to
  convert and the capacity of the destination in units, the units that the block of the destination
  holds after the call (those that the call does not store included), the length of the full
  conversion and the status; for UTF-16 units and a capacity in bytes the bytes written, the length of
  the full conversion and the status; the name of a status. Lengths and capacities are of the signed
  32-bit type of ICU.
\<close>

record icu =
  ucnv_open :: int
  ucnv_toUChars :: "string \<Rightarrow> int \<Rightarrow> int \<Rightarrow> UChar list \<times> int \<times> int"
  ucnv_fromUChars :: "UChar list \<Rightarrow> nat \<Rightarrow> string \<times> nat \<times> int"
  u_errorName :: "int \<Rightarrow> string"

definition U_FAILURE :: "int \<Rightarrow> bool" where
  "U_FAILURE status \<longleftrightarrow> status > 0"

definition i_allocate_string :: "UChar list \<Rightarrow> obl_uint \<Rightarrow> ptr exec" where
  "i_allocate_string uc len =
     bindM i_obl_allocate_object (\<lambda>result.
       if result = NULL then retM NULL
       else with_storage_block result NULL
         (bindM (i_obl_at_fixed_address (fixed_addr OBL_STRING_SHAPE_ADDR)) (\<lambda>shape.
            thenM (update_object result (\<lambda>x. x\<lparr>obj_shape := shape,
                     obj_storage := String_storage \<lparr>string_length = len, string_contents = uc\<rparr>\<rparr>))
              (retM result))))"

definition obl_create_string :: "UChar list \<Rightarrow> obl_uint \<Rightarrow> ptr exec" where
  "obl_create_string uc len =
     bindM malloc (\<lambda>ok.
       if \<not> ok then thenM (obl_report_error NULL OBL_OUT_OF_MEMORY None) (retM NULL)
       else if length uc < unat len then failM OutOfBounds
       else i_allocate_string (take (unat len) uc) len)"

text \<open>
  The block of a string made from a C string has room for two units for each byte; the string is as
  long as the conversion.
\<close>

definition obl_create_cstring :: "icu \<Rightarrow> string \<Rightarrow> obl_uint \<Rightarrow> ptr exec" where
  "obl_create_cstring u c len =
     (if U_FAILURE (ucnv_open u) then
        thenM (obl_report_errorf NULL OBL_CONVERSION_ERROR
                 ''Error creating Unicode converter: %s'' [Str (u_errorName u (ucnv_open u))])
          (retM NULL)
      else
        bindM malloc (\<lambda>ok.
          if \<not> ok then thenM (obl_report_error NULL OBL_OUT_OF_MEMORY None) (retM NULL)
          else
            let (output, converted_length, status) = ucnv_toUChars u c (sint len) (sint (len * 2))
            in if U_FAILURE status then
                 thenM (obl_report_errorf NULL OBL_CONVERSION_ERROR
                          ''Unicode conversion failure: %s'' [Str (u_errorName u status)])
                   (retM NULL)
               else i_allocate_string output (word_of_int converted_length)))"

text \<open>A C string as an argument, with its \<open>strlen\<close>.\<close>

definition cstring_object :: "icu \<Rightarrow> string \<Rightarrow> ptr exec" where
  "cstring_object u c = obl_create_cstring u c (of_nat (length c))"

definition obl_string_size :: "ptr \<Rightarrow> obl_uint exec" where
  "obl_string_size p =
     bindM (obl_storage_of p) (\<lambda>t.
       if t \<noteq> OBL_STRING then
         thenM (wrong_storage p ''obl_string_size requires an object with STRING storage.'') (retM 0)
       else bindM (string_storage_of p) (\<lambda>st. retM (string_length st)))"

text \<open>Returns the characters put into the buffer and the length of the full conversion.\<close>

definition obl_string_chars :: "icu \<Rightarrow> ptr \<Rightarrow> nat \<Rightarrow> (string \<times> nat) exec" where
  "obl_string_chars u p buffer_size =
     bindM (obl_storage_of p) (\<lambda>t.
       if t \<noteq> OBL_STRING then
         thenM (wrong_storage p ''obl_string_chars requires an object with STRING storage.'')
           (retM ([], 0))
       else if U_FAILURE (ucnv_open u) then
         bindM (obl_database_of p) (\<lambda>d.
           thenM (obl_report_errorf d OBL_CONVERSION_ERROR
                    ''Error opening Unicode converter: %s'' [Str (u_errorName u (ucnv_open u))])
             (retM ([], 0)))
       else
         bindM (string_storage_of p) (\<lambda>st.
           if length (string_contents st) < unat (string_length st) then failM OutOfBounds
           else
             let (buffer, converted_length, status) =
               ucnv_fromUChars u (take (unat (string_length st)) (string_contents st)) buffer_size
             in thenM
                  (if U_FAILURE status then
                     bindM (obl_database_of p) (\<lambda>d.
                       obl_report_errorf d OBL_CONVERSION_ERROR
                         ''Unable to convert string from UTF-16: %s'' [Str (u_errorName u status)])
                   else retM ())
                  (retM (buffer, converted_length))))"

text \<open>
  \<open>memcmp\<close> on the bytes of two arrays of UTF-16 units of a little-endian host. Only the sign of its
  result is defined; the model returns -1, 0 or 1.
\<close>

fun memcmp_bytes :: "nat list \<Rightarrow> nat list \<Rightarrow> int" where
  "memcmp_bytes (a # as) (b # bs) =
     (if a < b then -1 else if b < a then 1 else memcmp_bytes as bs)"
| "memcmp_bytes _ _ = 0"

definition unit_bytes :: "UChar \<Rightarrow> nat list" where
  "unit_bytes ch = [unat (ch AND 0xFF), unat (drop_bit 8 ch)]"

definition memcmp_UChars :: "UChar list \<Rightarrow> UChar list \<Rightarrow> int" where
  "memcmp_UChars xs ys = memcmp_bytes (concat (map unit_bytes xs)) (concat (map unit_bytes ys))"

definition obl_string_cmp :: "ptr \<Rightarrow> ptr \<Rightarrow> int exec" where
  "obl_string_cmp p q =
     bindM (obl_storage_of p) (\<lambda>tp.
       if tp \<noteq> OBL_STRING then retM (-1)
       else bindM (obl_storage_of q) (\<lambda>tq.
         if tq \<noteq> OBL_STRING then retM (-1)
         else
           bindM (obl_string_size p) (\<lambda>len.
           bindM (obl_string_size q) (\<lambda>len'.
             if len' \<noteq> len then retM (-1)
             else
               bindM (string_storage_of p) (\<lambda>sp.
               bindM (string_storage_of q) (\<lambda>sq.
                 if length (string_contents sp) < unat len \<or> length (string_contents sq) < unat len
                 then failM OutOfBounds
                 else retM (memcmp_UChars (take (unat len) (string_contents sp))
                              (take (unat len) (string_contents sq)))))))))"

definition obl_string_ccmp :: "icu \<Rightarrow> ptr \<Rightarrow> string \<Rightarrow> int exec" where
  "obl_string_ccmp u p match =
     bindM (obl_storage_of p) (\<lambda>t.
       if t \<noteq> OBL_STRING then
         thenM (wrong_storage p ''obl_string_ccmp requires a STRING object.'') (retM (-1))
       else
         bindM (cstring_object u match) (\<lambda>temp.
           if temp = NULL then
             bindM (obl_database_of p) (\<lambda>d.
               thenM (obl_report_error d OBL_OUT_OF_MEMORY None) (retM (-1)))
           else
             bindM (obl_string_cmp p temp) (\<lambda>result.
               thenM (obl_destroy_object temp) (retM result))))"

text \<open>
  \<open>obl_string_value\<close> copies the larger of the two lengths: it writes past a buffer that is shorter than
  the string, and reads past the block of the string when the buffer is longer than that. The result
  is what the buffer holds, and the count.
\<close>

definition obl_string_value :: "ptr \<Rightarrow> nat \<Rightarrow> (UChar list \<times> nat) exec" where
  "obl_string_value p buffer_size =
     bindM (obl_storage_of p) (\<lambda>t.
       if t \<noteq> OBL_STRING then
         thenM (wrong_storage p ''obl_string_value called with a non-STRING object.'')
           (retM ([], 0))
       else
         bindM (string_storage_of p) (\<lambda>st.
           let count = (if unat (string_length st) > buffer_size then unat (string_length st)
                        else buffer_size)
           in if length (string_contents st) < count \<or> buffer_size < count then failM OutOfBounds
              else retM (take count (string_contents st), count)))"

definition obl_string_read :: "ptr \<Rightarrow> ptr \<Rightarrow> obl_physical_address \<Rightarrow> ptr exec" where
  "obl_string_read shape d base =
     bindM (read_cell d (base + 1)) (\<lambda>c.
       let len = readable_uint c in
       bindM malloc (\<lambda>ok.
         if \<not> ok then
           bindM (obl_database_of shape) (\<lambda>d'.
             thenM (obl_report_error d' OBL_OUT_OF_MEMORY None) obl_nil)
         else
           let casted_offset = (base + 2) * 2 in
           bindM (mapM (\<lambda>i. bindM (read_half d (casted_offset + of_nat i))
                               (\<lambda>ch. retM (readable_UChar ch))) [0..<unat len]) (\<lambda>contents.
             obl_create_string contents len)))"

definition obl_string_write :: "ptr \<Rightarrow> ptr \<Rightarrow> unit exec" where
  "obl_string_write p d =
     bindM (obl_string_size p) (\<lambda>len.
     bindM (get_object p) (\<lambda>x.
       thenM (write_cell d (physical_address x + 1) (writable_uint len))
         (let casted_offset = (physical_address x + 2) * 2 in
          forM [0..<unat len] (\<lambda>i.
            bindM (string_storage_of p) (\<lambda>st.
            bindM (nth_exec (string_contents st) i) (\<lambda>ch.
              write_half d (casted_offset + of_nat i) (writable_UChar ch)))))))"

section \<open>Characters, floats and doubles\<close>

text \<open>No object of these storage types can be made: the sources answer the null pointer. The arguments
  are a C character, and a float and a double by their bits.\<close>

definition obl_create_char :: "ptr \<Rightarrow> 8 word \<Rightarrow> ptr exec" where
  "obl_create_char d c = retM NULL"

definition obl_create_uchar :: "ptr \<Rightarrow> UChar32 \<Rightarrow> ptr exec" where
  "obl_create_uchar d uc = retM NULL"

definition obl_char_print :: "ptr \<Rightarrow> int \<Rightarrow> unit exec" where
  "obl_char_print c depth = retM ()"

definition obl_create_float :: "ptr \<Rightarrow> 32 word \<Rightarrow> ptr exec" where
  "obl_create_float d f = retM NULL"

definition obl_create_double :: "ptr \<Rightarrow> 64 word \<Rightarrow> ptr exec" where
  "obl_create_double d dbl = retM NULL"

section \<open>Stubs\<close>

definition i_obl_create_stub :: "calls \<Rightarrow> ptr \<Rightarrow> obl_logical_address \<Rightarrow> ptr exec" where
  "i_obl_create_stub k s address =
     bindM i_obl_allocate_object (\<lambda>result.
       if result = NULL then retM NULL
       else
         bindM malloc (\<lambda>ok.
           bindM (get_session s) (\<lambda>r.
             if \<not> ok then
               thenM (free_object result)
                 (thenM (obl_report_error (ses_database r) OBL_OUT_OF_MEMORY None) (retM NULL))
             else
               bindM (get_database (ses_database r)) (\<lambda>db.
               bindM (call_at_address_depth k s (fixed_addr OBL_STUB_SHAPE_ADDR)
                        (default_stub_depth (configuration db)) True) (\<lambda>shape.
                 thenM (update_object result (\<lambda>x. x\<lparr>obj_shape := shape,
                          obj_storage := Stub_storage \<lparr>stub_value = address\<rparr>,
                          logical_address := address, obj_session := s\<rparr>))
                   (retM result))))))"

end
