(* ===== verification/Collections.thy ===== *)
theory Collections
  imports Values
begin

text \<open>
  The storage modules with references to other objects: \<open>storage/fixed.c\<close>, \<open>storage/shape.c\<close> and
  \<open>storage/slotted.c\<close>, with creation, access by index and by name, and writing. A slot may hold a
  stub; reading it resolves the stub, writing it to the database does not.
\<close>

section \<open>Fixed collections\<close>

definition obl_create_fixed :: "obl_uint \<Rightarrow> ptr exec" where
  "obl_create_fixed len =
     bindM i_obl_allocate_object (\<lambda>result.
       if result = NULL then retM NULL
       else with_storage_block result NULL
         (bindM (i_obl_at_fixed_address (fixed_addr OBL_FIXED_SHAPE_ADDR)) (\<lambda>shape.
            with_storage_block result NULL
              (bindM obl_nil (\<lambda>nil.
                 thenM (update_object result (\<lambda>x. x\<lparr>obj_shape := shape, obj_storage :=
                          Fixed_storage \<lparr>fixed_length = len,
                            fixed_contents = replicate (unat len) nil\<rparr>\<rparr>))
                   (retM result))))))"

definition obl_fixed_size :: "ptr \<Rightarrow> obl_uint exec" where
  "obl_fixed_size p =
     bindM (obl_storage_of p) (\<lambda>t.
       if t \<noteq> OBL_FIXED then
         thenM (wrong_storage p ''obl_fixed_size requires an object with FIXED storage.'') (retM 0)
       else bindM (fixed_storage_of p) (\<lambda>st. retM (fixed_length st)))"

text \<open>The index check that the accessors of fixed and slotted objects share.\<close>

definition invalid_index :: "ptr \<Rightarrow> string \<Rightarrow> obl_uint \<Rightarrow> obl_uint \<Rightarrow> unit exec" where
  "invalid_index p format index maximum =
     bindM (obl_database_of p) (\<lambda>d.
       obl_report_errorf d OBL_INVALID_INDEX format [Num (sint index), Num (sint (maximum - 1))])"

definition obl_fixed_at :: "calls \<Rightarrow> ptr \<Rightarrow> obl_uint \<Rightarrow> ptr exec" where
  "obl_fixed_at k p index =
     bindM (obl_storage_of p) (\<lambda>t.
       if t \<noteq> OBL_FIXED then
         thenM (wrong_storage p ''obl_fixed_at requires an object with FIXED storage.'') obl_nil
       else
         bindM (obl_fixed_size p) (\<lambda>size.
           if index \<ge> size then
             thenM (invalid_index p ''obl_fixed_at called with an invalid index (%d, valid 0..%d)''
                      index size)
               obl_nil
           else
             bindM (fixed_storage_of p) (\<lambda>st.
             bindM (nth_exec (fixed_contents st) (unat index)) (\<lambda>q.
               i_obl_resolve_stub k q))))"

definition set_fixed_content :: "ptr \<Rightarrow> obl_uint \<Rightarrow> ptr \<Rightarrow> unit exec" where
  "set_fixed_content p index v =
     bindM (fixed_storage_of p) (\<lambda>st.
       thenM (nth_exec (fixed_contents st) (unat index))
         (update_object p (\<lambda>x. x\<lparr>obj_storage := Fixed_storage
            (st\<lparr>fixed_contents := (fixed_contents st)[unat index := v]\<rparr>)\<rparr>)))"

definition obl_fixed_at_put :: "calls \<Rightarrow> ptr \<Rightarrow> obl_uint \<Rightarrow> ptr \<Rightarrow> unit exec" where
  "obl_fixed_at_put k p index v =
     bindM (obl_storage_of p) (\<lambda>t.
       if t \<noteq> OBL_FIXED then
         wrong_storage p ''obl_fixed_at requires an object with FIXED storage.''
       else
         bindM (obl_fixed_size p) (\<lambda>size.
           if index \<ge> size then
             invalid_index p ''obl_fixed_at_put called with an invalid index (%d, valid 0..%d)''
               index size
           else modify_in_transaction k p (set_fixed_content p index v)))"

text \<open>The address word of a referenced object, which the write functions store.\<close>

definition address_word :: "ptr \<Rightarrow> obl_uint exec" where
  "address_word q = bindM (get_object q) (\<lambda>x. retM (writable_uint (logical_address x)))"

definition obl_fixed_write :: "ptr \<Rightarrow> ptr \<Rightarrow> unit exec" where
  "obl_fixed_write p d =
     bindM (obl_fixed_size p) (\<lambda>len.
     bindM (get_object p) (\<lambda>x.
       thenM (write_cell d (physical_address x + 1) (writable_uint len))
         (forM [0..<unat len] (\<lambda>i.
            bindM (fixed_storage_of p) (\<lambda>st.
            bindM (nth_exec (fixed_contents st) i) (\<lambda>linked.
            bindM (address_word linked) (\<lambda>v.
              write_cell d (physical_address x + 2 + of_nat i) v)))))))"

definition i_obl_fixed_children :: "ptr \<Rightarrow> ptr list exec" where
  "i_obl_fixed_children p =
     bindM (fixed_storage_of p) (\<lambda>st.
     bindM (get_object p) (\<lambda>x.
       foldM (\<lambda>i results. bindM (nth_exec (fixed_contents st) i) (\<lambda>q. retM (q # results)))
         [0..<unat (fixed_length st)] [obj_shape x]))"

section \<open>Shapes\<close>

definition obl_create_shape :: "ptr \<Rightarrow> ptr \<Rightarrow> obl_storage_type \<Rightarrow> ptr exec" where
  "obl_create_shape name slot_names type =
     bindM i_obl_allocate_object (\<lambda>result.
       if result = NULL then retM NULL
       else with_storage_block result NULL
         (bindM obl_nil (\<lambda>nil.
            thenM (update_object result (\<lambda>x. x\<lparr>obj_shape := nil, obj_storage := Shape_storage
                     \<lparr>shape_name = name, shape_slot_names = slot_names,
                      shape_current_shape = nil, shape_storage_format = storage_code type\<rparr>\<rparr>))
              (retM result))))"

text \<open>Destroy the slot names that were put into the collection so far.\<close>

definition destroy_slot_names :: "calls \<Rightarrow> ptr \<Rightarrow> nat \<Rightarrow> unit exec" where
  "destroy_slot_names k slots_ob n =
     forM [0..<n] (\<lambda>j. bindM (obl_fixed_at k slots_ob (of_nat j)) obl_destroy_object)"

text \<open>
  The loop of \<open>obl_create_cshape\<close> over the slot names. It ends with \<open>False\<close> when a name could not be
  created and everything was destroyed again.
\<close>

fun create_slot_names :: "icu \<Rightarrow> calls \<Rightarrow> ptr \<Rightarrow> ptr \<Rightarrow> nat \<Rightarrow> string list \<Rightarrow> bool exec" where
  "create_slot_names u k name_ob slots_ob i [] = retM True"
| "create_slot_names u k name_ob slots_ob i (slot_name # rest) =
     bindM (cstring_object u slot_name) (\<lambda>slot_name_ob.
       if slot_name_ob = NULL then
         thenM (destroy_slot_names k slots_ob i)
           (thenM (obl_destroy_object slots_ob)
             (thenM (obl_destroy_object name_ob)
               (thenM (obl_report_error NULL OBL_OUT_OF_MEMORY None) (retM False))))
       else
         thenM (obl_fixed_at_put k slots_ob (of_nat i) slot_name_ob)
           (create_slot_names u k name_ob slots_ob (Suc i) rest))"

definition obl_create_cshape ::
    "icu \<Rightarrow> calls \<Rightarrow> string \<Rightarrow> string list \<Rightarrow> obl_storage_type \<Rightarrow> ptr exec" where
  "obl_create_cshape u k name slot_names type =
     (let slot_count = length slot_names in
      bindM (cstring_object u name) (\<lambda>name_ob.
        if name_ob = NULL then
          thenM (obl_report_error NULL OBL_OUT_OF_MEMORY None) (retM NULL)
        else
          bindM (obl_create_fixed (of_nat slot_count)) (\<lambda>slots_ob.
            if slots_ob = NULL then
              thenM (obl_destroy_object name_ob)
                (thenM (obl_report_error NULL OBL_OUT_OF_MEMORY None) (retM NULL))
            else
              bindM (create_slot_names u k name_ob slots_ob 0 slot_names) (\<lambda>ok.
                if \<not> ok then retM NULL
                else
                  bindM (obl_create_shape name_ob slots_ob type) (\<lambda>result.
                    if result = NULL then
                      thenM (destroy_slot_names k slots_ob slot_count)
                        (thenM (obl_destroy_object slots_ob)
                          (thenM (obl_destroy_object name_ob)
                            (thenM (obl_report_error NULL OBL_OUT_OF_MEMORY None) (retM NULL))))
                    else retM result)))))"

definition obl_shape_name :: "calls \<Rightarrow> ptr \<Rightarrow> ptr exec" where
  "obl_shape_name k shape =
     bindM (obl_storage_of shape) (\<lambda>t.
       if t \<noteq> OBL_SHAPE then
         thenM (wrong_storage shape ''obl_shape_name invoked with a non SHAPE object.'') obl_nil
       else bindM (shape_storage_of shape) (\<lambda>st. i_obl_resolve_stub k (shape_name st)))"

definition obl_shape_slotnames :: "calls \<Rightarrow> ptr \<Rightarrow> ptr exec" where
  "obl_shape_slotnames k shape =
     bindM (obl_storage_of shape) (\<lambda>t.
       if t \<noteq> OBL_SHAPE then
         thenM (wrong_storage shape ''obl_shape_slotnames invoked with a non SHAPE object.'') obl_nil
       else bindM (shape_storage_of shape) (\<lambda>st. i_obl_resolve_stub k (shape_slot_names st)))"

definition obl_shape_slotcount :: "calls \<Rightarrow> ptr \<Rightarrow> obl_uint exec" where
  "obl_shape_slotcount k shape =
     bindM (obl_storage_of shape) (\<lambda>t.
       if t \<noteq> OBL_SHAPE then
         thenM (wrong_storage shape ''obl_shape_slotcount invoked with a non SHAPE object.'')
           (retM OBL_SENTINEL)
       else bindM (obl_shape_slotnames k shape) obl_fixed_size)"

text \<open>
  The search loop of \<open>obl_shape_slotnamed\<close> asks for the size of the collection at every step. The
  first argument bounds the number of steps; a 32-bit index is exhausted after \<open>2 ^ 32\<close> of them.
\<close>

fun slot_search :: "calls \<Rightarrow> ptr \<Rightarrow> ptr \<Rightarrow> nat \<Rightarrow> obl_uint \<Rightarrow> obl_uint exec" where
  "slot_search k slots_ob name 0 i = failM OutOfFuel"
| "slot_search k slots_ob name (Suc n) i =
     bindM (obl_fixed_size slots_ob) (\<lambda>size.
       if i < size then
         bindM (obl_fixed_at k slots_ob i) (\<lambda>slot_name.
         bindM (obl_string_cmp slot_name name) (\<lambda>c.
           if c = 0 then retM i else slot_search k slots_ob name n (i + 1)))
       else retM OBL_SENTINEL)"

definition obl_shape_slotnamed :: "calls \<Rightarrow> ptr \<Rightarrow> ptr \<Rightarrow> obl_uint exec" where
  "obl_shape_slotnamed k shape name =
     bindM (obl_storage_of shape) (\<lambda>t.
       if t \<noteq> OBL_SHAPE then
         thenM (wrong_storage shape ''obl_shape_slotnamed invoked with a non SHAPE object.'')
           (retM OBL_SENTINEL)
       else
         bindM (obl_shape_slotnames k shape) (\<lambda>slots_ob.
         bindM (obl_fixed_size slots_ob) (\<lambda>size.
           slot_search k slots_ob name (Suc (unat size)) 0)))"

definition obl_shape_slotcnamed :: "icu \<Rightarrow> calls \<Rightarrow> ptr \<Rightarrow> string \<Rightarrow> obl_uint exec" where
  "obl_shape_slotcnamed u k shape name =
     bindM (obl_storage_of shape) (\<lambda>t.
       if t \<noteq> OBL_SHAPE then
         thenM (wrong_storage shape ''obl_shape_slotcnamed invoked with a non SHAPE object.'')
           (retM OBL_SENTINEL)
       else
         bindM (cstring_object u name) (\<lambda>temporary.
           if temporary = NULL then retM OBL_SENTINEL
           else
             bindM (obl_shape_slotnamed k shape temporary) (\<lambda>result.
               thenM (obl_destroy_object temporary) (retM result))))"

definition obl_shape_currentshape :: "calls \<Rightarrow> ptr \<Rightarrow> ptr exec" where
  "obl_shape_currentshape k shape =
     bindM (obl_storage_of shape) (\<lambda>t.
       if t \<noteq> OBL_SHAPE then
         thenM (wrong_storage shape ''obl_shape_currentshape invoked with a non SHAPE object.'')
           obl_nil
       else bindM (shape_storage_of shape) (\<lambda>st. i_obl_resolve_stub k (shape_current_shape st)))"

definition obl_destroy_cshape :: "calls \<Rightarrow> ptr \<Rightarrow> unit exec" where
  "obl_destroy_cshape k shape =
     bindM (shape_storage_of shape) (\<lambda>st.
       thenM (obl_destroy_object (shape_name st))
         (bindM (obl_fixed_size (shape_slot_names st)) (\<lambda>slot_count.
            thenM (destroy_slot_names k (shape_slot_names st) (nat (sint slot_count)))
              (obl_destroy_object (shape_slot_names st)))))"

definition obl_shape_write :: "ptr \<Rightarrow> ptr \<Rightarrow> unit exec" where
  "obl_shape_write shape d =
     bindM (shape_storage_of shape) (\<lambda>st.
     bindM (get_object shape) (\<lambda>x.
       let base = physical_address x in
       thenM (bindM (address_word (shape_name st)) (write_cell d (base + 1)))
       (thenM (bindM (address_word (shape_slot_names st)) (write_cell d (base + 2)))
       (thenM (bindM (address_word (shape_current_shape st)) (write_cell d (base + 3)))
         (bindM (obl_shape_storagetype shape) (\<lambda>t.
            write_cell d (base + 4) (writable_uint (storage_code t))))))))"

definition i_obl_shape_children :: "ptr \<Rightarrow> ptr list exec" where
  "i_obl_shape_children shape =
     bindM (shape_storage_of shape) (\<lambda>st.
     bindM (get_object shape) (\<lambda>x.
       retM [shape_current_shape st, shape_slot_names st, shape_name st, obj_shape x]))"

section \<open>Slotted objects\<close>

definition obl_create_slotted :: "calls \<Rightarrow> ptr \<Rightarrow> ptr exec" where
  "obl_create_slotted k shape =
     bindM (obl_storage_of shape) (\<lambda>t.
       if t \<noteq> OBL_SHAPE then
         thenM (wrong_storage shape ''obl_create_slotted requires a SHAPE object.'') (retM NULL)
       else
         bindM i_obl_allocate_object (\<lambda>result.
           if result = NULL then retM NULL
           else
             bindM (obl_database_of shape) (\<lambda>d.
               with_storage_block result d
                 (thenM (update_object result (\<lambda>x. x\<lparr>obj_shape := shape\<rparr>))
                    (bindM (obl_shape_slotcount k shape) (\<lambda>slot_count.
                       with_storage_block result d
                         (bindM obl_nil (\<lambda>nil.
                            thenM (update_object result (\<lambda>x. x\<lparr>obj_storage := Slotted_storage
                                     \<lparr>slots = replicate (unat slot_count) nil\<rparr>\<rparr>))
                              (retM result)))))))))"

definition obl_slotted_at :: "calls \<Rightarrow> ptr \<Rightarrow> obl_uint \<Rightarrow> ptr exec" where
  "obl_slotted_at k p index =
     bindM (obl_storage_of p) (\<lambda>t.
       if t \<noteq> OBL_SLOTTED then
         thenM (wrong_storage p ''obl_slotted_at requires a SLOTTED object.'') obl_nil
       else
         bindM (obl_object_shape p) (\<lambda>shape.
         bindM (obl_shape_slotcount k shape) (\<lambda>maximum.
           if index \<ge> maximum then
             thenM (invalid_index p ''obl_slotted_at called with an invalid index (%d, valid 0..%d)''
                      index maximum)
               obl_nil
           else
             bindM (slotted_storage_of p) (\<lambda>st.
             bindM (nth_exec (slots st) (unat index)) (\<lambda>q.
               i_obl_resolve_stub k q)))))"

definition obl_slotted_atnamed :: "calls \<Rightarrow> ptr \<Rightarrow> ptr \<Rightarrow> ptr exec" where
  "obl_slotted_atnamed k p slotname =
     bindM (obl_object_shape p) (\<lambda>shape.
     bindM (obl_shape_slotnamed k shape slotname) (obl_slotted_at k p))"

definition obl_slotted_atcnamed :: "icu \<Rightarrow> calls \<Rightarrow> ptr \<Rightarrow> string \<Rightarrow> ptr exec" where
  "obl_slotted_atcnamed u k p slotname =
     bindM (obl_object_shape p) (\<lambda>shape.
     bindM (obl_shape_slotcnamed u k shape slotname) (obl_slotted_at k p))"

definition set_slot :: "ptr \<Rightarrow> obl_uint \<Rightarrow> ptr \<Rightarrow> unit exec" where
  "set_slot p index v =
     bindM (slotted_storage_of p) (\<lambda>st.
       thenM (nth_exec (slots st) (unat index))
         (update_object p (\<lambda>x. x\<lparr>obj_storage := Slotted_storage
            (st\<lparr>slots := (slots st)[unat index := v]\<rparr>)\<rparr>)))"

definition obl_slotted_at_put :: "calls \<Rightarrow> ptr \<Rightarrow> obl_uint \<Rightarrow> ptr \<Rightarrow> unit exec" where
  "obl_slotted_at_put k p index v =
     bindM (obl_storage_of p) (\<lambda>t.
       if t \<noteq> OBL_SLOTTED then wrong_storage p ''obl_slotted_at_put requires a SLOTTED object.''
       else
         bindM (obl_object_shape p) (\<lambda>shape.
         bindM (obl_shape_slotcount k shape) (\<lambda>maximum.
           if index \<ge> maximum then
             invalid_index p ''obl_slotted_at_put called with an invalid index (%d, valid 0..%d)''
               index maximum
           else modify_in_transaction k p (set_slot p index v))))"

definition obl_slotted_atnamed_put :: "calls \<Rightarrow> ptr \<Rightarrow> ptr \<Rightarrow> ptr \<Rightarrow> unit exec" where
  "obl_slotted_atnamed_put k p slotname v =
     bindM (obl_object_shape p) (\<lambda>shape.
     bindM (obl_shape_slotnamed k shape slotname) (\<lambda>i. obl_slotted_at_put k p i v))"

definition obl_slotted_atcnamed_put :: "icu \<Rightarrow> calls \<Rightarrow> ptr \<Rightarrow> string \<Rightarrow> ptr \<Rightarrow> unit exec" where
  "obl_slotted_atcnamed_put u k p slotname v =
     bindM (obl_object_shape p) (\<lambda>shape.
     bindM (obl_shape_slotcnamed u k shape slotname) (\<lambda>i. obl_slotted_at_put k p i v))"

definition obl_slotted_write :: "calls \<Rightarrow> ptr \<Rightarrow> ptr \<Rightarrow> unit exec" where
  "obl_slotted_write k p d =
     bindM (get_object p) (\<lambda>x.
     bindM (obl_shape_slotcount k (obj_shape x)) (\<lambda>slot_count.
       forM [0..<unat slot_count] (\<lambda>i.
         bindM (slotted_storage_of p) (\<lambda>st.
         bindM (nth_exec (slots st) i) (\<lambda>linked.
         bindM (address_word linked) (\<lambda>v.
           write_cell d (physical_address x + 1 + of_nat i) v))))))"

text \<open>
  The loop of \<open>_obl_slotted_children\<close> asks for the slot count at every step. It cannot run longer
  than the array of slots without leaving it.
\<close>

fun slotted_children_loop :: "calls \<Rightarrow> ptr \<Rightarrow> ptr list \<Rightarrow> nat \<Rightarrow> nat \<Rightarrow> ptr list \<Rightarrow> ptr list exec" where
  "slotted_children_loop k shape array 0 i results = failM OutOfFuel"
| "slotted_children_loop k shape array (Suc n) i results =
     bindM (obl_shape_slotcount k shape) (\<lambda>slot_count.
       if i < unat slot_count then
         bindM (nth_exec array i) (\<lambda>q.
           slotted_children_loop k shape array n (Suc i) (q # results))
       else retM results)"

definition i_obl_slotted_children :: "calls \<Rightarrow> ptr \<Rightarrow> ptr list exec" where
  "i_obl_slotted_children k p =
     bindM (slotted_storage_of p) (\<lambda>st.
     bindM (get_object p) (\<lambda>x.
       slotted_children_loop k (obj_shape x) (slots st) (Suc (length (slots st))) 0 [obj_shape x]))"

end
