(* ===== verification/ObjectIO.thy ===== *)
theory ObjectIO
  imports Collections
begin

text \<open>
  Storage dispatch in \<open>storage/object.c\<close>: the tables of reading, writing and child functions, the
  size of an object in words, and reading and writing an object with its shape word. The read
  functions of shapes, fixed and slotted objects are here too, since they load what they refer to.
  Indexing a table with a number outside of the enumeration is the \<open>Fault\<close> \<open>OutOfBounds\<close>.
\<close>

section \<open>Reading what holds references\<close>

definition obl_shape_read ::
    "calls \<Rightarrow> ptr \<Rightarrow> ptr \<Rightarrow> ptr \<Rightarrow> obl_physical_address \<Rightarrow> int \<Rightarrow> ptr exec" where
  "obl_shape_read k s shape d base depth =
     (let load = (\<lambda>i. bindM (read_cell d (base + i)) (\<lambda>c.
            call_at_address_depth k s (readable_logical c) (depth - 1) False))
      in bindM (load 1) (\<lambda>name.
         bindM (load 2) (\<lambda>slot_names.
         bindM (load 3) (\<lambda>current_shape.
         bindM (read_cell d (base + 4)) (\<lambda>c.
           let storage_format = readable_uint c in
           thenM
             (if storage_format > OBL_STORAGE_TYPE_MAX then
                bindM (obl_database_of shape) (\<lambda>d'.
                  obl_report_errorf d' OBL_WRONG_STORAGE
                    ''Shape at physical address %ul has invalid storage format.''
                    [Num (uint base)])
              else retM ())
             (bindM (obl_create_shape name slot_names (storage_type_of storage_format)) (\<lambda>result.
              bindM (shape_storage_of result) (\<lambda>st.
                thenM (update_object result (\<lambda>x. x\<lparr>obj_storage :=
                         Shape_storage (st\<lparr>shape_current_shape := current_shape\<rparr>)\<rparr>))
                  (retM result)))))))))"

text \<open>Not in the dispatch table: fixed collections are never read back.\<close>

definition obl_fixed_read :: "calls \<Rightarrow> ptr \<Rightarrow> ptr \<Rightarrow> obl_physical_address \<Rightarrow> int \<Rightarrow> ptr exec" where
  "obl_fixed_read k s d base depth =
     bindM (read_cell d (base + 1)) (\<lambda>c.
       let len = readable_uint c in
       bindM (obl_create_fixed len) (\<lambda>p.
         thenM
           (forM [0..<unat len] (\<lambda>i.
              bindM (read_cell d (base + 2 + of_nat i)) (\<lambda>c.
              bindM (call_at_address_depth k s (readable_logical c) (depth - 1) False) (\<lambda>linked.
                obl_fixed_at_put k p (of_nat i) linked))))
           (retM p)))"

definition obl_slotted_read ::
    "calls \<Rightarrow> ptr \<Rightarrow> ptr \<Rightarrow> ptr \<Rightarrow> obl_physical_address \<Rightarrow> int \<Rightarrow> ptr exec" where
  "obl_slotted_read k s shape d base depth =
     bindM (obl_create_slotted k shape) (\<lambda>result.
     bindM (obl_shape_slotcount k shape) (\<lambda>slot_count.
       thenM
         (forM [0..<unat slot_count] (\<lambda>i.
            bindM (read_cell d (base + 1 + of_nat i)) (\<lambda>c.
            bindM (call_at_address_depth k s (readable_logical c) (depth - 1) False) (\<lambda>linked.
              obl_slotted_at_put k result (of_nat i) linked))))
         (retM result)))"

section \<open>Dispatch tables\<close>

definition invalid_read :: "ptr \<Rightarrow> obl_physical_address \<Rightarrow> ptr exec" where
  "invalid_read s base =
     bindM (get_session s) (\<lambda>r.
       thenM (obl_report_errorf (ses_database r) OBL_WRONG_STORAGE
                ''Attempt to read an object (0x%04lx) with an invalid storage type.''
                [Num (uint base)])
         obl_nil)"

fun read_functions :: "obl_storage_type \<Rightarrow> calls \<Rightarrow> ptr \<Rightarrow> ptr \<Rightarrow> ptr \<Rightarrow>
      obl_physical_address \<Rightarrow> int \<Rightarrow> ptr exec" where
  "read_functions OBL_SHAPE k s shape d base depth = obl_shape_read k s shape d base depth"
| "read_functions OBL_SLOTTED k s shape d base depth = obl_slotted_read k s shape d base depth"
| "read_functions OBL_ADDRTREEPAGE k s shape d base depth = obl_addrtreepage_read d base"
| "read_functions OBL_INTEGER k s shape d base depth = obl_integer_read d base"
| "read_functions OBL_STRING k s shape d base depth = obl_string_read shape d base"
| "read_functions (OBL_OTHER u) k s shape d base depth = failM OutOfBounds"
| "read_functions t k s shape d base depth = invalid_read s base"

definition invalid_write :: "ptr \<Rightarrow> unit exec" where
  "invalid_write p =
     bindM (obl_database_of p) (\<lambda>d.
     bindM (obl_storage_of p) (\<lambda>t.
       obl_report_errorf d OBL_WRONG_STORAGE
         ''Attempt to write an object with an invalid storage type (%lu).''
         [Num (uint (storage_code t))]))"

fun write_functions :: "obl_storage_type \<Rightarrow> calls \<Rightarrow> ptr \<Rightarrow> ptr \<Rightarrow> unit exec" where
  "write_functions OBL_SHAPE k p d = obl_shape_write p d"
| "write_functions OBL_SLOTTED k p d = obl_slotted_write k p d"
| "write_functions OBL_FIXED k p d = obl_fixed_write p d"
| "write_functions OBL_ADDRTREEPAGE k p d = obl_addrtreepage_write p d"
| "write_functions OBL_INTEGER k p d = obl_integer_write p d"
| "write_functions OBL_STRING k p d = obl_string_write p d"
| "write_functions (OBL_OTHER u) k p d = failM OutOfBounds"
| "write_functions t k p d = invalid_write p"

fun children_functions :: "obl_storage_type \<Rightarrow> calls \<Rightarrow> ptr \<Rightarrow> ptr list exec" where
  "children_functions OBL_SHAPE k p = i_obl_shape_children p"
| "children_functions OBL_SLOTTED k p = i_obl_slotted_children k p"
| "children_functions OBL_FIXED k p = i_obl_fixed_children p"
| "children_functions (OBL_OTHER u) k p = failM OutOfBounds"
| "children_functions t k p = retM []"

section \<open>Whole objects\<close>

text \<open>The quotients of \<open>sizeof\<close> in the C text: 4 for \<open>obl_uint\<close> and \<open>UChar32\<close>, 2 for \<open>UChar\<close>.\<close>

definition obl_object_wordsize :: "calls \<Rightarrow> ptr \<Rightarrow> obl_uint exec" where
  "obl_object_wordsize k p =
     bindM (obl_storage_of p) (\<lambda>t.
       case t of
         OBL_SHAPE \<Rightarrow> retM 5
       | OBL_SLOTTED \<Rightarrow>
           bindM (get_object p) (\<lambda>x.
           bindM (obl_shape_slotcount k (obj_shape x)) (\<lambda>n. retM (1 + n)))
       | OBL_FIXED \<Rightarrow> bindM (obl_fixed_size p) (\<lambda>n. retM (1 + n))
       | OBL_CHUNK \<Rightarrow> retM (2 + of_nat CHUNK_SIZE)
       | OBL_ADDRTREEPAGE \<Rightarrow> retM (2 + of_nat CHUNK_SIZE)
       | OBL_INTEGER \<Rightarrow> retM 2
       | OBL_FLOAT \<Rightarrow> retM (1 + 32 div 4)
       | OBL_DOUBLE \<Rightarrow> retM (1 + 64 div 4)
       | OBL_CHAR \<Rightarrow> retM (1 + 4 div 4)
       | OBL_STRING \<Rightarrow> bindM (obl_string_size p) (\<lambda>n. retM (1 + n * (4 div 2)))
       | OBL_BOOLEAN \<Rightarrow> retM 2
       | OBL_NIL \<Rightarrow> retM 2
       | _ \<Rightarrow>
           thenM (wrong_storage p
                    ''obl_object_wordsize called with an object of unknown storage.'')
             (retM 0))"

text \<open>
  The dispatch index of a shape object: \<open>OBL_SHAPE\<close> for nil. The first argument is what happens when
  the object is not a shape at all.
\<close>

definition with_function_index :: "'a exec \<Rightarrow> ptr \<Rightarrow> (obl_storage_type \<Rightarrow> 'a exec) \<Rightarrow> 'a exec" where
  "with_function_index corrupt shape continue =
     bindM obl_nil (\<lambda>nil.
       if shape \<noteq> nil then
         bindM (obl_storage_of shape) (\<lambda>t.
           if t \<noteq> OBL_SHAPE then corrupt
           else bindM (obl_shape_storagetype shape) continue)
       else continue OBL_SHAPE)"

definition obl_read_object ::
    "calls \<Rightarrow> ptr \<Rightarrow> ptr \<Rightarrow> obl_physical_address \<Rightarrow> int \<Rightarrow> ptr exec" where
  "obl_read_object k s d base depth =
     bindM (get_session s) (\<lambda>r.
     bindM (read_cell d base) (\<lambda>c.
     bindM (call_at_address_depth k s (readable_logical c) 3 False) (\<lambda>shape.
       with_function_index
         (thenM (obl_report_errorf (ses_database r) OBL_WRONG_STORAGE
                   ''Corrupt shape header at physical address %ul.'' [Num (uint base)])
            obl_nil)
         shape
         (\<lambda>function_index.
            bindM (read_functions function_index k s shape d base depth) (\<lambda>result.
              thenM (update_object result (\<lambda>x. x\<lparr>obj_shape := shape, physical_address := base\<rparr>))
                (retM result))))))"

definition obl_write_object :: "calls \<Rightarrow> ptr \<Rightarrow> ptr \<Rightarrow> unit exec" where
  "obl_write_object k p d =
     bindM (obl_object_shape p) (\<lambda>shape.
       with_function_index
         (wrong_storage p ''Attempt to write an object with a shape that isn't a shape.'')
         shape
         (\<lambda>function_index.
            thenM
              (bindM (get_object shape) (\<lambda>sx.
               bindM (get_object p) (\<lambda>x.
                 write_cell d (physical_address x) (writable_logical (logical_address sx)))))
              (write_functions function_index k p d)))"

definition i_obl_children :: "calls \<Rightarrow> ptr \<Rightarrow> ptr list exec" where
  "i_obl_children k p = bindM (obl_storage_of p) (\<lambda>t. children_functions t k p)"

text \<open>\<open>obl_object_list_append\<close> puts an object in front of the list.\<close>

definition obl_object_list_append :: "ptr list \<Rightarrow> ptr \<Rightarrow> ptr list" where
  "obl_object_list_append list p = p # list"

end
