(* ===== verification/Sessions.thy ===== *)
theory Sessions
  imports ObjectIO
begin

text \<open>
  \<open>session.c\<close>: creating and destroying sessions, the list of sessions of a database, access by
  address, and refreshing objects from the database; with \<open>obl_abort_transaction\<close> of
  \<open>transaction.c\<close>, which destroying a session needs. A list of sessions is the list of the entries of
  its cells, the head first.
\<close>

section \<open>The session list\<close>

definition obl_session_list_append :: "ptr list \<Rightarrow> ptr \<Rightarrow> ptr list" where
  "obl_session_list_append list s = s # list"

text \<open>
  The loop of \<open>obl_session_list_remove\<close>. The first argument is \<open>*list\<close>, the second the cells from
  \<open>current\<close> on. The variable \<open>previous\<close> is never assigned, so each match makes \<open>*list\<close> the rest.
\<close>

fun session_list_scan :: "ptr list \<Rightarrow> ptr list \<Rightarrow> ptr \<Rightarrow> ptr list" where
  "session_list_scan list [] s = list"
| "session_list_scan list (entry # next) s =
     (if entry = s then session_list_scan next next s else session_list_scan list next s)"

definition obl_session_list_remove :: "ptr list \<Rightarrow> ptr \<Rightarrow> ptr list" where
  "obl_session_list_remove list s = session_list_scan list list s"

section \<open>Creation and access\<close>

definition obl_create_session :: "ptr \<Rightarrow> ptr exec" where
  "obl_create_session d =
     (if d = NULL then
        thenM (OBL_ERROR d (Text ''Attempt to create a session without a valid database.''))
          (retM NULL)
      else
        bindM malloc (\<lambda>ok.
          if \<not> ok then thenM (obl_report_error d OBL_OUT_OF_MEMORY None) (retM NULL)
          else
            bindM (obl_create_set logical_address_keyfunction) (\<lambda>rs.
            bindM (new_session \<lparr>ses_database = d, current_transaction = NULL, read_set = rs,
                     session_mutex = 1\<rparr>) (\<lambda>s.
              thenM (wait_session_list_mutex d)
              (thenM (update_database d (\<lambda>r. r\<lparr>session_list :=
                        obl_session_list_append (session_list r) s\<rparr>))
              (thenM (post_session_list_mutex d)
                (retM s)))))))"

definition obl_at_address_depth :: "calls \<Rightarrow> ptr \<Rightarrow> obl_logical_address \<Rightarrow> int \<Rightarrow> ptr exec" where
  "obl_at_address_depth k s address depth = call_at_address_depth k s address depth True"

definition obl_at_address :: "calls \<Rightarrow> ptr \<Rightarrow> obl_logical_address \<Rightarrow> ptr exec" where
  "obl_at_address k s address =
     bindM (get_session s) (\<lambda>r.
     bindM (get_database (ses_database r)) (\<lambda>db.
       obl_at_address_depth k s address (default_stub_depth (configuration db))))"

definition obl_in :: "calls \<Rightarrow> ptr \<Rightarrow> ptr \<Rightarrow> ptr exec" where
  "obl_in k s p =
     bindM (get_object p) (\<lambda>x.
       if obj_session x = s then retM p else obl_at_address k s (logical_address x))"

section \<open>Refreshing\<close>

definition obl_refresh_object :: "calls \<Rightarrow> ptr \<Rightarrow> unit exec" where
  "obl_refresh_object k p =
     bindM (get_object p) (\<lambda>x.
       let s = obj_session x in
       bindM (get_session s) (\<lambda>r.
         let d = ses_database r in
         thenM (wait_content_mutex d)
         (thenM (wait_session_mutex s)
         (bindM (get_database d) (\<lambda>db.
          bindM (obl_read_object k s d (physical_address x)
                   (default_stub_depth (configuration db))) (\<lambda>n.
          bindM (get_object n) (\<lambda>y.
            thenM (update_object p (\<lambda>x. x\<lparr>obj_shape := obj_shape y, obj_storage := obj_storage y\<rparr>))
            (thenM (post_session_mutex s)
            (thenM (post_content_mutex d)
              (free_object n))))))))))"

text \<open>
  \<open>obl_destroy_set\<close> with a callback for every object. Its iterator reads the nodes of the set after
  it has freed them, which C leaves undefined; the callers are modelled for a memory in which a freed
  node stays readable and unchanged until the call of the iterator returns. Without that every one
  of them ends with the fault that \<open>obl_destroy_set\<close> then has, as soon as its set is not empty.
\<close>

definition freed_blocks_kept :: bool where
  "freed_blocks_kept = True"

definition destroy_set_with :: "obl_set option \<Rightarrow> (ptr \<Rightarrow> unit exec) \<Rightarrow> unit exec" where
  "destroy_set_with os callback =
     bindM (the_set os) (\<lambda>s.
       case obl_destroy_set freed_blocks_kept (set_root s) of
         Inl e \<Rightarrow> failM e
       | Inr objects \<Rightarrow> forM objects callback)"

definition obl_abort_transaction :: "calls \<Rightarrow> ptr \<Rightarrow> unit exec" where
  "obl_abort_transaction k t =
     bindM (get_transaction t) (\<lambda>tx.
       let s = tx_session tx in
       thenM (wait_session_mutex s)
       (thenM (destroy_set_with (write_set tx) (obl_refresh_object k))
       (thenM (i_deallocate_transaction t)
         (post_session_mutex s))))"

definition obl_destroy_session :: "calls \<Rightarrow> ptr \<Rightarrow> unit exec" where
  "obl_destroy_session k s =
     bindM (get_session s) (\<lambda>r.
       let d = ses_database r in
       thenM (if current_transaction r \<noteq> NULL
              then obl_abort_transaction k (current_transaction r) else retM ())
       (bindM (get_session s) (\<lambda>r.
        thenM (destroy_set_with (read_set r) i_obl_deallocate_object)
        (thenM (wait_session_list_mutex d)
        (thenM (update_database d (\<lambda>r. r\<lparr>session_list :=
                  obl_session_list_remove (session_list r) s\<rparr>))
        (thenM (post_session_list_mutex d)
          (free_session s)))))))"

text \<open>The objects that an in-order iteration over a set visits.\<close>

definition set_objects :: "obl_set \<Rightarrow> ptr list exec" where
  "set_objects oset =
     (case iterate (Suc (length (entries (set_root oset)))) freed_blocks_kept
            (obl_set_inorder_iter (set_root oset)) of
        Inl e \<Rightarrow> failM e
      | Inr objects \<Rightarrow> retM objects)"

definition i_obl_update_objects :: "calls \<Rightarrow> ptr \<Rightarrow> obl_set option \<Rightarrow> unit exec" where
  "i_obl_update_objects k s change_set =
     bindM (the_set change_set) (\<lambda>changed.
     bindM (set_objects changed) (\<lambda>objects.
       thenM (wait_session_mutex s)
       (thenM
         (forM objects (\<lambda>current.
            bindM (get_session s) (\<lambda>r.
            bindM (the_set (read_set r)) (\<lambda>rs.
            bindM (get_object current) (\<lambda>x.
              let mine = obl_set_lookup rs (unat (logical_address x)) in
              if mine \<noteq> NULL then obl_refresh_object k mine else retM ())))))
         (post_session_mutex s))))"

end
