(* ===== verification/Allocator.thy ===== *)
theory Allocator
  imports Sessions
begin

text \<open>
  \<open>allocator.c\<close>: the persisted counters from which logical and physical addresses are handed out.
  The allocator is a slotted object with two integers, \<open>next_logical\<close> and \<open>next_physical\<close>.
\<close>

definition i_get_allocator :: "calls \<Rightarrow> ptr \<Rightarrow> ptr exec" where
  "i_get_allocator k s =
     bindM (get_session s) (\<lambda>r.
     bindM (get_database (ses_database r)) (\<lambda>db.
     bindM (obl_at_address k s (allocator_addr (root db))) (\<lambda>allocator.
     bindM (get_object allocator) (\<lambda>x.
     bindM (i_obl_at_fixed_address (fixed_addr OBL_ALLOCATOR_SHAPE_ADDR)) (\<lambda>shape.
       if obj_shape x \<noteq> shape then
         thenM (obl_report_error (ses_database r) OBL_MISSING_SYSTEM_OBJECT
                  (Some (Text ''Allocator has incorrect shape.'')))
           (retM NULL)
       else retM allocator)))))"

definition obl_allocate_logical :: "calls \<Rightarrow> ptr \<Rightarrow> obl_logical_address exec" where
  "obl_allocate_logical k s =
     bindM (i_get_allocator k s) (\<lambda>allocator.
       if allocator = NULL then retM OBL_LOGICAL_UNASSIGNED
       else
         bindM (obl_slotted_at k allocator 0) (\<lambda>next_logical.
         bindM (obl_integer_value next_logical) (\<lambda>result.
           thenM (obl_integer_set k next_logical (result + 1)) (retM result))))"

definition obl_allocate_physical :: "calls \<Rightarrow> ptr \<Rightarrow> obl_uint \<Rightarrow> obl_physical_address exec" where
  "obl_allocate_physical k s words =
     bindM (i_get_allocator k s) (\<lambda>allocator.
       if allocator = NULL then retM OBL_PHYSICAL_UNASSIGNED
       else
         bindM (obl_slotted_at k allocator 1) (\<lambda>next_physical.
         bindM (obl_integer_value next_physical) (\<lambda>result.
           thenM (obl_integer_set k next_physical (result + words)) (retM result))))"

end
