(* ===== verification/AddressMap.thy ===== *)
theory AddressMap
  imports Allocator
begin

text \<open>
  \<open>addressmap.c\<close>: the tree of pages that maps logical to physical addresses, read and written
  directly in the content of the database. A page of height \<open>h\<close> selects an entry by the \<open>h\<close>-th byte
  of the logical address. Following a page that refers back to a page above it never ends in C; the
  recursive functions take a bound on the number of pages to follow.
\<close>

section \<open>Bits\<close>

definition CHUNK_MASK :: nat where
  "CHUNK_MASK = CHUNK_SIZE - 1"

definition PAGE_SHIFT :: nat where
  "PAGE_SHIFT = CHUNK_SIZE_LOG2 - 1"

text \<open>
  \<open>x << n\<close> on an operand of type \<open>int\<close> that is not negative: not defined in C when the count reaches
  the width or the result does not fit the signed type.
\<close>

definition shift_left :: "obl_uint \<Rightarrow> obl_uint \<Rightarrow> obl_uint exec" where
  "shift_left x n =
     (if unat n < 32 \<and> unat x * 2 ^ unat n < 2 ^ 31 then retM (push_bit (unat n) x)
      else failM UndefinedShift)"

text \<open>Isolates the \<open>height\<close>-th group of \<open>PAGE_SHIFT\<close> bits.\<close>

definition i_treepage_index :: "obl_logical_address \<Rightarrow> obl_uint \<Rightarrow> obl_uint exec" where
  "i_treepage_index logical height =
     (let shift = of_nat PAGE_SHIFT * height
      in bindM (shift_left (of_nat CHUNK_SIZE - 1) shift) (\<lambda>m.
           retM (drop_bit (unat shift) (logical AND m))))"

section \<open>Pages\<close>

definition i_verify_addrtreepage :: "ptr \<Rightarrow> obl_physical_address \<Rightarrow> bool exec" where
  "i_verify_addrtreepage d base =
     bindM (read_cell d base) (\<lambda>c.
       if readable_uint c \<noteq> fixed_addr OBL_ADDRTREEPAGE_SHAPE_ADDR then
         thenM (obl_report_error d OBL_WRONG_STORAGE (Some (Text ''The address map is corrupted.'')))
           (retM False)
       else retM True)"

definition i_create_treepage :: "calls \<Rightarrow> ptr \<Rightarrow> obl_uint \<Rightarrow> obl_physical_address exec" where
  "i_create_treepage k s height =
     bindM (get_session s) (\<lambda>r.
       let d = ses_database r in
       bindM (obl_allocate_physical k s (of_nat CHUNK_SIZE + 2)) (\<lambda>base.
         if base = OBL_PHYSICAL_UNASSIGNED then retM base
         else
           thenM (write_cell d base (writable_uint (fixed_addr OBL_ADDRTREEPAGE_SHAPE_ADDR)))
           (thenM (write_cell d (base + 1) (writable_uint height))
           (thenM (forM [0..<CHUNK_SIZE] (\<lambda>i.
                     write_cell d (base + 2 + of_nat i) (writable_uint OBL_PHYSICAL_UNASSIGNED)))
             (retM base)))))"

text \<open>How many pages a walk can visit before it repeats one: no more than there are words.\<close>

definition page_bound :: "ptr \<Rightarrow> nat exec" where
  "page_bound d = with_content d (\<lambda>m. retM (Suc (capacity m)))"

section \<open>Lookup\<close>

fun i_lookup_in :: "nat \<Rightarrow> ptr \<Rightarrow> obl_physical_address \<Rightarrow> obl_logical_address \<Rightarrow>
      obl_physical_address exec" where
  "i_lookup_in 0 d pagebase logical = failM OutOfFuel"
| "i_lookup_in (Suc n) d pagebase logical =
     bindM (i_verify_addrtreepage d pagebase) (\<lambda>ok.
       if \<not> ok then retM OBL_PHYSICAL_UNASSIGNED
       else
         bindM (read_cell d (pagebase + 1)) (\<lambda>c.
           let height = readable_uint c in
           bindM (i_treepage_index logical height) (\<lambda>index.
           bindM (read_cell d (pagebase + 2 + index)) (\<lambda>c.
             let v = readable_uint c in
             if height = 0 \<or> v = OBL_PHYSICAL_UNASSIGNED then retM v
             else i_lookup_in n d v logical))))"

definition obl_address_lookup :: "ptr \<Rightarrow> obl_logical_address \<Rightarrow> obl_physical_address exec" where
  "obl_address_lookup d logical =
     bindM (get_database d) (\<lambda>r.
       let base = address_map_addr (root r) in
       bindM (i_verify_addrtreepage d base) (\<lambda>ok.
         if \<not> ok then retM OBL_PHYSICAL_UNASSIGNED
         else
           bindM (read_cell d (base + 1)) (\<lambda>c.
             let height = readable_uint c in
             bindM (shift_left 1 (of_nat PAGE_SHIFT * (height + 1))) (\<lambda>bound.
               let m = NOT (bound - 1) in
               if m AND logical \<noteq> 0 then retM OBL_PHYSICAL_UNASSIGNED
               else bindM (page_bound d) (\<lambda>n. i_lookup_in n d base logical)))))"

section \<open>Assignment\<close>

text \<open>\<open>while (copied_logical >>= PAGE_SHIFT) required_height++\<close>\<close>

function required_height :: "obl_uint \<Rightarrow> obl_uint" where
  "required_height copied_logical =
     (let shifted = drop_bit PAGE_SHIFT copied_logical
      in if shifted \<noteq> 0 then required_height shifted + 1 else 0)"
  by pat_completeness auto

termination required_height
proof (relation "measure unat")
  fix x shifted :: obl_uint
  assume "shifted = drop_bit PAGE_SHIFT x" "shifted \<noteq> 0"
  then have "unat shifted = unat x div 256"
    by (simp add: PAGE_SHIFT_def CHUNK_SIZE_LOG2_def drop_bit_eq_div unat_div)
  moreover have "unat shifted \<noteq> 0"
    using \<open>shifted \<noteq> 0\<close> by (simp add: unsigned_eq_0_iff)
  ultimately have "unat shifted < unat x"
    by (cases "unat x") auto
  then show "(shifted, x) \<in> measure unat" by simp
qed simp

declare required_height.simps [simp del]

fun i_assign_in :: "calls \<Rightarrow> nat \<Rightarrow> ptr \<Rightarrow> obl_physical_address \<Rightarrow> obl_logical_address \<Rightarrow>
      obl_physical_address \<Rightarrow> unit exec" where
  "i_assign_in k 0 s pagebase key v = failM OutOfFuel"
| "i_assign_in k (Suc n) s pagebase key v =
     bindM (get_session s) (\<lambda>r.
       let d = ses_database r in
       bindM (i_verify_addrtreepage d pagebase) (\<lambda>ok.
         if \<not> ok then retM ()
         else
           bindM (read_cell d (pagebase + 1)) (\<lambda>c.
             let height = readable_uint c in
             bindM (i_treepage_index key height) (\<lambda>index.
               if height = 0 then write_cell d (pagebase + 2 + index) (writable_uint v)
               else
                 bindM (read_cell d (pagebase + 2 + index)) (\<lambda>c.
                   let found = readable_uint c in
                   bindM
                     (if found = OBL_PHYSICAL_UNASSIGNED then
                        bindM (i_create_treepage k s (height - 1)) (\<lambda>created.
                          thenM (write_cell d (pagebase + 2 + index) (writable_uint created))
                            (retM created))
                      else retM found)
                     (\<lambda>next_page. i_assign_in k n s next_page key v))))))"

text \<open>The loop that puts pages above the root until it is high enough.\<close>

definition raise_root :: "calls \<Rightarrow> ptr \<Rightarrow> ptr \<Rightarrow> obl_uint \<Rightarrow> obl_uint \<Rightarrow>
      obl_physical_address \<Rightarrow> obl_physical_address exec" where
  "raise_root k s d height required base =
     foldM (\<lambda>h previous.
         bindM (i_create_treepage k s (of_nat h)) (\<lambda>new_page.
           thenM (write_cell d (new_page + 2) (writable_uint previous)) (retM new_page)))
       [Suc (unat height)..<Suc (unat required)] base"

definition obl_address_assign ::
    "calls \<Rightarrow> ptr \<Rightarrow> obl_logical_address \<Rightarrow> obl_physical_address \<Rightarrow> unit exec" where
  "obl_address_assign k s logical physical =
     bindM (get_session s) (\<lambda>r.
       let d = ses_database r; required = required_height logical in
       bindM (get_database d) (\<lambda>db.
         let base = address_map_addr (root db) in
         bindM (i_verify_addrtreepage d base) (\<lambda>ok.
           if \<not> ok then retM ()
           else
             bindM (read_cell d (base + 1)) (\<lambda>c.
               let height = readable_uint c in
               bindM
                 (if height < required then
                    bindM (raise_root k s d height required base) (\<lambda>new_base.
                      thenM (update_database d (\<lambda>db. db\<lparr>root := (root db)
                               \<lparr>address_map_addr := new_base, dirty := True\<rparr>\<rparr>))
                        (retM new_base))
                  else retM base)
                 (\<lambda>base. bindM (page_bound d) (\<lambda>n. i_assign_in k n s base logical physical))))))"

end
