(* ===== verification/Extent.thy ===== *)
theory Extent
  imports Store
begin

text \<open>
  The memory behind a database, from \<open>database.c\<close>: mapping, unmapping and growing it, on the heap for
  an in-memory database and through a mapping of the file for any other.

  The system calls are those of POSIX: \<open>open\<close> and \<open>fstat\<close> fail for the files that \<open>refused\<close> names,
  \<open>mmap\<close> maps whole pages and fails for a length of 0, and stores to a shared mapping are in the file
  when it is unmapped. A file is mapped by one database at a time.
\<close>

section \<open>System calls\<close>

text \<open>\<open>open\<close> for reading and writing; \<open>create\<close> is the flag \<open>O_CREAT\<close>.\<close>

definition open_file :: "string \<Rightarrow> bool \<Rightarrow> bool exec" where
  "open_file path create =
     bindM (getsM (\<lambda>w. refused w ''open'' path)) (\<lambda>denied.
     bindM (getsM (\<lambda>w. files w path)) (\<lambda>f.
       if denied \<or> (f = None \<and> \<not> create) then retM False
       else
         thenM (if f = None
                then modifyM (\<lambda>w. w\<lparr>files := (files w)(path \<mapsto>
                       \<lparr>file_bytes = 0, file_words = (\<lambda>_. 0)\<rparr>)\<rparr>)
                else retM ())
           (retM True)))"

text \<open>The size of an open file, or \<open>None\<close> when \<open>fstat\<close> fails.\<close>

definition stat_file :: "string \<Rightarrow> nat option exec" where
  "stat_file path =
     bindM (getsM (\<lambda>w. refused w ''fstat'' path)) (\<lambda>denied.
     bindM (getsM (\<lambda>w. files w path)) (\<lambda>f.
       retM (if denied then None else map_option file_bytes f)))"

definition PAGE_SIZE :: nat where
  "PAGE_SIZE = 4096"

text \<open>
  The block at which \<open>mmap\<close> maps the first \<open>length\<close> bytes. \<open>MAP_FAILED\<close> is a pointer that is not null
  and through which nothing can be accessed.
\<close>

definition map_file :: "string \<Rightarrow> nat \<Rightarrow> memory exec" where
  "map_file path len =
     bindM (getsM (\<lambda>w. refused w ''mmap'' path)) (\<lambda>denied.
     bindM (getsM (\<lambda>w. files w path)) (\<lambda>f.
       retM (case f of
           None \<Rightarrow> \<lparr>cells = (\<lambda>_. 0), capacity = 0\<rparr>
         | Some f \<Rightarrow> \<lparr>cells = file_words f,
             capacity = (if denied then 0 else (len + PAGE_SIZE - 1) div PAGE_SIZE * PAGE_SIZE div 4)\<rparr>)))"

text \<open>
  \<open>munmap\<close> with a length in bytes: what was stored into the mapped words of the file is in the file.
  A length of 0 and a block that \<open>mmap\<close> could not map are refused. All pages that contain a byte of
  the range go; when these are more than the pages of the mapping, pages behind it are unmapped that
  belong to something else, which is the fault \<open>OutOfBounds\<close>.
\<close>

definition unmap_file :: "string \<Rightarrow> memory \<Rightarrow> nat \<Rightarrow> unit exec" where
  "unmap_file path m len =
     (if len = 0 \<or> capacity m = 0 then retM ()
      else if (len + PAGE_SIZE - 1) div PAGE_SIZE * PAGE_SIZE > 4 * capacity m then failM OutOfBounds
      else modifyM (\<lambda>w. w\<lparr>files := (files w)(path := map_option (\<lambda>f. f\<lparr>file_words := (\<lambda>i.
       if i < capacity m then take_bit (8 * (file_bytes f - 4 * i)) (cells m i)
       else file_words f i)\<rparr>) (files w path))\<rparr>))"

text \<open>
  \<open>fopen\<close> for updating, \<open>fseek\<close> relative to the end, \<open>fputc\<close> of a null byte and \<open>fclose\<close>. A seek in
  front of the file fails and leaves the position at its beginning.
\<close>

definition extend_file :: "string \<Rightarrow> int \<Rightarrow> unit exec" where
  "extend_file path offset =
     bindM (getsM (\<lambda>w. refused w ''fopen'' path)) (\<lambda>denied.
     bindM (getsM (\<lambda>w. files w path)) (\<lambda>f.
       case f of
         None \<Rightarrow> failM NullPointer
       | Some f \<Rightarrow>
           if denied then failM NullPointer
           else
             let at = (if int (file_bytes f) + offset < 0 then 0 else nat (int (file_bytes f) + offset)) in
             modifyM (\<lambda>w. w\<lparr>files := (files w)(path \<mapsto>
               \<lparr>file_bytes = max (file_bytes f) (at + 1),
                file_words = (file_words f)(at div 4 :=
                  file_words f (at div 4) AND NOT (push_bit (8 * (at mod 4)) 0xFF))\<rparr>)\<rparr>)))"

section \<open>Mapping\<close>

text \<open>\<open>True\<close> when the database could not be mapped. The block on the heap is cleared before it is checked.\<close>

definition i_obl_map_database :: "ptr \<Rightarrow> bool exec" where
  "i_obl_map_database d =
     bindM (get_database d) (\<lambda>db.
       case filename (configuration db) of
         None \<Rightarrow>
           let words = word_of_int (growth_size (configuration db)) in
           thenM (update_database d (\<lambda>db. db\<lparr>content_size := words\<rparr>))
           (bindM malloc (\<lambda>ok.
              if ok then
                thenM (update_database d (\<lambda>db. db\<lparr>content := Some
                         \<lparr>cells = (\<lambda>_. 0), capacity = unat words\<rparr>\<rparr>))
                  (retM False)
              else if words \<noteq> 0 then failM NullPointer
              else
                thenM (update_database d (\<lambda>db. db\<lparr>content := None, content_size := 0\<rparr>))
                (thenM (obl_report_error d OBL_OUT_OF_MEMORY (Some (Text
                          ''Unable to allocate enough space for an in-memory database.'')))
                  (retM True))))
       | Some path \<Rightarrow>
           bindM (open_file path (\<not> prohibit_creation (configuration db))) (\<lambda>opened.
           bindM (getsM errno_text) (\<lambda>errno.
             if \<not> opened then
               thenM (obl_report_errorf d OBL_UNABLE_TO_OPEN_FILE ''Unable to open file <%s>: %s''
                        [Str path, Str errno])
                 (retM True)
             else
               bindM (stat_file path) (\<lambda>size.
                 case size of
                   None \<Rightarrow>
                     thenM (obl_report_errorf d OBL_UNABLE_TO_OPEN_FILE
                              ''Unable to stat file <%s>: %s'' [Str path, Str errno])
                       (retM True)
                 | Some bytes \<Rightarrow>
                     let words = word_of_nat (bytes div 4) in
                     thenM (update_database d (\<lambda>db. db\<lparr>content_size := words\<rparr>))
                     (bindM (map_file path (unat words)) (\<lambda>m.
                        thenM (update_database d (\<lambda>db. db\<lparr>content := Some m\<rparr>)) (retM False)))))))"

definition i_obl_unmap_database :: "ptr \<Rightarrow> unit exec" where
  "i_obl_unmap_database d =
     bindM (get_database d) (\<lambda>db.
       thenM
         (case (filename (configuration db), content db) of
            (Some path, Some m) \<Rightarrow> unmap_file path m (unat (content_size db) * 4)
          | _ \<Rightarrow> retM ())
         (update_database d (\<lambda>db. db\<lparr>content := None, content_size := 0\<rparr>)))"

section \<open>Growing\<close>

text \<open>
  The argument of \<open>realloc\<close> is the number of words, taken as bytes. The words of the old block that fit
  are kept, the others are indeterminate. The result of mapping a grown file again is not looked at.
\<close>

definition reallocated :: "memory option \<Rightarrow> nat \<Rightarrow> (nat \<Rightarrow> obl_uint) \<Rightarrow> memory" where
  "reallocated old bytes fresh =
     \<lparr>cells = (\<lambda>i. case old of
        Some m \<Rightarrow> if i < capacity m then cells m i else fresh i
      | None \<Rightarrow> fresh i),
      capacity = bytes div 4\<rparr>"

definition i_grow_database :: "ptr \<Rightarrow> unit exec" where
  "i_grow_database d =
     thenM (wait_content_mutex d)
       (bindM (get_database d) (\<lambda>db.
          case filename (configuration db) of
            None \<Rightarrow>
              let new_size = content_size db + word_of_int (growth_size (configuration db)) in
              thenM (update_database d (\<lambda>db. db\<lparr>content_size := new_size\<rparr>))
              (bindM malloc (\<lambda>ok.
               bindM (getsM fresh_words) (\<lambda>fresh.
                thenM
                  (if ok then
                     update_database d (\<lambda>db. db\<lparr>content := Some
                       (reallocated (content db) (unat new_size) fresh)\<rparr>)
                   else
                     thenM (update_database d (\<lambda>db. db\<lparr>content := None\<rparr>))
                     (thenM (obl_report_errorf d OBL_OUT_OF_MEMORY
                               ''Unable to grow an in-memory database to <%lu> bytes.''
                               [Num (uint new_size)])
                       (update_database d (\<lambda>db. db\<lparr>content_size := 0\<rparr>))))
                  (post_content_mutex d))))
          | Some path \<Rightarrow>
              thenM (if content db \<noteq> None then i_obl_unmap_database d else retM ())
              (thenM (extend_file path (growth_size (configuration db) - 1))
              (bindM (i_obl_map_database d) (\<lambda>_. post_content_mutex d)))))"

end
