(* ===== verification/Commit.thy ===== *)
theory Commit
  imports AddressMap Extent
begin

text \<open>
  Committing: \<open>obl_commit_transaction\<close> and \<open>_visit_transitive_closure\<close> of \<open>transaction.c\<close>, with
  \<open>_obl_assign_addresses\<close> and \<open>_obl_write\<close> of \<open>database.c\<close>, and loading an object with
  \<open>_obl_at_address_depth\<close> of \<open>session.c\<close>. The loop between loading, committing and everything
  else is closed here: \<open>knot n\<close> gives the two functions with \<open>n\<close> nested calls at most.

  While a commit iterates over its write set, that set does not change: inserting into it needs the
  session's semaphore, which the commit holds.
\<close>

section \<open>Addresses and writing\<close>

definition i_obl_assign_addresses :: "calls \<Rightarrow> ptr \<Rightarrow> bool exec" where
  "i_obl_assign_addresses k p =
     bindM (get_object p) (\<lambda>x.
       let s = obj_session x in
       if s = NULL then
         thenM (OBL_ERROR NULL (Text
             ''_obl_assign_addresses called with an object that has not been assigned to a session yet.''))
           (retM False)
       else
         bindM (get_session s) (\<lambda>r.
           let d = ses_database r in
           bindM
             (if logical_address x = OBL_LOGICAL_UNASSIGNED then
                bindM (obl_allocate_logical k s) (\<lambda>a.
                  thenM (update_object p (\<lambda>x. x\<lparr>logical_address := a\<rparr>)) (retM True))
              else retM False)
             (\<lambda>assigned.
                thenM
                  (bindM (get_object p) (\<lambda>x.
                     if physical_address x = OBL_PHYSICAL_UNASSIGNED then
                       bindM (obl_object_wordsize k p) (\<lambda>words.
                       bindM (obl_allocate_physical k s words) (\<lambda>a.
                         thenM (update_object p (\<lambda>x. x\<lparr>physical_address := a\<rparr>))
                         (bindM (get_database d) (\<lambda>db.
                          thenM (if a + words \<ge> content_size db then i_grow_database d else retM ())
                          (bindM (get_object p) (\<lambda>x.
                             obl_address_assign k s (logical_address x) (physical_address x)))))))
                     else retM ()))
                  (retM assigned))))"

definition i_obl_write :: "calls \<Rightarrow> ptr \<Rightarrow> unit exec" where
  "i_obl_write k p =
     bindM (get_object p) (\<lambda>x.
       let s = obj_session x in
       if s = NULL then
         OBL_ERROR NULL (Text
           ''_obl_write called with an object that has not been assigned to a session yet.'')
       else
         bindM (get_session s) (\<lambda>r.
           let d = ses_database r in
           bindM (get_database d) (\<lambda>db.
             if content db = None then obl_report_error d OBL_DATABASE_NOT_OPEN None
             else obl_write_object k p d)))"

section \<open>The transitive closure of the changed objects\<close>

text \<open>
  The traversal only continues into objects without a session and gives each of them one, so it is
  never nested deeper than there are objects. The result is the list of adopted objects, the last
  one first.
\<close>

fun i_visit_transitive_closure ::
    "calls \<Rightarrow> nat \<Rightarrow> ptr \<Rightarrow> ptr \<Rightarrow> ptr list \<Rightarrow> ptr list exec" where
  "i_visit_transitive_closure k 0 s p adopted = failM OutOfFuel"
| "i_visit_transitive_closure k (Suc n) s p adopted =
     bindM (get_object p) (\<lambda>x.
     bindM
       (if obj_session x = NULL then
          thenM (update_object p (\<lambda>x. x\<lparr>obj_session := s\<rparr>)) (retM True)
        else retM False)
       (\<lambda>was_adopted.
     bindM (i_obl_assign_addresses k p) (\<lambda>assigned.
     bindM (i_obl_children k p) (\<lambda>children.
       foldM
         (\<lambda>current adopted.
            bindM (get_object current) (\<lambda>y.
              if \<not> IS_FIXED_ADDR (logical_address y) \<and> obj_session y = NULL
              then i_visit_transitive_closure k n s current adopted
              else retM adopted))
         children
         (if was_adopted \<or> assigned then obl_object_list_append adopted p else adopted)))))"

section \<open>Commit\<close>

text \<open>Insert an adopted object into the write set and into the read set.\<close>

definition insert_adopted :: "ptr \<Rightarrow> ptr \<Rightarrow> ptr \<Rightarrow> unit exec" where
  "insert_adopted t s current =
     bindM (get_transaction t) (\<lambda>tx.
     bindM (the_set (write_set tx)) (\<lambda>ws.
     bindM (obl_set_insert ws current) (\<lambda>ws'.
       thenM (update_transaction t (\<lambda>tx. tx\<lparr>write_set := Some ws'\<rparr>))
       (bindM (get_session s) (\<lambda>r.
        bindM (the_set (read_set r)) (\<lambda>rs.
        bindM (obl_set_insert rs current) (\<lambda>rs'.
          update_session s (\<lambda>r. r\<lparr>read_set := Some rs'\<rparr>))))))))"

text \<open>
  What happens while the semaphores of the database and of the session are held: adopt the objects
  that the changed ones refer to, write every object of the write set, and free the transaction. The
  result is the write set with the numbers of written and of adopted objects.
\<close>

definition commit_changes :: "calls \<Rightarrow> ptr \<Rightarrow> ptr \<Rightarrow> (obl_set option \<times> nat \<times> nat) exec" where
  "commit_changes k t s =
     bindM (get_transaction t) (\<lambda>tx.
     bindM (the_set (write_set tx)) (\<lambda>ws.
     bindM (set_objects ws) (\<lambda>changed.
     bindM (getsM next_ptr) (\<lambda>n.
     bindM (foldM (i_visit_transitive_closure k (Suc n) s) changed []) (\<lambda>adopted.
     thenM (forM adopted (insert_adopted t s))
       (bindM (get_transaction t) (\<lambda>tx.
        bindM (the_set (write_set tx)) (\<lambda>ws.
        bindM (set_objects ws) (\<lambda>written.
          thenM (forM written (i_obl_write k))
          (thenM (i_deallocate_transaction t)
            (retM (write_set tx, length written, length adopted))))))))))))"

text \<open>Every other session of the database refreshes its copies of the changed objects.\<close>

definition notify_sessions :: "calls \<Rightarrow> ptr \<Rightarrow> ptr \<Rightarrow> obl_set option \<Rightarrow> unit exec" where
  "notify_sessions k d s change_set =
     thenM (wait_session_list_mutex d)
       (bindM (get_database d) (\<lambda>db.
          thenM (forM (session_list db) (\<lambda>other.
                   if other \<noteq> s then i_obl_update_objects k other change_set else retM ()))
            (post_session_list_mutex d)))"

definition obl_commit_transaction :: "calls \<Rightarrow> ptr \<Rightarrow> int exec" where
  "obl_commit_transaction k t =
     bindM (get_transaction t) (\<lambda>tx.
       let s = tx_session tx in
       bindM (get_session s) (\<lambda>r.
         let d = ses_database r in
         thenM (OBL_DEBUG d (Text ''Beginning commit.''))
         (thenM (wait_content_mutex d)
         (thenM (wait_session_mutex s)
         (bindM (commit_changes k t s) (\<lambda>(change_set, written, adopted).
            thenM (post_session_mutex s)
            (thenM (post_content_mutex d)
            (thenM (notify_sessions k d s change_set)
            (thenM (destroy_set_with change_set (\<lambda>_. retM ()))
            (thenM (obl_log_database d L_DEBUG (Formatted
                      ''Successful commit of %lu objects, %lu previously unpersisted.''
                      [Num (int written), Num (int adopted)]))
              (retM 0)))))))))))"

section \<open>Loading an object\<close>

definition i_obl_at_address_depth ::
    "calls \<Rightarrow> ptr \<Rightarrow> obl_logical_address \<Rightarrow> int \<Rightarrow> bool \<Rightarrow> ptr exec" where
  "i_obl_at_address_depth k s address depth is_top =
     bindM (get_session s) (\<lambda>r.
       let d = ses_database r in
       if IS_FIXED_ADDR address then i_obl_at_fixed_address address
       else
         thenM (whenM is_top (wait_session_mutex s))
         (bindM (the_set (read_set r)) (\<lambda>rs.
            let cached = obl_set_lookup rs (unat address) in
            bindM
              (if cached \<noteq> NULL then bindM (i_obl_is_stub cached) (\<lambda>stub. retM (\<not> stub))
               else retM False)
              (\<lambda>hit.
                 if hit then thenM (whenM is_top (post_session_mutex s)) (retM cached)
                 else
                   bindM
                     (if depth > 0 then
                        bindM (obl_address_lookup d address) (\<lambda>physical.
                          if physical = OBL_PHYSICAL_UNASSIGNED then retM None
                          else
                            bindM (obl_read_object k s d physical depth) (\<lambda>p.
                              thenM (update_object p
                                  (\<lambda>x. x\<lparr>logical_address := address, obj_session := s\<rparr>))
                                (retM (Some p))))
                      else bindM (i_obl_create_stub k s address) (\<lambda>p. retM (Some p)))
                     (\<lambda>loaded.
                        case loaded of
                          None \<Rightarrow> thenM (whenM is_top (post_session_mutex s)) obl_nil
                        | Some p \<Rightarrow>
                          bindM (get_session s) (\<lambda>r.
                          bindM (the_set (read_set r)) (\<lambda>rs.
                          bindM (obl_set_insert rs p) (\<lambda>rs'.
                            thenM (update_session s (\<lambda>r. r\<lparr>read_set := Some rs'\<rparr>))
                            (thenM (whenM is_top (post_session_mutex s))
                              (retM p))))))))))"

section \<open>Closing the loop\<close>

fun knot :: "nat \<Rightarrow> calls" where
  "knot 0 =
     \<lparr>call_at_address_depth = (\<lambda>s address depth is_top. failM OutOfFuel),
      call_commit_transaction = (\<lambda>t. failM OutOfFuel)\<rparr>"
| "knot (Suc n) =
     \<lparr>call_at_address_depth = i_obl_at_address_depth (knot n),
      call_commit_transaction = obl_commit_transaction (knot n)\<rparr>"

declare knot.simps [simp del]

end
