(* ===== verification/Database.thy ===== *)
theory Database
  imports Commit
begin

text \<open>
  \<open>database.c\<close>: starting and stopping the library (the fixed space), opening, bootstrapping and
  closing a database, and its root.
\<close>

section \<open>Fixed space\<close>

text \<open>The statements that correct the shapes created before nil and each other existed.\<close>

definition correct_early_shape :: "ptr \<Rightarrow> ptr \<Rightarrow> ptr \<Rightarrow> ptr \<Rightarrow> unit exec" where
  "correct_early_shape nil string_shape fixed_shape p =
     thenM (update_object p (\<lambda>x. x\<lparr>obj_shape := nil\<rparr>))
     (bindM (shape_storage_of p) (\<lambda>st.
       thenM (update_object p (\<lambda>x. x\<lparr>obj_storage :=
                Shape_storage (st\<lparr>shape_current_shape := nil\<rparr>)\<rparr>))
       (thenM (update_object (shape_name st) (\<lambda>x. x\<lparr>obj_shape := string_shape\<rparr>))
         (update_object (shape_slot_names st) (\<lambda>x. x\<lparr>obj_shape := fixed_shape\<rparr>)))))"

text \<open>The shapes that are created into their slot once nil exists, in the order of the code.\<close>

definition primitive_shapes :: "(obl_fixed_address \<times> string \<times> string list \<times> obl_storage_type) list" where
  "primitive_shapes =
     [(OBL_INTEGER_SHAPE_ADDR, ''Integer'', [], OBL_INTEGER),
      (OBL_FLOAT_SHAPE_ADDR, ''Float'', [], OBL_FLOAT),
      (OBL_DOUBLE_SHAPE_ADDR, ''Double'', [], OBL_DOUBLE),
      (OBL_CHAR_SHAPE_ADDR, ''Character'', [], OBL_CHAR),
      (OBL_CHUNK_SHAPE_ADDR, ''OblChunk'', [], OBL_CHUNK),
      (OBL_BOOLEAN_SHAPE_ADDR, ''Boolean'', [], OBL_BOOLEAN),
      (OBL_STUB_SHAPE_ADDR, ''OblStub'', [], OBL_STUB),
      (OBL_ADDRTREEPAGE_SHAPE_ADDR, ''OblAddressTreePage'', [], OBL_ADDRTREEPAGE),
      (OBL_ALLOCATOR_SHAPE_ADDR, ''OblAllocator'', [''next_logical'', ''next_physical''],
         OBL_SLOTTED)]"

text \<open>The loop that gives the fixed objects their addresses. It ends with \<open>True\<close> at a null one.\<close>

fun address_fixed_space :: "nat list \<Rightarrow> bool exec" where
  "address_fixed_space [] = retM False"
| "address_fixed_space (i # is) =
     bindM (getsM (\<lambda>w. fixed_space w ! i)) (\<lambda>p.
       if p = NULL then retM True
       else
         thenM (update_object p (\<lambda>x. x\<lparr>physical_address := OBL_PHYSICAL_UNASSIGNED,
                  logical_address := OBL_FIXED_ADDR_MIN + of_nat i\<rparr>))
           (address_fixed_space is))"

definition i_initialize_fixed_space :: "icu \<Rightarrow> calls \<Rightarrow> bool exec" where
  "i_initialize_fixed_space u k =
     bindM (getsM fixed_space) (\<lambda>space.
       if \<exists>p\<in>set space. p \<noteq> NULL then retM False
       else
         bindM (obl_create_cshape u k ''FixedCollection'' [] OBL_FIXED) (\<lambda>fixed_shape.
         bindM (obl_create_cshape u k ''String'' [] OBL_STRING) (\<lambda>string_shape.
         bindM (obl_create_cshape u k ''Undefined'' [] OBL_NIL) (\<lambda>undefined_shape.
         bindM i_obl_create_nil (\<lambda>nil.
           thenM (correct_early_shape nil string_shape fixed_shape fixed_shape)
           (thenM (correct_early_shape nil string_shape fixed_shape string_shape)
           (thenM (correct_early_shape nil string_shape fixed_shape undefined_shape)
           (thenM (update_object nil (\<lambda>x. x\<lparr>obj_shape := undefined_shape\<rparr>))
           (thenM (set_fixed_space OBL_FIXED_SHAPE_ADDR fixed_shape)
           (thenM (set_fixed_space OBL_STRING_SHAPE_ADDR string_shape)
           (thenM (set_fixed_space OBL_NIL_SHAPE_ADDR undefined_shape)
           (thenM (set_fixed_space OBL_NIL_ADDR nil)
           (thenM (forM primitive_shapes (\<lambda>(a, name, slot_names, type).
                     bindM (obl_create_cshape u k name slot_names type) (set_fixed_space a)))
           (thenM (bindM (i_obl_create_bool True) (set_fixed_space OBL_TRUE_ADDR))
           (thenM (bindM (i_obl_create_bool False) (set_fixed_space OBL_FALSE_ADDR))
             (address_fixed_space [0..<OBL_FIXED_SIZE]))))))))))))))))"

definition i_destroy_fixed_space :: "calls \<Rightarrow> unit exec" where
  "i_destroy_fixed_space k =
     bindM obl_nil (\<lambda>nil.
       thenM
         (forM [0..<OBL_FIXED_SIZE] (\<lambda>i.
            bindM (getsM (\<lambda>w. fixed_space w ! i)) (\<lambda>p.
              if p \<noteq> nil then
                thenM
                  (bindM (get_object p) (\<lambda>x.
                     if obj_shape x = nil then obl_destroy_cshape k p else obl_destroy_object p))
                  (modifyM (\<lambda>w. w\<lparr>fixed_space := (fixed_space w)[i := NULL]\<rparr>))
              else retM ())))
         (obl_destroy_object nil))"

definition obl_startup :: "icu \<Rightarrow> calls \<Rightarrow> int exec" where
  "obl_startup u k = bindM (i_initialize_fixed_space u k) (\<lambda>_. retM 0)"

definition obl_shutdown :: "calls \<Rightarrow> int exec" where
  "obl_shutdown k = thenM (i_destroy_fixed_space k) (retM 0)"

section \<open>The root\<close>

definition magic :: obl_uint where
  "magic = 0x6F626C00"

definition ADDRMAP_ADDR :: obl_uint where
  "ADDRMAP_ADDR = 1"

definition ALLOCATOR_ADDR :: obl_uint where
  "ALLOCATOR_ADDR = 2"

definition NAMEMAP_ADDR :: obl_uint where
  "NAMEMAP_ADDR = 3"

definition SHAPEMAP_ADDR :: obl_uint where
  "SHAPEMAP_ADDR = 4"

definition i_read_root :: "ptr \<Rightarrow> unit exec" where
  "i_read_root d =
     bindM (read_cell d ADDRMAP_ADDR) (\<lambda>c1.
     bindM (read_cell d ALLOCATOR_ADDR) (\<lambda>c2.
     bindM (read_cell d NAMEMAP_ADDR) (\<lambda>c3.
     bindM (read_cell d SHAPEMAP_ADDR) (\<lambda>c4.
       update_database d (\<lambda>db. db\<lparr>root := \<lparr>address_map_addr = readable_physical c1,
         allocator_addr = readable_logical c2, shape_map_addr = readable_logical c4,
         name_map_addr = readable_logical c3, dirty = False\<rparr>\<rparr>)))))"

definition i_write_root :: "ptr \<Rightarrow> unit exec" where
  "i_write_root d =
     bindM (get_database d) (\<lambda>db.
       let r = root db in
       thenM (write_cell d ADDRMAP_ADDR (writable_physical (address_map_addr r)))
       (thenM (write_cell d ALLOCATOR_ADDR (writable_logical (allocator_addr r)))
       (thenM (write_cell d NAMEMAP_ADDR (writable_logical (shape_map_addr r)))
       (thenM (write_cell d SHAPEMAP_ADDR (writable_logical (name_map_addr r)))
         (update_database d (\<lambda>db. db\<lparr>root := (root db)\<lparr>dirty := False\<rparr>\<rparr>))))))"

section \<open>Bootstrapping\<close>

definition set_addresses :: "ptr \<Rightarrow> obl_logical_address \<Rightarrow> obl_physical_address \<Rightarrow> unit exec" where
  "set_addresses p logical physical =
     update_object p (\<lambda>x. x\<lparr>logical_address := logical, physical_address := physical\<rparr>)"

text \<open>
  One of the two counters of the allocator: create it, place it at the current addresses and put it
  into its slot. The result is the counter and the next free physical address.
\<close>

definition bootstrap_counter ::
    "icu \<Rightarrow> calls \<Rightarrow> ptr \<Rightarrow> string \<Rightarrow> obl_logical_address \<Rightarrow> obl_physical_address \<Rightarrow>
      (ptr \<times> obl_physical_address) exec" where
  "bootstrap_counter u k allocator slotname current_logical current_physical =
     bindM (obl_create_integer 0) (\<lambda>counter.
       thenM (set_addresses counter current_logical current_physical)
       (thenM (obl_slotted_atcnamed_put u k allocator slotname counter)
       (bindM (obl_object_wordsize k counter) (\<lambda>words.
          retM (counter, current_physical + words)))))"

text \<open>
  The objects of an empty database: the allocator at logical address 1 and physical address 5, its
  two counters behind it, and the first leaf of the address map, which has no logical address. The
  last component of the result is the first free physical address.
\<close>

definition bootstrap_objects ::
    "icu \<Rightarrow> calls \<Rightarrow> ptr \<Rightarrow> (ptr \<times> ptr \<times> ptr \<times> ptr \<times> obl_physical_address) exec" where
  "bootstrap_objects u k s =
     bindM (obl_at_address k s (fixed_addr OBL_ALLOCATOR_SHAPE_ADDR)) (\<lambda>allocator_shape.
     bindM (obl_create_slotted k allocator_shape) (\<lambda>allocator.
     thenM (set_addresses allocator 1 5)
     (bindM (obl_object_wordsize k allocator) (\<lambda>words.
      bindM (bootstrap_counter u k allocator ''next_physical'' 2 (5 + words)) (\<lambda>(next_physical, a1).
      bindM (bootstrap_counter u k allocator ''next_logical'' 3 a1) (\<lambda>(next_logical, a2).
      bindM (obl_create_addrtreepage 0) (\<lambda>treepage.
      thenM (update_object treepage (\<lambda>x. x\<lparr>physical_address := a2\<rparr>))
      (bindM (obl_object_wordsize k treepage) (\<lambda>words.
        retM (allocator, next_physical, next_logical, treepage, a2 + words))))))))))"

definition assign_own_address :: "calls \<Rightarrow> ptr \<Rightarrow> ptr \<Rightarrow> unit exec" where
  "assign_own_address k s p =
     bindM (get_object p) (\<lambda>x. obl_address_assign k s (logical_address x) (physical_address x))"

definition insert_read_set :: "ptr \<Rightarrow> ptr \<Rightarrow> unit exec" where
  "insert_read_set s p =
     bindM (get_session s) (\<lambda>r.
     bindM (the_set (read_set r)) (\<lambda>rs.
     bindM (obl_set_insert rs p) (\<lambda>rs'.
       update_session s (\<lambda>r. r\<lparr>read_set := Some rs'\<rparr>))))"

text \<open>Enter the addresses into the root, and write the root and the objects.\<close>

definition bootstrap_write ::
    "calls \<Rightarrow> ptr \<Rightarrow> ptr \<Rightarrow> ptr \<Rightarrow> ptr \<Rightarrow> ptr \<Rightarrow> obl_physical_address \<Rightarrow> unit exec" where
  "bootstrap_write k d allocator next_physical next_logical treepage current_physical =
     bindM (get_object treepage) (\<lambda>page.
     bindM (get_object allocator) (\<lambda>x.
     thenM (update_database d (\<lambda>db. db\<lparr>root := (root db)
              \<lparr>address_map_addr := physical_address page, allocator_addr := logical_address x,
               name_map_addr := OBL_LOGICAL_UNASSIGNED,
               shape_map_addr := OBL_LOGICAL_UNASSIGNED\<rparr>\<rparr>))
     (thenM (obl_integer_set k next_physical current_physical)
     (thenM (obl_integer_set k next_logical 4)
     (thenM (i_write_root d)
       (forM [allocator, next_physical, next_logical, treepage]
          (\<lambda>p. obl_write_object k p d)))))))"

definition i_bootstrap_database :: "icu \<Rightarrow> calls \<Rightarrow> ptr \<Rightarrow> unit exec" where
  "i_bootstrap_database u k d =
     bindM (obl_create_session d) (\<lambda>s.
       if s = NULL then retM ()
       else
         bindM (bootstrap_objects u k s)
           (\<lambda>(allocator, next_physical, next_logical, treepage, current_physical).
              thenM (bootstrap_write k d allocator next_physical next_logical treepage
                       current_physical)
              (thenM (forM [allocator, next_physical, next_logical] (assign_own_address k s))
              (thenM (forM [allocator, next_physical, next_logical] (insert_read_set s))
              (thenM (obl_destroy_session k s)
                (write_cell d 0 (writable_uint magic)))))))"

section \<open>Opening and closing\<close>

definition obl_open_database :: "icu \<Rightarrow> calls \<Rightarrow> obl_database_config \<Rightarrow> ptr exec" where
  "obl_open_database u k config =
     (if zero_check config then
        thenM (OBL_ERROR NULL
                 (Text ''The database configuration structure is not zero-initialized.''))
          (retM NULL)
      else
        bindM malloc (\<lambda>ok.
          if \<not> ok then
            thenM (OBL_ERROR NULL (Text ''Unable to allocate the database.'')) (retM NULL)
          else
            let conf = config
                  \<lparr>default_stub_depth := (if default_stub_depth config = 0 then DEFAULT_STUB_DEPTH
                     else default_stub_depth config),
                   growth_size := (if growth_size config = 0 then DEFAULT_GROWTH_SIZE
                     else growth_size config),
                   log_level := (if log_level config = L_DEFAULT then L_NOTICE
                     else log_level config)\<rparr> in
            thenM (obl_set_ambient_log_level (log_level conf))
            (bindM (new_database \<lparr>configuration = conf, error_message = None, error_code = OBL_OK,
                root = \<lparr>address_map_addr = OBL_PHYSICAL_UNASSIGNED,
                  allocator_addr = OBL_LOGICAL_UNASSIGNED, shape_map_addr = OBL_LOGICAL_UNASSIGNED,
                  name_map_addr = OBL_LOGICAL_UNASSIGNED, dirty = False\<rparr>,
                content = None, content_size = 0, content_mutex = 1,
                session_list = [], session_list_mutex = 1\<rparr>) (\<lambda>d.
             bindM (i_obl_map_database d) (\<lambda>failed.
               if failed then thenM (free_database d) (retM NULL)
               else
                 bindM (get_database d) (\<lambda>db.
                 thenM (if content_size db = 0 then i_grow_database d else retM ())
                 (bindM (read_cell d 0) (\<lambda>c.
                  thenM
                    (if readable_uint c \<noteq> magic then
                       thenM (OBL_INFO d (Text ''Bootstrapping the database.''))
                         (i_bootstrap_database u k d)
                     else retM ())
                  (thenM (i_read_root d) (retM d))))))))))"

definition obl_open_defdatabase :: "icu \<Rightarrow> calls \<Rightarrow> string option \<Rightarrow> ptr exec" where
  "obl_open_defdatabase u k file =
     obl_open_database u k
       \<lparr>filename = file, prohibit_creation = False, growth_size = 0, log_filename = None,
        log_level = L_DEFAULT, default_stub_depth = 0, zero_check = False\<rparr>"

text \<open>The error message, the semaphores and the list cells are freed with the structures here.\<close>

definition obl_close_database :: "calls \<Rightarrow> ptr \<Rightarrow> unit exec" where
  "obl_close_database k d =
     thenM (i_obl_unmap_database d)
     (bindM (get_database d) (\<lambda>db.
       thenM (update_database d (\<lambda>db. db\<lparr>session_list := []\<rparr>))
       (thenM (forM (session_list db) (obl_destroy_session k))
         (free_database d))))"

end
