(* ===== verification/StoreFacts.thy ===== *)
theory StoreFacts
  imports Store
begin

text \<open>
  Facts about the primitives: running them, the content of a database as a memory, the halves of a
  word, the log filter, error reports and fixed addresses.
\<close>

section \<open>Running the primitives\<close>

lemma get_run [run]:
  "get_object p w = (case heap w p of Some x \<Rightarrow> Ok x w | None \<Rightarrow> Fault (bad_pointer p))"
  "get_session p w = (case sessions w p of Some r \<Rightarrow> Ok r w | None \<Rightarrow> Fault (bad_pointer p))"
  "get_transaction p w = (case transactions w p of Some t \<Rightarrow> Ok t w | None \<Rightarrow> Fault (bad_pointer p))"
  "get_database p w = (case databases w p of Some d \<Rightarrow> Ok d w | None \<Rightarrow> Fault (bad_pointer p))"
  by (simp_all add: get_object_def get_session_def get_transaction_def get_database_def)

lemma update_run [run]:
  "update_object p f w =
     (case heap w p of Some x \<Rightarrow> Ok () (w\<lparr>heap := (heap w)(p \<mapsto> f x)\<rparr>) | None \<Rightarrow> Fault (bad_pointer p))"
  "update_session p g w =
     (case sessions w p of Some x \<Rightarrow> Ok () (w\<lparr>sessions := (sessions w)(p \<mapsto> g x)\<rparr>)
      | None \<Rightarrow> Fault (bad_pointer p))"
  "update_transaction p h w =
     (case transactions w p of Some x \<Rightarrow> Ok () (w\<lparr>transactions := (transactions w)(p \<mapsto> h x)\<rparr>)
      | None \<Rightarrow> Fault (bad_pointer p))"
  "update_database p i w =
     (case databases w p of Some x \<Rightarrow> Ok () (w\<lparr>databases := (databases w)(p \<mapsto> i x)\<rparr>)
      | None \<Rightarrow> Fault (bad_pointer p))"
  by (simp_all add: update_object_def update_session_def update_transaction_def
      update_database_def run split: option.splits)

lemma new_run [run]:
  "new_object x w = Ok (next_ptr w)
     (w\<lparr>heap := (heap w)(next_ptr w \<mapsto> x), next_ptr := next_ptr w + 1\<rparr>)"
  "new_session r w = Ok (next_ptr w)
     (w\<lparr>sessions := (sessions w)(next_ptr w \<mapsto> r), next_ptr := next_ptr w + 1\<rparr>)"
  "new_transaction t w = Ok (next_ptr w)
     (w\<lparr>transactions := (transactions w)(next_ptr w \<mapsto> t), next_ptr := next_ptr w + 1\<rparr>)"
  "new_database d w = Ok (next_ptr w)
     (w\<lparr>databases := (databases w)(next_ptr w \<mapsto> d), next_ptr := next_ptr w + 1\<rparr>)"
  by (simp_all add: new_object_def new_session_def new_transaction_def new_database_def)

lemma malloc_run [run]: "malloc_budget w = None \<Longrightarrow> malloc w = Ok True w"
  by (simp add: malloc_def)

lemma malloc_exhausted: "malloc_budget w = Some 0 \<Longrightarrow> malloc w = Ok False w"
  by (simp add: malloc_def)

lemma the_set_run [run]:
  "the_set p w = (case p of Some s \<Rightarrow> Ok s w | None \<Rightarrow> Fault NullPointer)"
  by (simp add: the_set_def run split: option.split)

section \<open>The content of a database\<close>

definition has_content :: "world \<Rightarrow> ptr \<Rightarrow> memory \<Rightarrow> bool" where
  "has_content w d m \<longleftrightarrow> (\<exists>db. databases w d = Some db \<and> content db = Some m)"

definition put_content :: "ptr \<Rightarrow> memory \<Rightarrow> world \<Rightarrow> world" where
  "put_content d m w =
     w\<lparr>databases := (databases w)(d \<mapsto> (the (databases w d))\<lparr>content := Some m\<rparr>)\<rparr>"

definition store :: "memory \<Rightarrow> nat \<Rightarrow> obl_uint \<Rightarrow> memory" where
  "store m i v = m\<lparr>cells := (cells m)(i := v)\<rparr>"

lemma store_simps [simp]:
  "cells (store m i v) j = (if j = i then v else cells m j)"
  "capacity (store m i v) = capacity m"
  by (simp_all add: store_def)

lemma has_content_put [simp]: "has_content (put_content d m w) d m'  \<longleftrightarrow> m' = m"
  by (auto simp: has_content_def put_content_def)

lemma put_content_put [simp]: "put_content d m (put_content d m' w) = put_content d m w"
  by (simp add: put_content_def)

lemma put_content_id [simp]: "has_content w d m \<Longrightarrow> put_content d m w = w"
  by (auto simp: has_content_def put_content_def fun_upd_idem)

lemma put_content_frame [simp]:
  "heap (put_content d m w) = heap w" "sessions (put_content d m w) = sessions w"
  "transactions (put_content d m w) = transactions w" "next_ptr (put_content d m w) = next_ptr w"
  "fixed_space (put_content d m w) = fixed_space w"
  "malloc_budget (put_content d m w) = malloc_budget w"
  "log_lines (put_content d m w) = log_lines w"
  by (simp_all add: put_content_def)

lemma with_content_run:
  "has_content w d m \<Longrightarrow> with_content d f w = f m w"
  by (auto simp: has_content_def with_content_def run)

lemma read_cell_run:
  "has_content w d m \<Longrightarrow>
     read_cell d i w = (if unat i < capacity m then Ok (cells m (unat i)) w else Fault OutOfBounds)"
  by (simp add: read_cell_def with_content_run run)

lemma write_cell_run:
  "has_content w d m \<Longrightarrow>
     write_cell d i v w =
       (if unat i < capacity m then Ok () (put_content d (store m (unat i) v) w)
        else Fault OutOfBounds)"
  by (auto simp: write_cell_def with_content_run run has_content_def put_content_def store_def)

section \<open>Halves of a word\<close>

lemma half_masks:
  "(0xFFFF :: 32 word) = mask 16" "(0xFFFF0000 :: 32 word) = push_bit 16 (mask 16)"
  by (simp_all add: mask_eq_exp_minus_1 push_bit_eq_mult)

lemma half_of_set_half: "half_of (set_half c high u) high = u"
  by (cases high; rule bit_word_eqI)
    (auto simp: half_of_def set_half_def bit_simps half_masks dest: bit_imp_le_length)

lemma half_of_set_other: "h \<noteq> high \<Longrightarrow> half_of (set_half c high u) h = half_of c h"
  by (cases high; rule bit_word_eqI)
    (auto simp: half_of_def set_half_def bit_simps half_masks dest: bit_imp_le_length)


section \<open>Fixed addresses\<close>

lemma fixed_ordinal_less: "fixed_ordinal a < 15"
  by (cases a) simp_all

lemma fixed_ordinal_eq [simp]: "fixed_ordinal a = fixed_ordinal b \<longleftrightarrow> a = b"
  by (cases a; cases b) simp_all

lemma fixed_addr_index [simp]: "i_index_for_fixed (fixed_addr a) = fixed_ordinal a"
  by (cases a)
    (simp_all add: i_index_for_fixed_def fixed_addr_def)

lemma IS_FIXED_ADDR_fixed [simp]: "IS_FIXED_ADDR (fixed_addr a)"
  by (cases a)
    (simp_all add: IS_FIXED_ADDR_def fixed_addr_def OBL_FIXED_ADDR_MIN_def OBL_FIXED_SIZE_def
      OBL_ADDRESS_MAX_def OBL_UINT_MAX_def)

lemma unat_lt32: "unat (x :: obl_uint) < 4294967296"
  using unsigned_less [of x] by simp

lemma IS_FIXED_ADDR_iff: "IS_FIXED_ADDR addr \<longleftrightarrow> i_index_for_fixed addr < OBL_FIXED_SIZE"
proof -
  have "addr \<ge> 0xFFFFFFF1 \<longleftrightarrow> unat (addr - 0xFFFFFFF1) < 15"
  proof
    assume "addr \<ge> 0xFFFFFFF1"
    then have "unat (addr - 0xFFFFFFF1) = unat addr - 0xFFFFFFF1"
      by (simp add: unat_sub)
    then show "unat (addr - 0xFFFFFFF1) < 15"
      using unat_lt32 [of addr] by linarith
  next
    assume small: "unat (addr - 0xFFFFFFF1) < 15"
    have "unat addr = unat ((addr - 0xFFFFFFF1) + 0xFFFFFFF1)" by simp
    also have "\<dots> = unat (addr - 0xFFFFFFF1) + 0xFFFFFFF1"
      by (subst unat_plus_small) (use small in simp_all)
    finally show "addr \<ge> 0xFFFFFFF1" by (simp add: word_le_nat_alt)
  qed
  then show ?thesis
    by (simp add: IS_FIXED_ADDR_def i_index_for_fixed_def OBL_FIXED_ADDR_MIN_def
        OBL_FIXED_SIZE_def OBL_ADDRESS_MAX_def OBL_UINT_MAX_def)
qed

definition fixed_ptr :: "world \<Rightarrow> obl_fixed_address \<Rightarrow> ptr" where
  "fixed_ptr w a = fixed_space w ! fixed_ordinal a"

lemma at_fixed_address_run [run]:
  "i_obl_at_fixed_address (fixed_addr a) w = Ok (fixed_ptr w a) w"
  by (simp add: i_obl_at_fixed_address_def fixed_ptr_def run)

lemma constants_run [run]:
  "obl_nil w = Ok (fixed_ptr w OBL_NIL_ADDR) w"
  "obl_true w = Ok (fixed_ptr w OBL_TRUE_ADDR) w"
  "obl_false w = Ok (fixed_ptr w OBL_FALSE_ADDR) w"
  by (simp_all add: obl_nil_def obl_true_def obl_false_def at_fixed_address_run)

lemma fixed_ptr_frame [simp]:
  "fixed_ptr (w\<lparr>heap := h\<rparr>) a = fixed_ptr w a"
  "fixed_ptr (w\<lparr>sessions := s\<rparr>) a = fixed_ptr w a"
  "fixed_ptr (w\<lparr>transactions := t\<rparr>) a = fixed_ptr w a"
  "fixed_ptr (w\<lparr>databases := d\<rparr>) a = fixed_ptr w a"
  "fixed_ptr (w\<lparr>next_ptr := n\<rparr>) a = fixed_ptr w a"
  "fixed_ptr (w\<lparr>malloc_budget := b\<rparr>) a = fixed_ptr w a"
  "fixed_ptr (w\<lparr>ambient_log_level := l\<rparr>) a = fixed_ptr w a"
  "fixed_ptr (w\<lparr>log_lines := ls\<rparr>) a = fixed_ptr w a"
  "fixed_ptr (put_content p m w) a = fixed_ptr w a"
  by (simp_all add: fixed_ptr_def)

section \<open>Logging and errors\<close>

lemma obl_log_run:
  "obl_log config level msg w =
     Ok () (if level_rank (case config of None \<Rightarrow> ambient_log_level w | Some c \<Rightarrow> log_level c)
               > level_rank level
            then w
            else w\<lparr>log_lines := log_lines w @
              [(case config of None \<Rightarrow> None | Some c \<Rightarrow> filename c, level, msg)]\<rparr>)"
  by (simp add: obl_log_def emit_def run split: option.split)

text \<open>A log call changes nothing but the log.\<close>

definition only_log :: "world \<Rightarrow> world \<Rightarrow> bool" where
  "only_log w w' \<longleftrightarrow> w' = w\<lparr>log_lines := log_lines w'\<rparr>"

lemma only_log_refl [simp]: "only_log w w"
  by (simp add: only_log_def)

lemma only_log_update [simp]: "only_log w (w\<lparr>log_lines := ls\<rparr>)"
  by (simp add: only_log_def)

lemma obl_log_database_only:
  assumes "d \<noteq> NULL \<longrightarrow> databases w d \<noteq> None"
  shows "\<exists>w'. obl_log_database d level msg w = Ok () w' \<and> only_log w w'"
  using assms by (cases "d = NULL") (auto simp: obl_log_database_def OBL_CONFIG_FROM_def run obl_log_run)

lemma only_log_frame:
  assumes "only_log w w'"
  shows "heap w' = heap w" "sessions w' = sessions w" "transactions w' = transactions w"
    "databases w' = databases w" "next_ptr w' = next_ptr w" "fixed_space w' = fixed_space w"
      "malloc_budget w' = malloc_budget w"
  by (subst assms [unfolded only_log_def], simp)+

lemma only_log_databases:
  "only_log w w' \<Longrightarrow> only_log (w\<lparr>databases := db\<rparr>) (w'\<lparr>databases := db\<rparr>)"
  by (cases w; cases w') (simp add: only_log_def)

text \<open>Reporting an error in an open database: only the log, the message and the code change.\<close>

lemma obl_report_error_run:
  assumes "d \<noteq> NULL" "databases w d = Some db"
  shows "\<exists>w'. obl_report_error d code msg w = Ok () w' \<and>
      only_log (w\<lparr>databases := (databases w)(d \<mapsto> db\<lparr>error_message := Some (case msg of Some m \<Rightarrow> m | None \<Rightarrow> Text (error_messages code)),
        error_code := code\<rparr>)\<rparr>) w'"
proof -
  let ?m = "case msg of Some m \<Rightarrow> m | None \<Rightarrow> Text (error_messages code)"
  obtain w1 where w1: "OBL_ERROR d ?m w = Ok () w1" "only_log w w1"
    using obl_log_database_only [of d w L_ERROR ?m] assms by auto
  have "databases w1 = databases w" using only_log_frame [OF w1(2)] by simp
  then have "obl_report_error d code msg w = Ok () (w1\<lparr>databases := (databases w)(d \<mapsto>
      db\<lparr>error_message := Some ?m,
        error_code := code\<rparr>)\<rparr>)"
    using assms w1(1) by (simp add: obl_report_error_def run Let_def)
  then show ?thesis using w1(2) by (auto intro: only_log_databases)
qed

lemma obl_report_error_NULL:
  "\<exists>w'. obl_report_error NULL code msg w = Ok () w' \<and> only_log w w'"
  by (auto simp: obl_report_error_def obl_log_database_def OBL_CONFIG_FROM_def run obl_log_run
      emit_def Let_def)

section \<open>Properties\<close>

text \<open>
  C39: The writing macros put the bytes of a word, a signed word, a UTF-16 unit and both kinds of
  addresses into the order of the network, the most significant one first; and each of the five
  pairs of macros is inverse in both directions, so what is written is what is read back, and a word
  of the database that is read and written again does not change.
\<close>

theorem byte_order_roundtrip:
  "bytes32 (writable_uint u) = rev (bytes32 u) \<and> bytes32 (writable_int i) = rev (bytes32 i) \<and>
   bytes16 (writable_UChar c) = rev (bytes16 c) \<and>
   bytes32 (writable_logical l) = rev (bytes32 l) \<and>
   bytes32 (writable_physical p) = rev (bytes32 p) \<and>
   readable_uint (writable_uint u) = u \<and> writable_uint (readable_uint u) = u \<and>
   readable_int (writable_int i) = i \<and> writable_int (readable_int i) = i \<and>
   readable_UChar (writable_UChar c) = c \<and> writable_UChar (readable_UChar c) = c \<and>
   readable_logical (writable_logical l) = l \<and> writable_logical (readable_logical l) = l \<and>
   readable_physical (writable_physical p) = p \<and> writable_physical (readable_physical p) = p"
  by (simp add: codec_simps uint_codec.wr_rd int_codec.wr_rd uchar_codec.wr_rd
      logical_codec.wr_rd physical_codec.wr_rd writable_bytes)

text \<open>
  Storing a 16-bit unit into one half of a word makes that half read back as the unit and
  leaves the other half as it was.
\<close>

lemma half_word_store:
  "half_of (set_half c high u) h = (if h = high then u else half_of c h)"
  by (simp add: half_of_set_half half_of_set_other)

text \<open>
  C40: A logical address is in the fixed space exactly when its index is one of the 15 positions,
  and the named addresses occupy them in the order of the enumeration, all different.
\<close>

theorem fixed_space_layout:
  "(IS_FIXED_ADDR addr \<longleftrightarrow> i_index_for_fixed addr < OBL_FIXED_SIZE) \<and>
   IS_FIXED_ADDR (fixed_addr a) \<and> i_index_for_fixed (fixed_addr a) = fixed_ordinal a \<and>
   (fixed_addr a = fixed_addr b \<longleftrightarrow> a = b) \<and>
   \<not> IS_FIXED_ADDR OBL_LOGICAL_UNASSIGNED"
proof -
  have "fixed_addr a = fixed_addr b \<Longrightarrow> fixed_ordinal a = fixed_ordinal b"
    using fixed_addr_index by metis
  then have "fixed_addr a = fixed_addr b \<longleftrightarrow> a = b"
    using fixed_ordinal_eq by blast
  then show ?thesis
    using IS_FIXED_ADDR_iff
    by (simp add: fixed_ordinal_less IS_FIXED_ADDR_def OBL_FIXED_ADDR_MIN_def OBL_FIXED_SIZE_def
        OBL_ADDRESS_MAX_def OBL_UINT_MAX_def)
qed

text \<open>
  Reporting an error in an open database records exactly the code and the message (the standard
  text of the code when none is given); the database is not ok unless the code is \<open>OBL_OK\<close>, and
  clearing the error makes it ok again. Nothing but this database and the log changes.
\<close>

lemma report_then_clear:
  assumes "d \<noteq> NULL" "databases w d = Some db"
  shows "\<exists>w1. obl_report_error d code msg w = Ok () w1 \<and>
     databases w1 d = Some (db\<lparr>error_message := Some (case msg of Some m \<Rightarrow> m | None \<Rightarrow> Text (error_messages code)),
        error_code := code\<rparr>) \<and>
     heap w1 = heap w \<and> sessions w1 = sessions w \<and>
     obl_database_ok d w1 = Ok (code = OBL_OK) w1 \<and>
     (\<exists>w2. obl_clear_error d w1 = Ok () w2 \<and> obl_database_ok d w2 = Ok True w2)"
proof -
  obtain w1 where w1: "obl_report_error d code msg w = Ok () w1"
    "only_log (w\<lparr>databases := (databases w)(d \<mapsto> db\<lparr>error_message := Some (case msg of Some m \<Rightarrow> m | None \<Rightarrow> Text (error_messages code)),
        error_code := code\<rparr>)\<rparr>) w1"
    using obl_report_error_run [OF assms] by blast
  from only_log_frame [OF w1(2)] w1(1) show ?thesis
    by (simp add: obl_database_ok_def obl_clear_error_def run)
qed

text \<open>A process with one open in-memory database at pointer 20, whose content is given.\<close>

definition plain_database :: "memory \<Rightarrow> obl_database" where
  "plain_database m =
     \<lparr>configuration = \<lparr>filename = None, prohibit_creation = False, growth_size = 4096,
        log_filename = None, log_level = L_NOTICE, default_stub_depth = 4, zero_check = False\<rparr>,
      error_message = None, error_code = OBL_OK,
      root = \<lparr>address_map_addr = 12, allocator_addr = 1, shape_map_addr = 0, name_map_addr = 0,
        dirty = False\<rparr>,
      content = Some m, content_size = of_nat (capacity m), content_mutex = 1, session_list = [],
      session_list_mutex = 1\<rparr>"

definition database_world :: "memory \<Rightarrow> world" where
  "database_world m = initial_world\<lparr>databases := [20 \<mapsto> plain_database m], next_ptr := 30\<rparr>"

text \<open>The same with an idle session at pointer 21.\<close>

definition session_at :: "ptr \<Rightarrow> obl_session" where
  "session_at d = \<lparr>ses_database = d, current_transaction = NULL,
     read_set = Some \<lparr>set_root = Tip, set_keyfunction = logical_address_keyfunction\<rparr>,
     session_mutex = 1\<rparr>"

definition session_world :: "memory \<Rightarrow> world" where
  "session_world m = (database_world m)\<lparr>sessions := [21 \<mapsto> session_at 20]\<rparr>"

end
