(* ===== verification/WorldFacts.thy ===== *)
theory WorldFacts
  imports Database StoreFacts
begin

text \<open>
  The invariant of a started process, the storage type of an object in it, and what creating an
  object does: the functions of \<open>storage/*.c\<close> that allocate, run symbolically.
\<close>

section \<open>Storage types of objects\<close>

abbreviation nil_ptr :: "world \<Rightarrow> ptr" where
  "nil_ptr w \<equiv> fixed_ptr w OBL_NIL_ADDR"

text \<open>A shape object whose instances have the given storage format.\<close>

definition shape_at :: "world \<Rightarrow> ptr \<Rightarrow> obl_uint \<Rightarrow> bool" where
  "shape_at w p f \<longleftrightarrow>
     (\<exists>x st. heap w p = Some x \<and> obj_shape x = nil_ptr w \<and> obj_storage x = Shape_storage st \<and>
        shape_storage_format st = f)"

text \<open>An object whose shape is such a shape, or a shape itself.\<close>

definition typed_at :: "world \<Rightarrow> ptr \<Rightarrow> obl_storage_type \<Rightarrow> bool" where
  "typed_at w p t \<longleftrightarrow>
     (\<exists>x. heap w p = Some x \<and>
        (if obj_shape x = nil_ptr w then t = OBL_SHAPE
         else \<exists>f. shape_at w (obj_shape x) f \<and> storage_type_of f = t))"

lemma storage_type_of_code:
  "storage_type_of (storage_code t) = t \<longleftrightarrow> (\<forall>u. t = OBL_OTHER u \<longrightarrow> u > OBL_STORAGE_TYPE_MAX)"
proof (cases t)
  case (OBL_OTHER u)
  have "storage_types ! unat u \<noteq> OBL_OTHER u" if "u \<le> OBL_STORAGE_TYPE_MAX"
  proof -
    have "unat u < length storage_types"
      using that by (simp add: OBL_STORAGE_TYPE_MAX_def storage_types_def word_le_nat_alt)
    then have "storage_types ! unat u \<in> set storage_types" by simp
    then show ?thesis by (auto simp: storage_types_def)
  qed
  then show ?thesis using OBL_OTHER
    by (auto simp: storage_type_of_def)
qed (simp_all add: storage_type_of_def OBL_STORAGE_TYPE_MAX_def storage_types_def)

lemma storage_type_of_simps [simp]:
  "storage_type_of 0 = OBL_SHAPE" "storage_type_of 1 = OBL_SLOTTED" "storage_type_of 2 = OBL_FIXED"
  "storage_type_of 4 = OBL_ADDRTREEPAGE" "storage_type_of 5 = OBL_INTEGER"
  "storage_type_of 9 = OBL_STRING" "storage_type_of 10 = OBL_BOOLEAN" "storage_type_of 11 = OBL_NIL"
  "storage_type_of 12 = OBL_STUB"
  by (simp_all add: storage_type_of_def OBL_STORAGE_TYPE_MAX_def storage_types_def)

lemma obl_storage_of_run:
  assumes "typed_at w p t"
  shows "obl_storage_of p w = Ok t w"
  using assms
  by (auto simp: typed_at_def shape_at_def obl_storage_of_def obl_object_shape_def
      shape_storagetype_by_def shape_storage_of_def run split: if_split_asm)

lemma obl_shape_storagetype_run:
  assumes "shape_at w p f"
  shows "obl_shape_storagetype p w = Ok (storage_type_of f) w"
proof -
  have "typed_at w p OBL_SHAPE"
    using assms by (auto simp: shape_at_def typed_at_def)
  from obl_storage_of_run [OF this] assms show ?thesis
    by (auto simp: obl_shape_storagetype_def shape_storagetype_by_def shape_storage_of_def
        shape_at_def run)
qed

section \<open>The invariant\<close>

text \<open>The storage format that each fixed shape gives its instances.\<close>

fun fixed_format :: "obl_fixed_address \<Rightarrow> obl_storage_type option" where
  "fixed_format OBL_INTEGER_SHAPE_ADDR = Some OBL_INTEGER"
| "fixed_format OBL_FLOAT_SHAPE_ADDR = Some OBL_FLOAT"
| "fixed_format OBL_DOUBLE_SHAPE_ADDR = Some OBL_DOUBLE"
| "fixed_format OBL_CHAR_SHAPE_ADDR = Some OBL_CHAR"
| "fixed_format OBL_STRING_SHAPE_ADDR = Some OBL_STRING"
| "fixed_format OBL_FIXED_SHAPE_ADDR = Some OBL_FIXED"
| "fixed_format OBL_CHUNK_SHAPE_ADDR = Some OBL_CHUNK"
| "fixed_format OBL_ADDRTREEPAGE_SHAPE_ADDR = Some OBL_ADDRTREEPAGE"
| "fixed_format OBL_ALLOCATOR_SHAPE_ADDR = Some OBL_SLOTTED"
| "fixed_format OBL_NIL_SHAPE_ADDR = Some OBL_NIL"
| "fixed_format OBL_BOOLEAN_SHAPE_ADDR = Some OBL_BOOLEAN"
| "fixed_format OBL_STUB_SHAPE_ADDR = Some OBL_STUB"
| "fixed_format _ = None"

text \<open>The shape and the storage of the other three, nil and the booleans.\<close>

fun instance_of :: "obl_fixed_address \<Rightarrow> obl_fixed_address \<times> obl_storage" where
  "instance_of OBL_NIL_ADDR = (OBL_NIL_SHAPE_ADDR, Null_storage)"
| "instance_of OBL_TRUE_ADDR = (OBL_BOOLEAN_SHAPE_ADDR, Boolean_storage \<lparr>boolean_value = 1\<rparr>)"
| "instance_of OBL_FALSE_ADDR = (OBL_BOOLEAN_SHAPE_ADDR, Boolean_storage \<lparr>boolean_value = 0\<rparr>)"
| "instance_of a = (a, Unset)"

definition fixed_content :: "world \<Rightarrow> obl_fixed_address \<Rightarrow> obl_object \<Rightarrow> bool" where
  "fixed_content w a x \<longleftrightarrow> obj_session x = NULL \<and>
     (case fixed_format a of
        Some t \<Rightarrow> obj_shape x = nil_ptr w \<and> fixed_ptr w a \<noteq> nil_ptr w \<and>
          (\<exists>st. obj_storage x = Shape_storage st \<and> shape_storage_format st = storage_code t)
      | None \<Rightarrow> obj_shape x = fixed_ptr w (fst (instance_of a)) \<and>
          obj_storage x = snd (instance_of a))"

definition fixed_object :: "world \<Rightarrow> obl_fixed_address \<Rightarrow> bool" where
  "fixed_object w a \<longleftrightarrow>
     fixed_ptr w a \<noteq> NULL \<and>
     (\<exists>x. heap w (fixed_ptr w a) = Some x \<and> logical_address x = fixed_addr a \<and>
        physical_address x = OBL_PHYSICAL_UNASSIGNED \<and> fixed_content w a x)"

text \<open>
  \<open>fixed_ok\<close>: every fixed address has its object, with its address and without a session, and the
  fixed shapes have their formats. \<open>fresh\<close>: no pointer from \<open>next_ptr\<close> on has been handed out.
\<close>

definition fixed_ok :: "world \<Rightarrow> bool" where
  "fixed_ok w \<longleftrightarrow> length (fixed_space w) = OBL_FIXED_SIZE \<and> (\<forall>a. fixed_object w a)"

definition fresh :: "world \<Rightarrow> bool" where
  "fresh w \<longleftrightarrow> 0 < next_ptr w \<and> heap w NULL = None \<and> (\<forall>p\<ge>next_ptr w. heap w p = None)"

definition world_ok :: "world \<Rightarrow> bool" where
  "world_ok w \<longleftrightarrow> fixed_ok w \<and> fresh w"

lemma fixed_okD:
  assumes "fixed_ok w"
  shows "fixed_ptr w a \<noteq> NULL" "\<exists>x. heap w (fixed_ptr w a) = Some x \<and> logical_address x = fixed_addr a"
    "fixed_format a = Some t \<Longrightarrow> shape_at w (fixed_ptr w a) (storage_code t)"
    "fixed_format a = Some t \<Longrightarrow> fixed_ptr w a \<noteq> nil_ptr w"
proof -
  have "fixed_object w a" using assms by (simp add: fixed_ok_def)
  then show "fixed_ptr w a \<noteq> NULL"
    "\<exists>x. heap w (fixed_ptr w a) = Some x \<and> logical_address x = fixed_addr a"
    "fixed_format a = Some t \<Longrightarrow> shape_at w (fixed_ptr w a) (storage_code t)"
    "fixed_format a = Some t \<Longrightarrow> fixed_ptr w a \<noteq> nil_ptr w"
    by (auto simp: fixed_object_def fixed_content_def shape_at_def)
qed

text \<open>Different fixed addresses have different objects.\<close>

lemma fixed_ptr_inj: "fixed_ok w \<Longrightarrow> fixed_ptr w a = fixed_ptr w b \<longleftrightarrow> a = b"
proof
  assume ok: "fixed_ok w" and eq: "fixed_ptr w a = fixed_ptr w b"
  from fixed_okD(2) [OF ok, of a] fixed_okD(2) [OF ok, of b] eq
  have "fixed_addr a = fixed_addr b" by auto
  then have "i_index_for_fixed (fixed_addr a) = i_index_for_fixed (fixed_addr b)" by simp
  then show "a = b" by simp
qed simp

text \<open>The invariant is about the fixed objects and the heap only.\<close>

lemma shape_at_cong:
  "heap w' p = heap w p \<Longrightarrow> fixed_space w' = fixed_space w \<Longrightarrow> shape_at w' p f = shape_at w p f"
  by (simp add: shape_at_def fixed_ptr_def)

definition same_fixed :: "world \<Rightarrow> world \<Rightarrow> bool" where
  "same_fixed w w' \<longleftrightarrow> fixed_space w' = fixed_space w \<and>
     (\<forall>a. heap w' (fixed_ptr w a) = heap w (fixed_ptr w a))"

lemma same_fixed_ptr: "same_fixed w w' \<Longrightarrow> fixed_ptr w' a = fixed_ptr w a"
  by (simp add: same_fixed_def fixed_ptr_def)

lemma fixed_ok_same:
  assumes "fixed_ok w" "same_fixed w w'"
  shows "fixed_ok w'"
proof -
  have ptr: "fixed_ptr w' = fixed_ptr w" and "fixed_space w' = fixed_space w"
    and "\<And>a. heap w' (fixed_ptr w a) = heap w (fixed_ptr w a)"
    using assms(2) by (auto simp: same_fixed_def fixed_ptr_def)
  then have "fixed_object w' a = fixed_object w a" for a
    by (simp add: fixed_object_def fixed_content_def cong: option.case_cong)
  with \<open>fixed_space w' = fixed_space w\<close> show ?thesis
    using assms(1) by (simp add: fixed_ok_def)
qed

lemma same_fixed_refl [simp]: "same_fixed w w"
  by (simp add: same_fixed_def)

lemma same_fixed_trans: "same_fixed w w' \<Longrightarrow> same_fixed w' w'' \<Longrightarrow> same_fixed w w''"
  by (auto simp: same_fixed_def fixed_ptr_def)

lemma shape_at_same:
  "fixed_ok w \<Longrightarrow> same_fixed w w' \<Longrightarrow> fixed_format a = Some t \<Longrightarrow>
     shape_at w' (fixed_ptr w a) (storage_code t)"
  using fixed_okD(3) fixed_ok_same same_fixed_ptr by metis

text \<open>An instance of a fixed shape has the storage type of that shape.\<close>

lemma typed_instance:
  assumes "fixed_ok w" "heap w p = Some x" "obj_shape x = fixed_ptr w a" "fixed_format a = Some t"
  shows "typed_at w p t"
proof -
  have "storage_type_of (storage_code t) = t"
    using assms(4) by (subst storage_type_of_code) (cases a; auto)
  then show ?thesis
    using assms(2,3) fixed_okD(3,4) [OF assms(1,4)] by (auto simp: typed_at_def)
qed

lemma fixed_object_typed:
  assumes "fixed_ok w"
  shows "typed_at w (nil_ptr w) OBL_NIL" "typed_at w (fixed_ptr w OBL_TRUE_ADDR) OBL_BOOLEAN"
    "typed_at w (fixed_ptr w OBL_FALSE_ADDR) OBL_BOOLEAN"
    "fixed_format a = Some t \<Longrightarrow> typed_at w (fixed_ptr w a) OBL_SHAPE"
proof -
  have inst: "typed_at w (fixed_ptr w a) t"
    if fmt: "fixed_format a = None" "fixed_format (fst (instance_of a)) = Some t" for a t
  proof -
    have "fixed_object w a" using assms by (simp add: fixed_ok_def)
    then obtain x where "heap w (fixed_ptr w a) = Some x"
      "obj_shape x = fixed_ptr w (fst (instance_of a))"
      using fmt by (auto simp: fixed_object_def fixed_content_def)
    then show ?thesis using typed_instance [OF assms _ _ fmt(2)] by blast
  qed
  show "typed_at w (nil_ptr w) OBL_NIL" "typed_at w (fixed_ptr w OBL_TRUE_ADDR) OBL_BOOLEAN"
    "typed_at w (fixed_ptr w OBL_FALSE_ADDR) OBL_BOOLEAN"
    by (rule inst; simp)+
  show "typed_at w (fixed_ptr w a) OBL_SHAPE" if "fixed_format a = Some t"
    using fixed_okD(3) [OF assms that] by (auto simp: shape_at_def typed_at_def)
qed

lemma typed_at_unique: "typed_at w p t \<Longrightarrow> typed_at w p t' \<Longrightarrow> t' = t"
  using obl_storage_of_run [of w p t] obl_storage_of_run [of w p t'] by simp

text \<open>An object of any other storage type is none of the fixed objects.\<close>

lemma typed_not_fixed:
  assumes "fixed_ok w" "typed_at w p t" "t \<notin> {OBL_NIL, OBL_BOOLEAN, OBL_SHAPE}"
  shows "p \<noteq> fixed_ptr w a"
proof
  assume p: "p = fixed_ptr w a"
  have "\<exists>t'\<in>{OBL_NIL, OBL_BOOLEAN, OBL_SHAPE}. typed_at w p t'"
    using fixed_object_typed [OF assms(1)] p by (cases a) (auto dest: meta_spec)
  with assms(2,3) typed_at_unique show False by blast
qed

section \<open>New objects\<close>

text \<open>An object as the allocating functions leave it: no session, no addresses.\<close>

definition plain_object :: "ptr \<Rightarrow> obl_storage \<Rightarrow> obl_object" where
  "plain_object shape st = \<lparr>obj_session = NULL, logical_address = OBL_LOGICAL_UNASSIGNED,
     physical_address = OBL_PHYSICAL_UNASSIGNED, obj_shape = shape, obj_storage = st\<rparr>"

definition put_object :: "ptr \<Rightarrow> obl_object \<Rightarrow> world \<Rightarrow> world" where
  "put_object p x w = w\<lparr>heap := (heap w)(p \<mapsto> x)\<rparr>"

definition add_object :: "obl_object \<Rightarrow> world \<Rightarrow> world" where
  "add_object x w = w\<lparr>heap := (heap w)(next_ptr w \<mapsto> x), next_ptr := Suc (next_ptr w)\<rparr>"

lemma plain_object_simps [simp]:
  "obj_session (plain_object s st) = NULL" "logical_address (plain_object s st) = 0"
  "physical_address (plain_object s st) = 0" "obj_shape (plain_object s st) = s"
  "obj_storage (plain_object s st) = st"
  by (simp_all add: plain_object_def)

lemma put_object_simps [simp]:
  "heap (put_object p x w) q = (if q = p then Some x else heap w q)"
  "sessions (put_object p x w) = sessions w" "transactions (put_object p x w) = transactions w"
  "databases (put_object p x w) = databases w" "next_ptr (put_object p x w) = next_ptr w"
  "fixed_space (put_object p x w) = fixed_space w" "malloc_budget (put_object p x w) = malloc_budget w"
  "log_lines (put_object p x w) = log_lines w"
  "ambient_log_level (put_object p x w) = ambient_log_level w"
  "fixed_ptr (put_object p x w) a = fixed_ptr w a"
  by (simp_all add: put_object_def)

lemma add_object_simps [simp]:
  "heap (add_object x w) q = (if q = next_ptr w then Some x else heap w q)"
  "sessions (add_object x w) = sessions w" "transactions (add_object x w) = transactions w"
  "databases (add_object x w) = databases w" "next_ptr (add_object x w) = Suc (next_ptr w)"
  "fixed_space (add_object x w) = fixed_space w" "malloc_budget (add_object x w) = malloc_budget w"
  "log_lines (add_object x w) = log_lines w"
  "ambient_log_level (add_object x w) = ambient_log_level w"
  "fixed_ptr (add_object x w) a = fixed_ptr w a"
  by (simp_all add: add_object_def fixed_ptr_def)

lemma put_object_put [simp]: "put_object p x (put_object p y w) = put_object p x w"
  by (simp add: put_object_def)

lemma put_object_add [simp]: "put_object (next_ptr w) x (add_object y w) = add_object x w"
  by (simp add: put_object_def add_object_def)

lemma update_object_run:
  "heap w p = Some x \<Longrightarrow> update_object p f w = Ok () (put_object p (f x) w)"
  by (simp add: run put_object_def)

lemma allocate_object_run:
  "malloc_budget w = None \<Longrightarrow>
     i_obl_allocate_object w = Ok (next_ptr w) (add_object (plain_object NULL Unset) w)"
  by (simp add: i_obl_allocate_object_def run plain_object_def add_object_def)

lemma with_storage_block_run:
  "malloc_budget w = None \<Longrightarrow> with_storage_block p d m w = m w"
  by (simp add: with_storage_block_def run)

lemma freshD: "fresh w \<Longrightarrow> heap w p = Some x \<Longrightarrow> p < next_ptr w \<and> p \<noteq> NULL"
  by (cases "p = NULL"; auto simp: fresh_def not_less [symmetric])

lemma fresh_free [simp]: "fresh w \<Longrightarrow> heap w (next_ptr w) = None" "fresh w \<Longrightarrow> 0 < next_ptr w"
  by (simp_all add: fresh_def)

lemma world_ok_cong:
  "heap w' = heap w \<Longrightarrow> next_ptr w' = next_ptr w \<Longrightarrow> fixed_space w' = fixed_space w \<Longrightarrow>
     world_ok w' = world_ok w"
  by (simp add: world_ok_def fresh_def fixed_ok_def fixed_object_def fixed_content_def fixed_ptr_def
      cong: option.case_cong)

lemma world_ok_frame [simp]:
  "world_ok (w\<lparr>sessions := s\<rparr>) = world_ok w" "world_ok (w\<lparr>transactions := t\<rparr>) = world_ok w"
  "world_ok (w\<lparr>databases := b\<rparr>) = world_ok w" "world_ok (w\<lparr>log_lines := l\<rparr>) = world_ok w"
  "world_ok (w\<lparr>malloc_budget := c\<rparr>) = world_ok w" "world_ok (put_content p m w) = world_ok w"
  by (rule world_ok_cong; simp)+

lemma fresh_fixed_space [simp]: "fresh (w\<lparr>fixed_space := l\<rparr>) = fresh w"
  by (simp add: fresh_def)

lemma fresh_add [simp]: "fresh w \<Longrightarrow> fresh (add_object x w)"
  by (simp add: fresh_def)

lemma fresh_put [simp]: "fresh w \<Longrightarrow> heap w p \<noteq> None \<Longrightarrow> fresh (put_object p x w)"
  using freshD [of w p] by (auto simp: fresh_def)

lemma world_ok_add:
  assumes "world_ok w"
  shows "world_ok (add_object x w)" "same_fixed w (add_object x w)"
proof -
  have "fixed_ptr w a \<noteq> next_ptr w" for a
    using assms fixed_okD(2) [of w a] by (auto simp: world_ok_def fresh_def)
  then show "same_fixed w (add_object x w)"
    by (simp add: same_fixed_def)
  with assms show "world_ok (add_object x w)"
    using fixed_ok_same by (auto simp: world_ok_def fresh_def)
qed

lemma world_ok_put:
  assumes "world_ok w" "heap w p = Some y" "\<And>a. p \<noteq> fixed_ptr w a"
  shows "world_ok (put_object p x w)" "same_fixed w (put_object p x w)"
proof -
  show "same_fixed w (put_object p x w)"
    using assms(3) by (auto simp: same_fixed_def)
  then show "world_ok (put_object p x w)"
    using assms(1,2) fixed_ok_same by (auto simp: world_ok_def)
qed

lemma same_fixed_put: "(\<And>a. p \<noteq> fixed_ptr w a) \<Longrightarrow> same_fixed w (put_object p x w)"
  by (auto simp: same_fixed_def)

lemma shape_at_add:
  "shape_at w s f \<Longrightarrow> heap w (next_ptr w) = None \<Longrightarrow> shape_at (add_object y w) s f"
  by (auto simp: shape_at_def)

lemma typed_at_add:
  assumes "typed_at w p t" "heap w (next_ptr w) = None"
  shows "typed_at (add_object y w) p t"
proof -
  obtain x where x: "heap w p = Some x"
    "if obj_shape x = nil_ptr w then t = OBL_SHAPE
     else \<exists>f. shape_at w (obj_shape x) f \<and> storage_type_of f = t"
    using assms(1) by (auto simp: typed_at_def)
  then have "p \<noteq> next_ptr w" using assms(2) by auto
  with x shape_at_add [OF _ assms(2)] show ?thesis
    by (auto simp: typed_at_def split: if_split_asm)
qed

lemma shape_at_put: "shape_at w s f \<Longrightarrow> s \<noteq> p \<Longrightarrow> shape_at (put_object p x w) s f"
  by (auto simp: shape_at_def)

text \<open>Writing an object keeps its storage type when its shape stays.\<close>

lemma typed_at_put:
  assumes "typed_at w p t" "heap w p = Some x" "obj_shape y = obj_shape x"
  shows "typed_at (put_object p y w) p t"
proof (cases "obj_shape x = nil_ptr w")
  case True
  with assms show ?thesis by (simp add: typed_at_def)
next
  case False
  with assms obtain f where f: "shape_at w (obj_shape x) f" "storage_type_of f = t"
    by (auto simp: typed_at_def)
  with False assms(2) have "obj_shape x \<noteq> p" by (auto simp: shape_at_def)
  with f False assms(3) show ?thesis
    using shape_at_put [OF f(1)] by (auto simp: typed_at_def)
qed

section \<open>Worlds that keep their objects\<close>

text \<open>Writing an object that is no shape keeps the storage types of all objects.\<close>

lemma typed_at_put_other:
  assumes "typed_at w p t" "t \<noteq> OBL_SHAPE" "heap w p = Some x" "obj_shape y = obj_shape x"
    and "typed_at w q t'"
  shows "typed_at (put_object p y w) q t'"
proof (cases "q = p")
  case True
  then show ?thesis using typed_at_put [OF assms(5)] assms(3,4) by simp
next
  case False
  have "s \<noteq> p" if "shape_at w s f" for s f
  proof -
    have "typed_at w s OBL_SHAPE" using that by (auto simp: shape_at_def typed_at_def)
    then show ?thesis using typed_at_unique [OF assms(1)] assms(2) by auto
  qed
  then have "shape_at (put_object p y w) s f" if "shape_at w s f" for s f
    using that shape_at_put by blast
  then show ?thesis
    using assms(5) False by (auto simp: typed_at_def split: if_split_asm)
qed

text \<open>A string object with the given units, at the beginning of a block that may be longer.\<close>

definition string_block :: "world \<Rightarrow> ptr \<Rightarrow> UChar list \<Rightarrow> UChar list \<Rightarrow> bool" where
  "string_block w p us rest \<longleftrightarrow> typed_at w p OBL_STRING \<and>
     (\<exists>x. heap w p = Some x \<and> obj_storage x = String_storage
        \<lparr>string_length = of_nat (length us), string_contents = us @ rest\<rparr>) \<and> length us < 2 ^ 31"

definition string_at :: "world \<Rightarrow> ptr \<Rightarrow> UChar list \<Rightarrow> bool" where
  "string_at w p us \<longleftrightarrow> (\<exists>rest. string_block w p us rest)"

lemma string_at_typed: "string_at w p us \<Longrightarrow> typed_at w p OBL_STRING \<and> length us < 2 ^ 31"
  by (auto simp: string_at_def string_block_def)

text \<open>
  Every object is still there, with its shape and its storage; its addresses and its session may have
  changed, and there may be more objects.
\<close>

definition keeps :: "world \<Rightarrow> world \<Rightarrow> bool" where
  "keeps w w' \<longleftrightarrow> nil_ptr w' = nil_ptr w \<and>
     (\<forall>p x. heap w p = Some x \<longrightarrow>
        (\<exists>x'. heap w' p = Some x' \<and> obj_shape x' = obj_shape x \<and> obj_storage x' = obj_storage x))"

lemma keepsD:
  assumes "keeps w w'" "heap w p = Some x"
  obtains x' where "heap w' p = Some x'" "obj_shape x' = obj_shape x" "obj_storage x' = obj_storage x"
  using assms unfolding keeps_def by blast

lemma keeps_refl [simp]: "keeps w w"
  by (simp add: keeps_def)

lemma keeps_trans: "keeps w w' \<Longrightarrow> keeps w' w'' \<Longrightarrow> keeps w w''"
  unfolding keeps_def by (elim conjE) (intro conjI allI impI; metis)

lemma keeps_frame: "heap w' = heap w \<Longrightarrow> nil_ptr w' = nil_ptr w \<Longrightarrow> keeps w w'"
  by (simp add: keeps_def)

lemma keeps_add: "heap w (next_ptr w) = None \<Longrightarrow> keeps w (add_object y w)"
  by (auto simp: keeps_def)

lemma keeps_put:
  "heap w p = Some x \<Longrightarrow> obj_shape y = obj_shape x \<Longrightarrow> obj_storage y = obj_storage x \<Longrightarrow>
     keeps w (put_object p y w)"
  by (auto simp: keeps_def)

text \<open>What happens to an object that was not there before does not matter.\<close>

lemma keeps_put_new: "keeps w w' \<Longrightarrow> heap w p = None \<Longrightarrow> keeps w (put_object p y w')"
  by (auto simp: keeps_def)

lemma keeps_nil: "keeps w w' \<Longrightarrow> nil_ptr w' = nil_ptr w"
  by (simp add: keeps_def)

lemma keeps_shape_at: "keeps w w' \<Longrightarrow> shape_at w p f \<Longrightarrow> shape_at w' p f"
  unfolding shape_at_def by (elim exE conjE, frule keeps_nil, erule (1) keepsD) auto

lemma keeps_typed_at:
  assumes "keeps w w'" "typed_at w p t"
  shows "typed_at w' p t"
proof -
  obtain x where x: "heap w p = Some x"
    "if obj_shape x = nil_ptr w then t = OBL_SHAPE
     else \<exists>f. shape_at w (obj_shape x) f \<and> storage_type_of f = t"
    using assms(2) by (auto simp: typed_at_def)
  obtain x' where "heap w' p = Some x'" "obj_shape x' = obj_shape x"
    using keepsD [OF assms(1) x(1)] by metis
  moreover have "nil_ptr w' = nil_ptr w" using assms(1) by (rule keeps_nil)
  ultimately show ?thesis
    using x(2) keeps_shape_at [OF assms(1)] by (auto simp: typed_at_def split: if_split_asm)
qed

lemma keeps_string_at:
  assumes "keeps w w'" "string_at w p us"
  shows "string_at w' p us"
  using assms(2) keeps_typed_at [OF assms(1)] keepsD [OF assms(1)]
  unfolding string_at_def string_block_def by metis

section \<open>Creating objects\<close>

text \<open>The creating functions, when memory suffices.\<close>

lemma create_integer_run:
  assumes "malloc_budget w = None" "0 < next_ptr w"
  shows "obl_create_integer i w = Ok (next_ptr w)
     (add_object (plain_object (fixed_ptr w OBL_INTEGER_SHAPE_ADDR)
        (Integer_storage \<lparr>integer_value = i\<rparr>)) w)"
  using assms
  by (simp add: obl_create_integer_def allocate_object_run with_storage_block_run update_object_run
      at_fixed_address_run bindM_run thenM_run retM_run plain_object_def)

lemma create_bool_run:
  assumes "malloc_budget w = None" "0 < next_ptr w"
  shows "i_obl_create_bool b w = Ok (next_ptr w)
     (add_object (plain_object (fixed_ptr w OBL_BOOLEAN_SHAPE_ADDR)
        (Boolean_storage \<lparr>boolean_value = (if b then 1 else 0)\<rparr>)) w)"
  using assms
  by (simp add: i_obl_create_bool_def allocate_object_run with_storage_block_run update_object_run
      at_fixed_address_run bindM_run thenM_run retM_run plain_object_def)

lemma create_nil_run:
  assumes "malloc_budget w = None" "0 < next_ptr w"
  shows "i_obl_create_nil w = Ok (next_ptr w)
     (add_object (plain_object (fixed_ptr w OBL_NIL_SHAPE_ADDR) Null_storage) w)"
  using assms
  by (simp add: i_obl_create_nil_def allocate_object_run update_object_run
      at_fixed_address_run bindM_run thenM_run retM_run plain_object_def)

lemma create_addrtreepage_run:
  assumes "malloc_budget w = None" "0 < next_ptr w"
  shows "obl_create_addrtreepage h w = Ok (next_ptr w)
     (add_object (plain_object (fixed_ptr w OBL_ADDRTREEPAGE_SHAPE_ADDR)
        (Addrtreepage_storage \<lparr>page_height = h,
           page_contents = replicate CHUNK_SIZE OBL_PHYSICAL_UNASSIGNED\<rparr>)) w)"
  using assms
  by (simp add: obl_create_addrtreepage_def allocate_object_run with_storage_block_run
      update_object_run at_fixed_address_run bindM_run thenM_run retM_run plain_object_def)

lemma allocate_string_run:
  assumes "malloc_budget w = None" "0 < next_ptr w"
  shows "i_allocate_string uc n w = Ok (next_ptr w)
     (add_object (plain_object (fixed_ptr w OBL_STRING_SHAPE_ADDR)
        (String_storage \<lparr>string_length = n, string_contents = uc\<rparr>)) w)"
  using assms
  by (simp add: i_allocate_string_def allocate_object_run with_storage_block_run update_object_run
      at_fixed_address_run bindM_run thenM_run retM_run plain_object_def)

lemma create_string_run:
  assumes "malloc_budget w = None" "0 < next_ptr w" "unat n \<le> length uc"
  shows "obl_create_string uc n w = Ok (next_ptr w)
     (add_object (plain_object (fixed_ptr w OBL_STRING_SHAPE_ADDR)
        (String_storage \<lparr>string_length = n, string_contents = take (unat n) uc\<rparr>)) w)"
  using assms
  by (simp add: obl_create_string_def malloc_run allocate_string_run bindM_run)

lemma create_fixed_run:
  assumes "malloc_budget w = None" "0 < next_ptr w"
  shows "obl_create_fixed n w = Ok (next_ptr w)
     (add_object (plain_object (fixed_ptr w OBL_FIXED_SHAPE_ADDR)
        (Fixed_storage \<lparr>fixed_length = n, fixed_contents = replicate (unat n) (nil_ptr w)\<rparr>)) w)"
  using assms
  by (simp add: obl_create_fixed_def allocate_object_run with_storage_block_run update_object_run
      at_fixed_address_run constants_run bindM_run thenM_run retM_run plain_object_def)

lemma create_shape_run:
  assumes "malloc_budget w = None" "0 < next_ptr w"
  shows "obl_create_shape name slot_names t w = Ok (next_ptr w)
     (add_object (plain_object (nil_ptr w)
        (Shape_storage \<lparr>shape_name = name, shape_slot_names = slot_names,
           shape_current_shape = nil_ptr w, shape_storage_format = storage_code t\<rparr>)) w)"
  using assms
  by (simp add: obl_create_shape_def allocate_object_run with_storage_block_run update_object_run
      constants_run bindM_run thenM_run retM_run plain_object_def)

lemmas create_run = create_integer_run create_bool_run create_nil_run create_addrtreepage_run
  allocate_string_run create_string_run create_fixed_run create_shape_run

end
