(* ===== verification/Blocks.thy ===== *)
theory Blocks
  imports WorldFacts
begin

text \<open>
  Loops over the words and the 16-bit units of the content: what the array-filling loops of the write
  functions leave behind, and what the reading loops see.
\<close>

section \<open>Blocks of words\<close>

definition store_words :: "memory \<Rightarrow> nat \<Rightarrow> obl_uint list \<Rightarrow> memory" where
  "store_words m b vs = m\<lparr>cells := (\<lambda>j. if b \<le> j \<and> j < b + length vs then vs ! (j - b) else cells m j)\<rparr>"

lemma store_words_simps [simp]:
  "cells (store_words m b vs) j = (if b \<le> j \<and> j < b + length vs then vs ! (j - b) else cells m j)"
  "capacity (store_words m b vs) = capacity m"
  by (simp_all add: store_words_def)

lemma memory_eqI:
  "(\<And>j. cells m j = cells m' j) \<Longrightarrow> capacity m = capacity m' \<Longrightarrow> m = (m' :: memory)"
  by (rule memory.equality) auto

lemma store_words_Nil [simp]: "store_words m b [] = m"
  by (rule memory_eqI) auto

lemma store_words_snoc: "store (store_words m b vs) (b + length vs) v = store_words m b (vs @ [v])"
proof (rule memory_eqI)
  fix j
  consider "j < b" | i where "j = b + i" "i < length vs" | "j = b + length vs" | "b + length vs < j"
    by (metis le_add_diff_inverse less_diff_conv2 linorder_cases not_less add.commute)
  then show "cells (store (store_words m b vs) (b + length vs) v) j = cells (store_words m b (vs @ [v])) j"
    by cases (simp_all add: nth_append)
qed simp

lemma store_words_one: "store m b v = store_words m b [v]"
  using store_words_snoc [of m b "[]" v] by simp

lemma store_words_append:
  "store_words (store_words m b us) (b + length us) vs = store_words m b (us @ vs)"
proof (induction vs rule: rev_induct)
  case (snoc v vs)
  then show ?case
    using store_words_snoc [of "store_words m b us" "b + length us" vs v]
      store_words_snoc [of m b "us @ vs" v] by (simp add: add.assoc)
qed simp

lemma unat_offset:
  "unat base + i < 2 ^ 32 \<Longrightarrow> unat (base + of_nat i :: obl_uint) = unat base + i"
  by (subst unat_plus_small) simp_all

lemma has_content_frame [simp]:
  "has_content (put_object p x w) d m = has_content w d m"
  "has_content (add_object x w) d m = has_content w d m"
  by (simp_all add: has_content_def)

lemma put_content_commute [simp]:
  "put_object p x (put_content d m w) = put_content d m (put_object p x w)"
  "add_object x (put_content d m w) = put_content d m (add_object x w)"
  by (simp_all add: put_content_def put_object_def add_object_def)

text \<open>A loop whose \<open>i\<close>-th iteration stores a word at \<open>base + i\<close> stores a block.\<close>

lemma write_block_run:
  assumes "has_content w d m" "unat base + n \<le> capacity m" "unat base + n \<le> 2 ^ 32"
    and "\<And>i m'. i < n \<Longrightarrow> capacity m' = capacity m \<Longrightarrow>
       g i (put_content d m' w) = write_cell d (base + of_nat i) (f i) (put_content d m' w)"
  shows "forM [0..<n] g w = Ok () (put_content d (store_words m (unat base) (map f [0..<n])) w)"
  using assms
proof (induction n)
  case 0
  then show ?case by (simp add: retM_run)
next
  case (Suc n)
  let ?m = "store_words m (unat base) (map f [0..<n])"
  have "forM [0..<n] g w = Ok () (put_content d ?m w)"
    by (rule Suc.IH) (use Suc.prems in simp_all)
  moreover have "g n (put_content d ?m w) =
      Ok () (put_content d (store_words m (unat base) (map f [0..<Suc n])) w)"
    using Suc.prems store_words_snoc [of m "unat base" "map f [0..<n]" "f n"]
    by (simp add: write_cell_run unat_offset)
  moreover have "[0..<Suc n] = [0..<n] @ [n]" by simp
  ultimately show ?case
    by (simp only: forM_append thenM_run forM.simps retM_run result.case)
qed

text \<open>A loop whose \<open>i\<close>-th iteration reads the word at \<open>base + i\<close>.\<close>

lemma read_block_run:
  assumes "has_content w d m" "unat base + n \<le> capacity m" "unat base + n \<le> 2 ^ 32" "i < n"
  shows "read_cell d (base + of_nat i) w = Ok (cells m (unat base + i)) w"
  using assms by (simp add: read_cell_run unat_offset)

section \<open>Blocks of 16-bit units\<close>

definition half_at :: "memory \<Rightarrow> nat \<Rightarrow> UChar" where
  "half_at m i = half_of (cells m (i div 2)) (odd i)"

lemma unit_index:
  "unat (drop_bit (Suc 0) i) = unat (i :: obl_uint) div 2" "bit i 0 = odd (unat i)"
proof -
  show "unat (drop_bit (Suc 0) i) = unat i div 2"
    using unat_div [of i 2] by (simp add: drop_bit_eq_div)
  have "bit i 0 = bit (unat i) 0" by (simp add: bit_unsigned_iff)
  then show "bit i 0 = odd (unat i)" by (simp only: bit_0)
qed

text \<open>Storing one unit, and the loop that stores \<open>n\<close> of them from unit \<open>h\<close> on.\<close>

definition store_half :: "memory \<Rightarrow> nat \<Rightarrow> UChar \<Rightarrow> memory" where
  "store_half m i u = store m (i div 2) (set_half (cells m (i div 2)) (odd i) u)"

lemma half_at_store: "half_at (store_half m i u) j = (if j = i then u else half_at m j)"
proof (cases "j div 2 = i div 2 \<and> j \<noteq> i")
  case True
  then have "odd j \<noteq> odd i" by (metis div_mult_mod_eq odd_iff_mod_2_eq_one even_iff_mod_2_eq_zero)
  with True show ?thesis
    by (simp add: half_at_def store_half_def half_of_set_other)
next
  case False
  then show ?thesis by (auto simp: half_at_def store_half_def half_of_set_half)
qed

lemma capacity_store_half [simp]: "capacity (store_half m i u) = capacity m"
  by (simp add: store_half_def)

lemma cells_store_half: "j \<noteq> i div 2 \<Longrightarrow> cells (store_half m i u) j = cells m j"
  by (simp add: store_half_def)

lemma write_half_run:
  assumes "has_content w d m" "unat i div 2 < capacity m"
  shows "write_half d i u w = Ok () (put_content d (store_half m (unat i) u) w)"
  using assms
  by (simp add: write_half_def bindM_run read_cell_run write_cell_run unit_index store_half_def)

lemma read_half_run:
  assumes "has_content w d m" "unat i div 2 < capacity m"
  shows "read_half d i w = Ok (half_at m (unat i)) w"
  using assms by (simp add: read_half_def bindM_run read_cell_run unit_index half_at_def retM_run)

fun store_halves :: "memory \<Rightarrow> nat \<Rightarrow> UChar list \<Rightarrow> memory" where
  "store_halves m h [] = m"
| "store_halves m h (u # us) = store_halves (store_half m h u) (Suc h) us"

lemma store_halves_snoc:
  "store_halves m h (us @ [u]) = store_half (store_halves m h us) (h + length us) u"
  by (induction us arbitrary: m h) simp_all

lemma capacity_store_halves [simp]: "capacity (store_halves m h us) = capacity m"
  by (induction us arbitrary: m h) simp_all

lemma half_at_store_halves:
  "half_at (store_halves m h us) j =
     (if h \<le> j \<and> j < h + length us then us ! (j - h) else half_at m j)"
  by (induction us arbitrary: m h) (auto simp: half_at_store nth_Cons')

lemma cells_store_halves:
  "j < h div 2 \<or> (h + length us + 1) div 2 \<le> j \<Longrightarrow> cells (store_halves m h us) j = cells m j"
proof (induction us arbitrary: m h)
  case (Cons u us)
  have "h div 2 \<le> Suc h div 2" "h div 2 < (h + length (u # us) + 1) div 2"
    by (simp_all add: div_le_mono)
  with Cons show ?case by (auto simp: cells_store_half)
qed simp

lemma write_halves_run:
  assumes "has_content w d m" "unat h + n \<le> 2 * capacity m" "unat h + n \<le> 2 ^ 32"
    and "\<And>i m'. i < n \<Longrightarrow> capacity m' = capacity m \<Longrightarrow>
       g i (put_content d m' w) = write_half d (h + of_nat i) (f i) (put_content d m' w)"
  shows "forM [0..<n] g w = Ok () (put_content d (store_halves m (unat h) (map f [0..<n])) w)"
  using assms
proof (induction n)
  case 0
  then show ?case by (simp add: retM_run)
next
  case (Suc n)
  let ?m = "store_halves m (unat h) (map f [0..<n])"
  have "forM [0..<n] g w = Ok () (put_content d ?m w)"
    by (rule Suc.IH) (use Suc.prems in simp_all)
  moreover have "g n (put_content d ?m w) =
      Ok () (put_content d (store_halves m (unat h) (map f [0..<Suc n])) w)"
    using Suc.prems store_halves_snoc [of m "unat h" "map f [0..<n]" "f n"]
    by (simp add: write_half_run unat_offset)
  moreover have "[0..<Suc n] = [0..<n] @ [n]" by simp
  ultimately show ?case
    by (simp only: forM_append thenM_run forM.simps retM_run result.case)
qed

end
