(* ===== verification/Startup.thy ===== *)
theory Startup
  imports WorldFacts
begin

text \<open>
  Creating shapes from C strings (\<open>obl_create_cshape\<close>) and starting the library (\<open>obl_startup\<close>): the
  fixed space is built from an empty process and satisfies the invariant \<open>world_ok\<close>.
\<close>

section \<open>The converter\<close>

text \<open>
  What ICU documents (\<open>ucnv.h\<close>) of a converter that opens: every string has a conversion of at most two
  units for each of its bytes. The length of the conversion is returned for any capacity. When it
  fits, the conversion is at the beginning of the destination and the status is no failure; when it
  does not, the status is \<open>U_BUFFER_OVERFLOW_ERROR\<close>. The destination keeps its size.
\<close>

definition U_BUFFER_OVERFLOW_ERROR :: int where
  "U_BUFFER_OVERFLOW_ERROR = 15"

definition converts :: "icu \<Rightarrow> string \<Rightarrow> UChar list \<Rightarrow> bool" where
  "converts u c us \<longleftrightarrow> length us \<le> 2 * length c \<and>
     (\<forall>n. n < 2 ^ 31 \<longrightarrow>
       (case ucnv_toUChars u c (int (length c)) (int n) of (dest, converted_length, status) \<Rightarrow>
          length dest = n \<and> converted_length = int (length us) \<and>
          (if length us \<le> n then \<not> U_FAILURE status \<and> take (length us) dest = us
           else status = U_BUFFER_OVERFLOW_ERROR)))"

definition good_icu :: "icu \<Rightarrow> bool" where
  "good_icu u \<longleftrightarrow> \<not> U_FAILURE (ucnv_open u) \<and> (\<forall>c. length c < 2 ^ 30 \<longrightarrow> (\<exists>us. converts u c us))"

text \<open>The block that \<open>obl_create_cstring\<close> gives to the converter, and the conversion in it.\<close>

definition converted_block :: "icu \<Rightarrow> string \<Rightarrow> UChar list" where
  "converted_block u c = fst (ucnv_toUChars u c (int (length c)) (int (2 * length c)))"

definition converted :: "icu \<Rightarrow> string \<Rightarrow> UChar list" where
  "converted u c =
     take (nat (fst (snd (ucnv_toUChars u c (int (length c)) (int (2 * length c))))))
       (converted_block u c)"

lemma converted_run:
  assumes "good_icu u" "length c < 2 ^ 30"
  shows "\<exists>status. ucnv_toUChars u c (int (length c)) (int (2 * length c)) =
       (converted_block u c, int (length (converted u c)), status) \<and> \<not> U_FAILURE status"
    "length (converted u c) \<le> 2 * length c"
    "\<exists>rest. converted_block u c = converted u c @ rest"
proof -
  have small: "2 * length c < 2 ^ 31" using assms(2) by simp
  obtain us where us: "converts u c us"
    using assms unfolding good_icu_def by blast
  obtain dest len status where call:
    "ucnv_toUChars u c (int (length c)) (int (2 * length c)) = (dest, len, status)"
    by (metis prod_cases3)
  note us = us [unfolded converts_def]
  have len: "length us \<le> 2 * length c" by (rule conjunct1 [OF us])
  note converted = mp [OF spec [OF conjunct2 [OF us], of "2 * length c"] small]
  have "length dest = 2 * length c \<and> len = int (length us) \<and>
      \<not> U_FAILURE status \<and> take (length us) dest = us"
    using converted unfolding call prod.case if_P [OF len] .
  then have ok: "len = int (length us)" "\<not> U_FAILURE status" "take (length us) dest = us"
    by blast+
  have block: "converted_block u c = dest" using call by (simp only: converted_block_def fst_conv)
  have conv: "converted u c = us" using call ok by (simp only: converted_def block fst_conv snd_conv nat_int)
  show "\<exists>status. ucnv_toUChars u c (int (length c)) (int (2 * length c)) =
       (converted_block u c, int (length (converted u c)), status) \<and> \<not> U_FAILURE status"
    unfolding block conv using call ok(1,2) by (intro exI [of _ status]) (simp only: simp_thms)
  show "length (converted u c) \<le> 2 * length c" using len conv by simp
  have "dest = us @ drop (length us) dest" using ok(3) by (metis append_take_drop_id)
  then show "\<exists>rest. converted_block u c = converted u c @ rest" unfolding block conv by blast
qed

definition string_object :: "icu \<Rightarrow> ptr \<Rightarrow> string \<Rightarrow> obl_object" where
  "string_object u shape c = plain_object shape
     (String_storage \<lparr>string_length = of_nat (length (converted u c)),
        string_contents = converted_block u c\<rparr>)"

lemma cstring_object_run:
  assumes "good_icu u" "malloc_budget w = None" "0 < next_ptr w" "length c < 2 ^ 30"
  shows "cstring_object u c w = Ok (next_ptr w)
     (add_object (string_object u (fixed_ptr w OBL_STRING_SHAPE_ADDR) c) w)"
proof -
  have "sint (word_of_nat (length c) :: obl_uint) = int (length c)"
    using sint_of_nat_small [of "length c"] assms(4) by simp
  moreover have "sint (word_of_nat (length c) * 2 :: obl_uint) = int (2 * length c)"
    using sint_of_nat_small [of "2 * length c"] assms(4) by (simp add: mult.commute)
  moreover have "(word_of_int (int (length (converted u c))) :: obl_uint) = of_nat (length (converted u c))"
    by simp
  moreover obtain status where "ucnv_toUChars u c (int (length c)) (int (2 * length c)) =
       (converted_block u c, int (length (converted u c)), status)" "\<not> U_FAILURE status"
    using converted_run(1) [OF assms(1,4)] by blast
  moreover have "\<not> U_FAILURE (ucnv_open u)" using assms(1) by (simp add: good_icu_def)
  ultimately show ?thesis
    using assms(2,3)
    by (simp add: cstring_object_def obl_create_cstring_def bindM_run malloc_run
        allocate_string_run string_object_def del: of_nat_mult)
qed

section \<open>Filling a collection of names\<close>

lemma modify_without_session:
  assumes "heap w p = Some x" "obj_session x = NULL"
  shows "modify_in_transaction k p change w =
     (case change w of Ok _ w' \<Rightarrow> Ok () w' | Fault e \<Rightarrow> Fault e)"
  using assms
  by (simp add: modify_in_transaction_def obl_ensure_transaction_def obl_mark_dirty_def run
      split: result.split)

definition fixed_collection :: "world \<Rightarrow> ptr \<Rightarrow> obl_object \<Rightarrow> ptr list \<Rightarrow> bool" where
  "fixed_collection w p x elems \<longleftrightarrow> heap w p = Some x \<and> typed_at w p OBL_FIXED \<and>
     obj_storage x = Fixed_storage \<lparr>fixed_length = of_nat (length elems), fixed_contents = elems\<rparr> \<and>
     length elems < 2 ^ 31"

lemma fixed_size_run:
  "fixed_collection w p x elems \<Longrightarrow> obl_fixed_size p w = Ok (of_nat (length elems)) w"
  unfolding fixed_collection_def
  by (elim conjE) (simp add: obl_fixed_size_def obl_storage_of_run fixed_storage_of_def run)

lemma fixed_at_put_run:
  assumes "fixed_collection w p x elems" "obj_session x = NULL" "i < length elems"
  shows "obl_fixed_at_put k p (of_nat i) v w =
     Ok () (put_object p (x\<lparr>obj_storage := Fixed_storage
       \<lparr>fixed_length = of_nat (length elems), fixed_contents = elems[i := v]\<rparr>\<rparr>) w)"
proof -
  have small: "unat (of_nat i :: obl_uint) = i" "unat (of_nat (length elems) :: obl_uint) = length elems"
    using assms by (simp_all add: fixed_collection_def)
  then have "\<not> (of_nat (length elems) :: obl_uint) \<le> of_nat i"
    using assms(3) by (simp add: word_le_nat_alt)
  moreover have "obl_storage_of p w = Ok OBL_FIXED w" "heap w p = Some x"
    "obj_storage x = Fixed_storage \<lparr>fixed_length = of_nat (length elems), fixed_contents = elems\<rparr>"
    using assms(1) by (simp_all add: fixed_collection_def obl_storage_of_run)
  ultimately show ?thesis
    using assms(2,3) small fixed_size_run [OF assms(1)]
    by (simp add: obl_fixed_at_put_def bindM_run thenM_run
        modify_without_session set_fixed_content_def fixed_storage_of_def get_run retM_run
        nth_exec_run update_object_run)
qed

lemma add_put_commute:
  "p \<noteq> next_ptr w \<Longrightarrow> add_object y (put_object p x w) = put_object p x (add_object y w)"
  by (simp add: add_object_def put_object_def fun_upd_twist)

lemma put_object_same: "heap w p = Some x \<Longrightarrow> put_object p x w = w"
  by (simp add: put_object_def fun_upd_idem)

abbreviation with_elements :: "obl_object \<Rightarrow> ptr list \<Rightarrow> obl_object" where
  "with_elements x elems \<equiv> x\<lparr>obj_storage := Fixed_storage
     \<lparr>fixed_length = of_nat (length elems), fixed_contents = elems\<rparr>\<rparr>"

lemma fixed_collection_put:
  assumes "fixed_collection w p x elems" "length elems' = length elems"
  shows "fixed_collection (put_object p (with_elements x elems') w) p (with_elements x elems') elems'"
  using assms by (auto simp: fixed_collection_def intro: typed_at_put)

lemma fixed_collection_add:
  assumes "fixed_collection w p x elems" "heap w (next_ptr w) = None"
  shows "fixed_collection (add_object y w) p x elems"
  using assms by (auto simp: fixed_collection_def intro: typed_at_add)

text \<open>The objects of a list of names, created one after the other.\<close>

definition add_objects :: "obl_object list \<Rightarrow> world \<Rightarrow> world" where
  "add_objects xs w = fold add_object xs w"

lemma add_objects_simps [simp]:
  "add_objects [] w = w" "add_objects (x # xs) w = add_objects xs (add_object x w)"
  by (simp_all add: add_objects_def)

lemma add_objects_frame [simp]:
  "sessions (add_objects xs w) = sessions w" "transactions (add_objects xs w) = transactions w"
  "databases (add_objects xs w) = databases w" "fixed_space (add_objects xs w) = fixed_space w"
  "malloc_budget (add_objects xs w) = malloc_budget w" "log_lines (add_objects xs w) = log_lines w"
  "ambient_log_level (add_objects xs w) = ambient_log_level w"
  "next_ptr (add_objects xs w) = next_ptr w + length xs"
  by (induction xs arbitrary: w) simp_all

lemma heap_add_objects:
  "heap (add_objects xs w) q =
     (if next_ptr w \<le> q \<and> q < next_ptr w + length xs then Some (xs ! (q - next_ptr w)) else heap w q)"
  by (induction xs arbitrary: w) (auto simp: nth_Cons' Suc_le_eq)

lemma add_objects_put_commute:
  "p < next_ptr w \<Longrightarrow> add_objects xs (put_object p x w) = put_object p x (add_objects xs w)"
  by (induction xs arbitrary: w) (simp_all add: add_put_commute)

lemma create_slot_names_run:
  assumes "good_icu u" "malloc_budget w = None" "0 < next_ptr w" "fresh w"
    and "\<forall>c\<in>set names. length c < 2 ^ 30"
    and "fixed_collection w p x elems" "obj_session x = NULL" "i + length names = length elems"
  shows "create_slot_names u k nm p i names w = Ok True
     (put_object p (with_elements x (take i elems @ [next_ptr w..<next_ptr w + length names]))
       (add_objects (map (string_object u (fixed_ptr w OBL_STRING_SHAPE_ADDR)) names) w))"
  using assms
proof (induction names arbitrary: i w x elems)
  case Nil
  then show ?case
    by (cases x) (auto simp: retM_run fixed_collection_def put_object_same)
next
  case (Cons c names)
  let ?y = "string_object u (fixed_ptr w OBL_STRING_SHAPE_ADDR) c"
  let ?w1 = "add_object ?y w"
  let ?elems = "elems[i := next_ptr w]"
  let ?x = "with_elements x ?elems"
  let ?w2 = "put_object p ?x ?w1"
  have free: "heap w (next_ptr w) = None" and used: "p < next_ptr w"
    using Cons.prems(4,6) freshD by (auto simp: fixed_collection_def)
  have str: "cstring_object u c w = Ok (next_ptr w) ?w1"
    by (rule cstring_object_run) (use Cons.prems in simp_all)
  have coll1: "fixed_collection ?w1 p x elems"
    by (rule fixed_collection_add [OF Cons.prems(6) free])
  have put: "obl_fixed_at_put k p (of_nat i) (next_ptr w) ?w1 = Ok () ?w2"
    using fixed_at_put_run [OF coll1 Cons.prems(7), of i k "next_ptr w"] Cons.prems(8) by simp
  have coll2: "fixed_collection ?w2 p ?x ?elems"
    using fixed_collection_put [OF coll1, of ?elems] by simp
  have fresh2: "fresh ?w2"
    using Cons.prems(4,6) by (simp add: fixed_collection_def)
  have rest: "create_slot_names u k nm p (Suc i) names ?w2 = Ok True
     (put_object p (with_elements ?x (take (Suc i) ?elems @ [next_ptr ?w2..<next_ptr ?w2 + length names]))
       (add_objects (map (string_object u (fixed_ptr ?w2 OBL_STRING_SHAPE_ADDR)) names) ?w2))"
    by (rule Cons.IH) (use Cons.prems coll2 fresh2 in simp_all)
  have tk: "take (Suc i) ?elems = take i elems @ [next_ptr w]"
    using Cons.prems(8) by (simp add: take_Suc_conv_app_nth)
  have "add_objects (map (string_object u (fixed_ptr w OBL_STRING_SHAPE_ADDR)) names) ?w2 =
      put_object p ?x (add_objects (map (string_object u (fixed_ptr w OBL_STRING_SHAPE_ADDR)) names) ?w1)"
    using used by (simp add: add_objects_put_commute)
  then show ?case
    using str put rest Cons.prems(3)
    by (simp add: bindM_run thenM_run tk upt_conv_Cons del: upt_Suc)
qed


section \<open>Creating a shape from C strings\<close>

text \<open>The heap objects that \<open>obl_create_cshape\<close> makes: name, collection, slot names, shape.\<close>

definition cshape_objects :: "icu \<Rightarrow> world \<Rightarrow> string \<Rightarrow> string list \<Rightarrow> obl_storage_type \<Rightarrow> obl_object list" where
  "cshape_objects u w name names t =
     (let n = next_ptr w; str = string_object u (fixed_ptr w OBL_STRING_SHAPE_ADDR) in
      str name #
      plain_object (fixed_ptr w OBL_FIXED_SHAPE_ADDR) (Fixed_storage
        \<lparr>fixed_length = of_nat (length names), fixed_contents = [n + 2..<n + 2 + length names]\<rparr>) #
      map str names @
      [plain_object (nil_ptr w) (Shape_storage \<lparr>shape_name = n, shape_slot_names = n + 1,
        shape_current_shape = nil_ptr w, shape_storage_format = storage_code t\<rparr>)])"

lemma add_objects_append: "add_objects (xs @ ys) w = add_objects ys (add_objects xs w)"
  by (simp add: add_objects_def)

lemma create_cshape_run:
  assumes "good_icu u" "malloc_budget w = None" "fresh w" "length name < 2 ^ 30"
    and "\<forall>c\<in>set names. length c < 2 ^ 30" "length names < 2 ^ 31"
    and "names = [] \<or> shape_at w (fixed_ptr w OBL_FIXED_SHAPE_ADDR) 2 \<and>
      fixed_ptr w OBL_FIXED_SHAPE_ADDR \<noteq> nil_ptr w"
  shows "obl_create_cshape u k name names t w =
     Ok (next_ptr w + 2 + length names) (add_objects (cshape_objects u w name names t) w)"
proof -
  let ?n = "next_ptr w"
  let ?str = "string_object u (fixed_ptr w OBL_STRING_SHAPE_ADDR)"
  let ?w1 = "add_object (?str name) w"
  let ?elems = "replicate (length names) (nil_ptr w)"
  let ?new = "[?n + 2..<?n + 2 + length names]"
  let ?x = "\<lambda>elems. plain_object (fixed_ptr w OBL_FIXED_SHAPE_ADDR)
     (Fixed_storage \<lparr>fixed_length = of_nat (length names), fixed_contents = elems\<rparr>)"
  let ?w2 = "add_object (?x ?elems) ?w1"
  let ?w3 = "add_objects (map ?str names) (add_object (?x ?new) ?w1)"
  have pos: "0 < ?n" using assms(3) by simp
  have small: "unat (of_nat (length names) :: obl_uint) = length names"
    using assms(6) by simp
  have name: "cstring_object u name w = Ok ?n ?w1"
    by (rule cstring_object_run) (use assms pos in simp_all)
  have fixed: "obl_create_fixed (of_nat (length names)) ?w1 = Ok (Suc ?n) ?w2"
    by (subst create_fixed_run) (use assms(2) small in simp_all)
  have names: "create_slot_names u k ?n (Suc ?n) 0 names ?w2 = Ok True ?w3"
  proof (cases "names = []")
    case True
    then show ?thesis by (simp add: retM_run)
  next
    case False
    have "typed_at ?w2 (Suc ?n) OBL_FIXED"
      using False assms(7) assms(3) [unfolded fresh_def]
      by (auto simp: typed_at_def shape_at_def intro!: exI [of _ 2])
    then have "fixed_collection ?w2 (Suc ?n) (?x ?elems) ?elems"
      using assms(6) by (simp add: fixed_collection_def)
    from create_slot_names_run [OF assms(1) _ _ _ assms(5) this, of 0 k ?n] assms(2,3)
    show ?thesis
      by (simp add: add_objects_put_commute [symmetric] put_object_add [of ?w1, simplified]
          plain_object_def del: upt_Suc)
  qed
  have shape: "obl_create_shape ?n (Suc ?n) t ?w3 = Ok (?n + 2 + length names)
      (add_objects (cshape_objects u w name names t) w)"
    by (subst create_shape_run)
      (use assms(2) in \<open>simp_all add: cshape_objects_def add_objects_append Let_def fixed_ptr_def\<close>)
  show ?thesis
    using name fixed names shape pos
    by (simp add: obl_create_cshape_def bindM_run Let_def retM_run)
qed


text \<open>
  A shape of slotted objects whose slots have the given names: the collection of its slot names holds
  strings with what the converter makes of the names.
\<close>

definition shape_with_slots :: "icu \<Rightarrow> world \<Rightarrow> ptr \<Rightarrow> string list \<Rightarrow> bool" where
  "shape_with_slots u w s names \<longleftrightarrow>
     (\<exists>x st c elems. heap w s = Some x \<and> obj_shape x = nil_ptr w \<and> obj_storage x = Shape_storage st \<and>
        shape_storage_format st = storage_code OBL_SLOTTED \<and> s \<noteq> nil_ptr w \<and>
        fixed_collection w (shape_slot_names st) c elems \<and>
        list_all2 (\<lambda>e name. string_at w e (converted u name)) elems names)"

lemma keeps_collection:
  assumes "keeps w w'" "fixed_collection w p c elems"
  shows "\<exists>c'. fixed_collection w' p c' elems"
proof -
  have c: "heap w p = Some c" "typed_at w p OBL_FIXED" "length elems < 2 ^ 31"
    "obj_storage c = Fixed_storage \<lparr>fixed_length = of_nat (length elems), fixed_contents = elems\<rparr>"
    using assms(2) by (simp_all add: fixed_collection_def)
  obtain c' where "heap w' p = Some c'" "obj_storage c' = obj_storage c"
    using keepsD [OF assms(1) c(1)] by metis
  with c keeps_typed_at [OF assms(1) c(2)] show ?thesis
    by (auto simp: fixed_collection_def)
qed

lemma keeps_slots:
  assumes "keeps w w'" "shape_with_slots u w s names"
  shows "shape_with_slots u w' s names"
proof -
  obtain x st c elems where x: "heap w s = Some x" "obj_shape x = nil_ptr w"
    "obj_storage x = Shape_storage st" "shape_storage_format st = storage_code OBL_SLOTTED"
    "s \<noteq> nil_ptr w" and c: "fixed_collection w (shape_slot_names st) c elems"
    and names: "list_all2 (\<lambda>e name. string_at w e (converted u name)) elems names"
    using assms(2) unfolding shape_with_slots_def by blast
  obtain x' where "heap w' s = Some x'" "obj_shape x' = obj_shape x" "obj_storage x' = obj_storage x"
    using keepsD [OF assms(1) x(1)] by metis
  moreover obtain c' where "fixed_collection w' (shape_slot_names st) c' elems"
    using keeps_collection [OF assms(1) c] by blast
  moreover have "list_all2 (\<lambda>e name. string_at w' e (converted u name)) elems names"
    using names keeps_string_at [OF assms(1)] by (rule list_all2_mono)
  ultimately show ?thesis
    using x keeps_nil [OF assms(1)] unfolding shape_with_slots_def by metis
qed

section \<open>Building the fixed space\<close>

text \<open>The fixed objects in \<open>D\<close> have been made; they have no address yet.\<close>

definition built :: "obl_fixed_address set \<Rightarrow> world \<Rightarrow> bool" where
  "built D w \<longleftrightarrow> malloc_budget w = None \<and> fresh w \<and> length (fixed_space w) = OBL_FIXED_SIZE \<and>
     OBL_NIL_ADDR \<in> D \<and> inj_on (fixed_ptr w) D \<and>
     (\<forall>a\<in>D. fst (instance_of a) \<in> D \<and> fixed_ptr w a \<noteq> NULL \<and>
        (\<exists>x. heap w (fixed_ptr w a) = Some x \<and> fixed_content w a x))"

lemma fixed_ptr_set:
  assumes "length (fixed_space w) = OBL_FIXED_SIZE"
    and "fixed_space w' = (fixed_space w)[fixed_ordinal a := p]"
  shows "fixed_ptr w' b = (if b = a then p else fixed_ptr w b)"
proof -
  have "fixed_ordinal a < length (fixed_space w)" "fixed_ordinal b < length (fixed_space w)"
    using assms(1) fixed_ordinal_less by (simp_all add: OBL_FIXED_SIZE_def)
  then show ?thesis
    using assms(2) by (auto simp: fixed_ptr_def nth_list_update)
qed

lemma built_insert:
  assumes "built D w" "a \<notin> D" "fst (instance_of a) \<in> insert a D"
    and "malloc_budget w' = None" "fresh w'" "\<And>q. q < next_ptr w \<Longrightarrow> heap w' q = heap w q"
    and "fixed_space w' = (fixed_space w)[fixed_ordinal a := p]" "next_ptr w \<le> p"
    and "heap w' p = Some x" "fixed_content w' a x"
  shows "built (insert a D) w'"
proof -
  have len: "length (fixed_space w) = OBL_FIXED_SIZE" using assms(1) by (simp add: built_def)
  note ptr = fixed_ptr_set [OF len assms(7)]
  have old: "fixed_ptr w b < next_ptr w" "fixed_ptr w' b = fixed_ptr w b" if "b \<in> D" for b
    using that assms(1,2) freshD ptr [of b] by (auto simp: built_def)
  have new: "fixed_ptr w' a = p" using ptr by simp
  have "inj_on (fixed_ptr w') D"
    using assms(1) old(2) by (simp add: built_def inj_on_def)
  moreover have "p \<notin> fixed_ptr w' ` D"
    using old assms(8) by fastforce
  ultimately have "inj_on (fixed_ptr w') (insert a D)"
    using assms(2) new by (simp add: inj_on_insert)
  moreover have "fst (instance_of b) \<in> insert a D \<and> fixed_ptr w' b \<noteq> NULL \<and>
      (\<exists>x. heap w' (fixed_ptr w' b) = Some x \<and> fixed_content w' b x)" if b: "b \<in> D" for b
  proof -
    from b assms(1) obtain y where y: "heap w (fixed_ptr w b) = Some y" "fixed_content w b y"
      and inst: "fst (instance_of b) \<in> D" "fixed_ptr w b \<noteq> NULL" and nil: "OBL_NIL_ADDR \<in> D"
      by (auto simp: built_def)
    have "fixed_content w' b y"
      using y(2) old(2) [OF inst(1)] old(2) [OF nil] old(2) [OF b]
      by (auto simp: fixed_content_def split: option.splits)
    then show ?thesis using y inst old [OF b] assms(6) by auto
  qed
  moreover have "p \<noteq> NULL" using assms(5,9) freshD by blast
  ultimately show ?thesis
    using assms new len by (auto simp: built_def)
qed

lemma set_fixed_space_run:
  "set_fixed_space a p w = Ok () (w\<lparr>fixed_space := (fixed_space w)[fixed_ordinal a := p]\<rparr>)"
  by (simp add: set_fixed_space_def run)

text \<open>Nothing is lost while the fixed space grows: objects, and the fixed objects made so far.\<close>

definition grows :: "obl_fixed_address set \<Rightarrow> world \<Rightarrow> world \<Rightarrow> bool" where
  "grows D w w' \<longleftrightarrow> keeps w w' \<and> (\<forall>b\<in>D. fixed_ptr w' b = fixed_ptr w b)"

lemma grows_refl [simp]: "grows D w w"
  by (simp add: grows_def)

lemma grows_trans: "grows D w w' \<Longrightarrow> grows E w' w'' \<Longrightarrow> D \<subseteq> E \<Longrightarrow> grows D w w''"
  unfolding grows_def using keeps_trans by fastforce

lemma keeps_add_objects:
  "fresh w \<Longrightarrow> nil_ptr w' = nil_ptr w \<Longrightarrow> heap w' = heap (add_objects xs w) \<Longrightarrow> keeps w w'"
  by (auto simp: keeps_def heap_add_objects fresh_def)

lemma built_shape_at:
  assumes "built D w" "a \<in> D" "fixed_format a = Some t"
  shows "shape_at w (fixed_ptr w a) (storage_code t)" "fixed_ptr w a \<noteq> nil_ptr w"
proof -
  obtain x where "heap w (fixed_ptr w a) = Some x" "fixed_content w a x"
    using assms(1,2) by (auto simp: built_def)
  then show "shape_at w (fixed_ptr w a) (storage_code t)" "fixed_ptr w a \<noteq> nil_ptr w"
    using assms(3) by (auto simp: fixed_content_def shape_at_def)
qed

lemma built_nil_less: "built D w \<Longrightarrow> nil_ptr w < next_ptr w"
  using freshD [of w "nil_ptr w"] by (auto simp: built_def)

lemma length_converted:
  assumes "good_icu u" "length c < 2 ^ 30"
  shows "length (converted u c) < 2 ^ 31"
  using converted_run(2) [OF assms] assms(2) by simp

lemma string_object_at:
  assumes "good_icu u" "typed_at w p OBL_STRING" "heap w p = Some (string_object u shape c)"
    and "length c < 2 ^ 30"
  shows "string_at w p (converted u c)"
proof -
  obtain rest where "converted_block u c = converted u c @ rest"
    using converted_run(3) [OF assms(1,4)] by blast
  then show ?thesis
    using assms(2,3) length_converted [OF assms(1,4)]
    by (auto simp: string_at_def string_block_def string_object_def)
qed

lemma cshape_slots:
  assumes "good_icu u" "built D w" "OBL_FIXED_SHAPE_ADDR \<in> D" "OBL_STRING_SHAPE_ADDR \<in> D"
    and "\<forall>c\<in>set names. length c < 2 ^ 30" "length names < 2 ^ 31"
    and "heap w' = heap (add_objects (cshape_objects u w name names OBL_SLOTTED) w)"
    and "nil_ptr w' = nil_ptr w"
  shows "shape_with_slots u w' (next_ptr w + 2 + length names) names"
proof -
  let ?n = "next_ptr w"
  let ?elems = "[?n + 2..<?n + 2 + length names]"
  let ?str = "string_object u (fixed_ptr w OBL_STRING_SHAPE_ADDR)"
  let ?c = "plain_object (fixed_ptr w OBL_FIXED_SHAPE_ADDR)
     (Fixed_storage \<lparr>fixed_length = of_nat (length names), fixed_contents = ?elems\<rparr>)"
  have fresh: "fresh w" using assms(2) by (simp add: built_def)
  have keeps: "keeps w w'" by (rule keeps_add_objects [OF fresh assms(8,7)])
  have at: "heap w' (Suc ?n) = Some ?c" "\<And>i. i < length names \<Longrightarrow> heap w' (?n + 2 + i) = Some (?str (names ! i))"
    "heap w' (?n + 2 + length names) = Some (plain_object (nil_ptr w)
       (Shape_storage \<lparr>shape_name = ?n, shape_slot_names = Suc ?n,
          shape_current_shape = nil_ptr w, shape_storage_format = storage_code OBL_SLOTTED\<rparr>))"
    by (simp_all add: assms(7) heap_add_objects cshape_objects_def Let_def nth_append)
  note shapes = built_shape_at [OF assms(2,3), of OBL_FIXED] built_shape_at [OF assms(2,4), of OBL_STRING]
  have typed: "typed_at w' (Suc ?n) OBL_FIXED"
    using at(1) shapes keeps_shape_at [OF keeps] assms(8)
    by (auto simp: typed_at_def intro!: exI [of _ 2])
  have strings: "string_at w' (?n + 2 + i) (converted u (names ! i))" if "i < length names" for i
  proof -
    have "typed_at w' (?n + 2 + i) OBL_STRING"
      using at(2) [OF that] shapes keeps_shape_at [OF keeps] assms(8)
      by (auto simp: typed_at_def string_object_def intro!: exI [of _ 9])
    then show ?thesis
      using at(2) [OF that] assms(5) that by (intro string_object_at [OF assms(1)]) simp_all
  qed
  have "fixed_collection w' (Suc ?n) ?c ?elems"
    using at(1) typed assms(6) by (simp add: fixed_collection_def del: upt_Suc)
  moreover have "list_all2 (\<lambda>e name. string_at w' e (converted u name)) ?elems names"
    using strings by (simp add: list_all2_conv_all_nth del: upt_Suc)
  moreover have "?n + 2 + length names \<noteq> nil_ptr w"
    using built_nil_less [OF assms(2)] by simp
  ultimately show ?thesis
    using at(3) assms(8) by (auto simp: shape_with_slots_def)
qed

lemma build_shape:
  assumes "good_icu u" "built D w" "OBL_FIXED_SHAPE_ADDR \<in> D" "a \<notin> D" "fixed_format a = Some t"
    and "length name < 2 ^ 30" "\<forall>c\<in>set names. length c < 2 ^ 30" "length names < 2 ^ 31"
  shows "\<exists>w'. bindM (obl_create_cshape u k name names t) (set_fixed_space a) w = Ok () w' \<and>
     built (insert a D) w' \<and> grows D w w' \<and>
     (OBL_STRING_SHAPE_ADDR \<in> D \<longrightarrow> t = OBL_SLOTTED \<longrightarrow> (\<forall>c\<in>set names. length c < 2 ^ 30) \<longrightarrow>
        shape_with_slots u w' (fixed_ptr w' a) names)"
proof -
  let ?w1 = "add_objects (cshape_objects u w name names t) w"
  let ?p = "next_ptr w + 2 + length names"
  define w' where "w' = ?w1\<lparr>fixed_space := (fixed_space w)[fixed_ordinal a := ?p]\<rparr>"
  from assms(2,3) have nil: "OBL_NIL_ADDR \<in> D" and ok: "malloc_budget w = None" "fresh w"
    "length (fixed_space w) = OBL_FIXED_SIZE"
    by (simp_all add: built_def)
  have create: "obl_create_cshape u k name names t w = Ok ?p ?w1"
    by (intro create_cshape_run)
      (use assms ok built_shape_at [OF assms(2,3), of OBL_FIXED] in simp_all)
  let ?x = "plain_object (nil_ptr w) (Shape_storage \<lparr>shape_name = next_ptr w,
        shape_slot_names = next_ptr w + 1,
        shape_current_shape = nil_ptr w, shape_storage_format = storage_code t\<rparr>)"
  have ptr: "fixed_ptr w' b = (if b = a then ?p else fixed_ptr w b)" for b
    by (rule fixed_ptr_set [OF ok(3)]) (simp add: w'_def)
  have "nil_ptr w < next_ptr w" "a \<noteq> OBL_NIL_ADDR"
    using built_nil_less [OF assms(2)] assms(4) nil by auto
  then have content: "fixed_content w' a ?x"
    using assms(5) ptr by (simp add: fixed_content_def)
  have "fst (instance_of a) \<in> insert a D" using assms(5) by (cases a) simp_all
  moreover have "heap w' ?p = Some ?x"
    by (simp add: w'_def heap_add_objects cshape_objects_def Let_def nth_append)
  moreover have "fresh w'"
    using ok(2) by (simp add: w'_def fresh_def heap_add_objects cshape_objects_def Let_def)
  ultimately have "built (insert a D) w'"
    using content ok
    by (intro built_insert [OF assms(2,4), where p = ?p and x = ?x]) (simp_all add: w'_def heap_add_objects)
  moreover have "bindM (obl_create_cshape u k name names t) (set_fixed_space a) w = Ok () w'"
    using create by (simp add: bindM_run set_fixed_space_run w'_def)
  moreover have heap: "heap w' = heap ?w1" "nil_ptr w' = nil_ptr w"
    using \<open>a \<noteq> OBL_NIL_ADDR\<close> ptr by (simp_all add: w'_def)
  then have "grows D w w'"
    using keeps_add_objects [OF ok(2) heap(2,1)] assms(4) ptr by (auto simp: grows_def)
  moreover have "shape_with_slots u w' (fixed_ptr w' a) names"
    if "OBL_STRING_SHAPE_ADDR \<in> D" "t = OBL_SLOTTED" "\<forall>c\<in>set names. length c < 2 ^ 30"
    using cshape_slots [OF assms(1-3) that(1,3) assms(8)] heap that(2) ptr by simp
  ultimately show ?thesis by blast
qed

lemma build_bool:
  assumes "built D w" "OBL_BOOLEAN_SHAPE_ADDR \<in> D" "a \<notin> D"
    and "a = (if b then OBL_TRUE_ADDR else OBL_FALSE_ADDR)"
  shows "\<exists>w'. bindM (i_obl_create_bool b) (set_fixed_space a) w = Ok () w' \<and>
     built (insert a D) w' \<and> grows D w w'"
proof -
  let ?x = "plain_object (fixed_ptr w OBL_BOOLEAN_SHAPE_ADDR)
        (Boolean_storage \<lparr>boolean_value = (if b then 1 else 0)\<rparr>)"
  let ?w1 = "add_object ?x w"
  define w' where "w' = ?w1\<lparr>fixed_space := (fixed_space w)[fixed_ordinal a := next_ptr w]\<rparr>"
  from assms(1) have ok: "malloc_budget w = None" "fresh w"
    "length (fixed_space w) = OBL_FIXED_SIZE"
    by (simp_all add: built_def)
  have ptr: "fixed_ptr w' c = (if c = a then next_ptr w else fixed_ptr w c)" for c
    by (rule fixed_ptr_set [OF ok(3)]) (simp add: w'_def)
  have "fixed_content w' a ?x"
    using assms(4) ptr by (simp add: fixed_content_def)
  moreover have "fst (instance_of a) \<in> insert a D" using assms(2,4) by simp
  moreover have "fresh w'" using ok(2) by (simp add: w'_def fresh_def)
  ultimately have "built (insert a D) w'"
    using ok by (intro built_insert [OF assms(1,3), where p = "next_ptr w" and x = ?x]) (simp_all add: w'_def)
  moreover have "bindM (i_obl_create_bool b) (set_fixed_space a) w = Ok () w'"
    using ok by (simp add: bindM_run create_bool_run set_fixed_space_run w'_def)
  moreover have heap: "heap w' = heap (add_objects [?x] w)" "nil_ptr w' = nil_ptr w"
    using assms(4) ptr [of OBL_NIL_ADDR] by (simp_all add: w'_def split: if_splits)
  then have "grows D w w'"
    using keeps_add_objects [OF ok(2) heap(2,1)] assms(3) ptr by (auto simp: grows_def)
  ultimately show ?thesis by blast
qed


text \<open>The first shapes are made before nil exists and corrected afterwards.\<close>

lemma correct_early_run:
  assumes "heap w p = Some x" "obj_storage x = Shape_storage st"
    and "heap w (shape_name st) = Some y" "heap w (shape_slot_names st) = Some z"
    and "distinct [p, shape_name st, shape_slot_names st]"
  shows "correct_early_shape nil s f p w = Ok ()
     (put_object (shape_slot_names st) (z\<lparr>obj_shape := f\<rparr>)
       (put_object (shape_name st) (y\<lparr>obj_shape := s\<rparr>)
         (put_object p (x\<lparr>obj_shape := nil,
            obj_storage := Shape_storage (st\<lparr>shape_current_shape := nil\<rparr>)\<rparr>) w)))"
  using assms
  by (simp add: correct_early_shape_def shape_storage_of_def bindM_run thenM_run retM_run get_run
      update_object_run)

lemma initial_simps [simp]:
  "fixed_ptr initial_world a = NULL" "next_ptr initial_world = 1" "fresh initial_world"
  "malloc_budget initial_world = None" "heap initial_world p = None"
  "fixed_space initial_world = replicate OBL_FIXED_SIZE NULL"
  using fixed_ordinal_less [of a]
  by (simp_all add: initial_world_def fixed_ptr_def fresh_def OBL_FIXED_SIZE_def)

lemma built_first:
  assumes "malloc_budget w = None" "fresh w" "length (fixed_space w) = OBL_FIXED_SIZE"
    and "distinct [fixed_ptr w OBL_NIL_ADDR, fixed_ptr w OBL_FIXED_SHAPE_ADDR,
       fixed_ptr w OBL_STRING_SHAPE_ADDR, fixed_ptr w OBL_NIL_SHAPE_ADDR, NULL]"
    and "\<And>a. a \<in> {OBL_NIL_ADDR, OBL_FIXED_SHAPE_ADDR, OBL_STRING_SHAPE_ADDR, OBL_NIL_SHAPE_ADDR} \<Longrightarrow>
       \<exists>x. heap w (fixed_ptr w a) = Some x \<and> fixed_content w a x"
  shows "built {OBL_NIL_ADDR, OBL_FIXED_SHAPE_ADDR, OBL_STRING_SHAPE_ADDR, OBL_NIL_SHAPE_ADDR} w"
  using assms by (auto simp: built_def)

definition first_part :: "icu \<Rightarrow> calls \<Rightarrow> unit exec" where
  "first_part u k =
     bindM (obl_create_cshape u k ''FixedCollection'' [] OBL_FIXED) (\<lambda>fixed_shape.
     bindM (obl_create_cshape u k ''String'' [] OBL_STRING) (\<lambda>string_shape.
     bindM (obl_create_cshape u k ''Undefined'' [] OBL_NIL) (\<lambda>undefined_shape.
     bindM i_obl_create_nil (\<lambda>nil.
       thenM (correct_early_shape nil string_shape fixed_shape fixed_shape)
       (thenM (correct_early_shape nil string_shape fixed_shape string_shape)
       (thenM (correct_early_shape nil string_shape fixed_shape undefined_shape)
       (thenM (update_object nil (\<lambda>x. x\<lparr>obj_shape := undefined_shape\<rparr>))
       (thenM (set_fixed_space OBL_FIXED_SHAPE_ADDR fixed_shape)
       (thenM (set_fixed_space OBL_STRING_SHAPE_ADDR string_shape)
       (thenM (set_fixed_space OBL_NIL_SHAPE_ADDR undefined_shape)
         (set_fixed_space OBL_NIL_ADDR nil)))))))))))"

lemma first_part_run:
  assumes "good_icu u"
  shows "\<exists>w. first_part u k initial_world = Ok () w \<and>
     built {OBL_NIL_ADDR, OBL_FIXED_SHAPE_ADDR, OBL_STRING_SHAPE_ADDR, OBL_NIL_SHAPE_ADDR} w"
proof -
  let ?A = "add_objects (cshape_objects u initial_world ''FixedCollection'' [] OBL_FIXED) initial_world"
  let ?B = "add_objects (cshape_objects u ?A ''String'' [] OBL_STRING) ?A"
  let ?C = "add_objects (cshape_objects u ?B ''Undefined'' [] OBL_NIL) ?B"
  let ?D = "add_object (plain_object NULL Null_storage) ?C"
  have lens [simp]: "length (cshape_objects u w name [] t) = 3" for w name t
    by (simp add: cshape_objects_def Let_def)
  have ptr [simp]: "fixed_ptr (add_objects xs w) a = fixed_ptr w a" for xs w a
    by (simp add: fixed_ptr_def)
  have fresh [simp]: "fresh (add_objects xs w)" if "fresh w" for xs w
    using that by (induction xs arbitrary: w) simp_all
  have a: "obl_create_cshape u k ''FixedCollection'' [] OBL_FIXED initial_world = Ok 3 ?A"
    by (subst create_cshape_run) (use assms in simp_all)
  have b: "obl_create_cshape u k ''String'' [] OBL_STRING ?A = Ok 6 ?B"
    by (subst create_cshape_run) (use assms in simp_all)
  have c: "obl_create_cshape u k ''Undefined'' [] OBL_NIL ?B = Ok 9 ?C"
    by (subst create_cshape_run) (use assms in simp_all)
  have d: "i_obl_create_nil ?C = Ok 10 ?D"
    by (subst create_nil_run) simp_all
  let ?shape = "\<lambda>n m t. Shape_storage \<lparr>shape_name = n, shape_slot_names = m,
      shape_current_shape = NULL, shape_storage_format = t\<rparr>"
  have heap: "heap ?D 1 = Some (string_object u NULL ''FixedCollection'')"
    "heap ?D 2 = Some (plain_object NULL (Fixed_storage \<lparr>fixed_length = 0, fixed_contents = []\<rparr>))"
    "heap ?D 3 = Some (plain_object NULL (?shape 1 2 2))"
    "heap ?D 4 = Some (string_object u NULL ''String'')"
    "heap ?D 5 = Some (plain_object NULL (Fixed_storage \<lparr>fixed_length = 0, fixed_contents = []\<rparr>))"
    "heap ?D 6 = Some (plain_object NULL (?shape 4 5 9))"
    "heap ?D 7 = Some (string_object u NULL ''Undefined'')"
    "heap ?D 8 = Some (plain_object NULL (Fixed_storage \<lparr>fixed_length = 0, fixed_contents = []\<rparr>))"
    "heap ?D 9 = Some (plain_object NULL (?shape 7 8 11))"
    "heap ?D 10 = Some (plain_object NULL Null_storage)"
    by (simp_all add: heap_add_objects) (simp_all add: cshape_objects_def Let_def)
  have D: "malloc_budget ?D = None" "fresh ?D" "fixed_space ?D = replicate 15 NULL"
    by (simp_all add: OBL_FIXED_SIZE_def)
  obtain E where E: "E = ?D" by simp
  have run: "\<exists>w. first_part u k initial_world = Ok () w \<and>
     built {OBL_NIL_ADDR, OBL_FIXED_SHAPE_ADDR, OBL_STRING_SHAPE_ADDR, OBL_NIL_SHAPE_ADDR} w"
    if "E = ?D" for E
    unfolding first_part_def
    apply (simp add: bindM_run a b c d that [symmetric])
    using heap D unfolding that [symmetric]
    apply (simp add: thenM_run correct_early_run update_object_run set_fixed_space_run)
    apply (rule built_first)
        apply (simp_all add: OBL_FIXED_SIZE_def fixed_ptr_def)
    apply (elim disjE)
       apply (simp_all add: fixed_content_def fixed_ptr_def)
    done
  show ?thesis by (rule run) simp
qed

text \<open>The loop over the primitive shapes.\<close>

lemma build_shapes:
  assumes "good_icu u" "built D w" "OBL_FIXED_SHAPE_ADDR \<in> D"
    and "distinct (map fst shapes)" "set (map fst shapes) \<inter> D = {}"
    and "\<forall>(a, name, names, t)\<in>set shapes. fixed_format a = Some t \<and> length name < 2 ^ 30 \<and>
       (\<forall>c\<in>set names. length c < 2 ^ 30) \<and> length names < 2 ^ 31"
  shows "\<exists>w'. forM shapes (\<lambda>(a, name, slot_names, type).
        bindM (obl_create_cshape u k name slot_names type) (set_fixed_space a)) w = Ok () w' \<and>
     built (set (map fst shapes) \<union> D) w' \<and> grows D w w' \<and>
     (OBL_STRING_SHAPE_ADDR \<in> D \<longrightarrow>
       (\<forall>(a, name, names, t)\<in>set shapes. t = OBL_SLOTTED \<longrightarrow> (\<forall>c\<in>set names. length c < 2 ^ 30) \<longrightarrow>
          shape_with_slots u w' (fixed_ptr w' a) names))"
  using assms
proof (induction shapes arbitrary: D w)
  case Nil
  then show ?case by (simp add: retM_run)
next
  case (Cons s shapes)
  obtain a name names t where s: "s = (a, name, names, t)" by (cases s)
  from Cons.prems s have step: "a \<notin> D" "fixed_format a = Some t" "length name < 2 ^ 30"
    "\<forall>c\<in>set names. length c < 2 ^ 30" "length names < 2 ^ 31" by auto
  from build_shape [OF Cons.prems(1-3) step, of k] obtain w1 where
    w1: "bindM (obl_create_cshape u k name names t) (set_fixed_space a) w = Ok () w1"
    "built (insert a D) w1" "grows D w w1"
    "OBL_STRING_SHAPE_ADDR \<in> D \<longrightarrow> t = OBL_SLOTTED \<longrightarrow> (\<forall>c\<in>set names. length c < 2 ^ 30) \<longrightarrow>
        shape_with_slots u w1 (fixed_ptr w1 a) names" by blast
  from Cons.IH [OF Cons.prems(1) w1(2)] Cons.prems s obtain w2 where
    w2: "forM shapes (\<lambda>(a, name, slot_names, type).
        bindM (obl_create_cshape u k name slot_names type) (set_fixed_space a)) w1 = Ok () w2"
    "built (set (map fst shapes) \<union> insert a D) w2" "grows (insert a D) w1 w2"
    "OBL_STRING_SHAPE_ADDR \<in> D \<longrightarrow>
       (\<forall>(a, name, names, t)\<in>set shapes. t = OBL_SLOTTED \<longrightarrow> (\<forall>c\<in>set names. length c < 2 ^ 30) \<longrightarrow>
          shape_with_slots u w2 (fixed_ptr w2 a) names)" by auto
  have "shape_with_slots u w2 (fixed_ptr w2 a) names"
    if "OBL_STRING_SHAPE_ADDR \<in> D" "t = OBL_SLOTTED" "\<forall>c\<in>set names. length c < 2 ^ 30"
    using w1(4) w2(3) that keeps_slots unfolding grows_def by fastforce
  with w2(4) s have "OBL_STRING_SHAPE_ADDR \<in> D \<longrightarrow>
       (\<forall>(a, name, names, t)\<in>set (s # shapes). t = OBL_SLOTTED \<longrightarrow>
          (\<forall>c\<in>set names. length c < 2 ^ 30) \<longrightarrow> shape_with_slots u w2 (fixed_ptr w2 a) names)"
    by simp
  moreover have "grows D w w2" using w1(3) w2(3) by (rule grows_trans) blast
  moreover have "forM (s # shapes) (\<lambda>(a, name, slot_names, type).
        bindM (obl_create_cshape u k name slot_names type) (set_fixed_space a)) w = Ok () w2"
    using w1(1) w2(1) s by (simp add: thenM_run)
  moreover have "built (set (map fst (s # shapes)) \<union> D) w2" using w2(2) s by simp
  ultimately show ?case by blast
qed

text \<open>The loop that gives the fixed objects their addresses.\<close>

definition addressed :: "world \<Rightarrow> obl_fixed_address \<Rightarrow> bool" where
  "addressed w a \<longleftrightarrow> (\<exists>x. heap w (fixed_ptr w a) = Some x \<and> logical_address x = fixed_addr a \<and>
     physical_address x = OBL_PHYSICAL_UNASSIGNED)"

lemma address_fixed_space_run:
  assumes "built UNIV w"
  shows "\<exists>w'. address_fixed_space (map fixed_ordinal as) w = Ok False w' \<and> built UNIV w' \<and>
     fixed_space w' = fixed_space w \<and> keeps w w' \<and> (\<forall>a\<in>set as. addressed w' a) \<and>
     (\<forall>a. addressed w a \<longrightarrow> addressed w' a)"
  using assms
proof (induction as arbitrary: w)
  case Nil
  then show ?case by (simp add: retM_run)
next
  case (Cons a as)
  let ?p = "fixed_ptr w a"
  obtain x where x: "heap w ?p = Some x" "fixed_content w a x" and pos: "?p \<noteq> NULL"
    using Cons.prems by (auto simp: built_def)
  let ?x = "x\<lparr>physical_address := OBL_PHYSICAL_UNASSIGNED, logical_address := fixed_addr a\<rparr>"
  let ?w = "put_object ?p ?x w"
  have inj: "fixed_ptr w b = fixed_ptr w c \<longleftrightarrow> b = c" for b c
    using Cons.prems by (auto simp: built_def inj_on_def)
  have same: "fixed_content ?w b y \<longleftrightarrow> fixed_content w b y" for b y
    by (simp add: fixed_content_def cong: option.case_cong)
  have "\<exists>y. heap ?w (fixed_ptr ?w b) = Some y \<and> fixed_content ?w b y" for b
  proof (cases "b = a")
    case True
    have "fixed_content w a ?x" using x(2) by (simp add: fixed_content_def cong: option.case_cong)
    with True same show ?thesis by simp
  next
    case False
    then show ?thesis using Cons.prems by (auto simp: inj same built_def)
  qed
  with Cons.prems x(1) have "built UNIV ?w"
    by (simp add: built_def inj_on_def)
  then obtain w' where w': "address_fixed_space (map fixed_ordinal as) ?w = Ok False w'"
    "built UNIV w'" "fixed_space w' = fixed_space w" "keeps ?w w'" "\<forall>a\<in>set as. addressed w' a"
    "\<forall>a. addressed ?w a \<longrightarrow> addressed w' a"
    using Cons.IH by fastforce
  have "keeps w ?w" using x(1) by (rule keeps_put) simp_all
  then have "keeps w w'" using w'(4) by (rule keeps_trans)
  have "addressed ?w a" by (simp add: addressed_def)
  moreover have "addressed w b \<longrightarrow> addressed ?w b" for b
    by (auto simp: addressed_def inj x)
  moreover have "address_fixed_space (map fixed_ordinal (a # as)) w = Ok False w'"
    using x pos w'(1)
    by (simp add: bindM_run getsM_run thenM_run update_object_run fixed_ptr_def [symmetric]
        fixed_addr_def put_object_def)
  ultimately show ?case using w' \<open>keeps w w'\<close> by auto
qed

definition all_fixed :: "obl_fixed_address list" where
  "all_fixed =
     [OBL_NIL_ADDR, OBL_TRUE_ADDR, OBL_FALSE_ADDR, OBL_INTEGER_SHAPE_ADDR, OBL_FLOAT_SHAPE_ADDR,
      OBL_DOUBLE_SHAPE_ADDR, OBL_CHAR_SHAPE_ADDR, OBL_STRING_SHAPE_ADDR, OBL_FIXED_SHAPE_ADDR,
      OBL_CHUNK_SHAPE_ADDR, OBL_ADDRTREEPAGE_SHAPE_ADDR, OBL_ALLOCATOR_SHAPE_ADDR,
      OBL_NIL_SHAPE_ADDR, OBL_BOOLEAN_SHAPE_ADDR, OBL_STUB_SHAPE_ADDR]"

lemma all_fixed: "[0..<OBL_FIXED_SIZE] = map fixed_ordinal all_fixed" "set all_fixed = UNIV"
proof -
  show "[0..<OBL_FIXED_SIZE] = map fixed_ordinal all_fixed"
    by (simp add: all_fixed_def OBL_FIXED_SIZE_def upt_conv_Cons)
  have "a \<in> set all_fixed" for a
    by (cases a) (simp_all add: all_fixed_def)
  then show "set all_fixed = UNIV" by blast
qed

lemma built_addressed:
  assumes "built UNIV w" "\<forall>a. addressed w a"
  shows "world_ok w"
proof -
  have "fixed_object w a" for a
  proof -
    from assms obtain x where "heap w (fixed_ptr w a) = Some x" "fixed_content w a x"
      "fixed_ptr w a \<noteq> NULL" by (auto simp: built_def)
    moreover from assms(2) have "addressed w a" by simp
    ultimately show ?thesis by (auto simp: addressed_def fixed_object_def)
  qed
  with assms(1) show ?thesis by (simp add: world_ok_def fixed_ok_def built_def)
qed

lemma initialize_first_part:
  "fixed_space w = replicate n NULL \<Longrightarrow> i_initialize_fixed_space u k w =
     thenM (first_part u k)
       (thenM (forM primitive_shapes (\<lambda>(a, name, slot_names, type).
                 bindM (obl_create_cshape u k name slot_names type) (set_fixed_space a)))
       (thenM (bindM (i_obl_create_bool True) (set_fixed_space OBL_TRUE_ADDR))
       (thenM (bindM (i_obl_create_bool False) (set_fixed_space OBL_FALSE_ADDR))
         (address_fixed_space [0..<OBL_FIXED_SIZE])))) w"
  by (simp add: i_initialize_fixed_space_def first_part_def bindM_run thenM_run getsM_run
      split: result.split)

abbreviation (input) early :: "obl_fixed_address set" where
  "early \<equiv> {OBL_NIL_ADDR, OBL_FIXED_SHAPE_ADDR, OBL_STRING_SHAPE_ADDR, OBL_NIL_SHAPE_ADDR}"

abbreviation (input) allocator_slots :: "string list" where
  "allocator_slots \<equiv> [''next_logical'', ''next_physical'']"

lemma build_primitive:
  assumes "good_icu u" "built early w"
  shows "\<exists>w'. forM primitive_shapes (\<lambda>(a, name, slot_names, type).
        bindM (obl_create_cshape u k name slot_names type) (set_fixed_space a)) w = Ok () w' \<and>
     built (- {OBL_TRUE_ADDR, OBL_FALSE_ADDR}) w' \<and>
     shape_with_slots u w' (fixed_ptr w' OBL_ALLOCATOR_SHAPE_ADDR) allocator_slots"
proof -
  have "\<exists>w'. forM primitive_shapes (\<lambda>(a, name, slot_names, type).
        bindM (obl_create_cshape u k name slot_names type) (set_fixed_space a)) w = Ok () w' \<and>
     built (set (map fst primitive_shapes) \<union> early) w' \<and> grows early w w' \<and>
     (OBL_STRING_SHAPE_ADDR \<in> early \<longrightarrow>
       (\<forall>(a, name, names, t)\<in>set primitive_shapes. t = OBL_SLOTTED \<longrightarrow>
          (\<forall>c\<in>set names. length c < 2 ^ 30) \<longrightarrow> shape_with_slots u w' (fixed_ptr w' a) names))"
    by (rule build_shapes [OF assms]) (simp_all add: primitive_shapes_def)
  then obtain w' where w': "forM primitive_shapes (\<lambda>(a, name, slot_names, type).
        bindM (obl_create_cshape u k name slot_names type) (set_fixed_space a)) w = Ok () w'"
    "built (set (map fst primitive_shapes) \<union> early) w'"
    "\<forall>(a, name, names, t)\<in>set primitive_shapes. t = OBL_SLOTTED \<longrightarrow>
          (\<forall>c\<in>set names. length c < 2 ^ 30) \<longrightarrow> shape_with_slots u w' (fixed_ptr w' a) names"
    by auto
  have "a \<in> set (map fst primitive_shapes) \<union> early \<longleftrightarrow> a \<noteq> OBL_TRUE_ADDR \<and> a \<noteq> OBL_FALSE_ADDR" for a
    by (cases a) (simp_all add: primitive_shapes_def)
  then have "set (map fst primitive_shapes) \<union> early = - {OBL_TRUE_ADDR, OBL_FALSE_ADDR}" by blast
  moreover have "shape_with_slots u w' (fixed_ptr w' OBL_ALLOCATOR_SHAPE_ADDR) allocator_slots"
    using w'(3) by (simp add: primitive_shapes_def)
  ultimately show ?thesis using w' by simp
qed

lemma startup_run:
  assumes "good_icu u"
  shows "\<exists>w. obl_startup u k initial_world = Ok 0 w \<and> world_ok w \<and> malloc_budget w = None \<and>
     shape_with_slots u w (fixed_ptr w OBL_ALLOCATOR_SHAPE_ADDR) allocator_slots"
proof -
  obtain w1 where w1: "first_part u k initial_world = Ok () w1" "built early w1"
    using first_part_run [OF assms] by blast
  from build_primitive [OF assms w1(2)] obtain w2 where
    w2: "forM primitive_shapes (\<lambda>(a, name, slot_names, type).
        bindM (obl_create_cshape u k name slot_names type) (set_fixed_space a)) w1 = Ok () w2"
    "built (- {OBL_TRUE_ADDR, OBL_FALSE_ADDR}) w2"
    "shape_with_slots u w2 (fixed_ptr w2 OBL_ALLOCATOR_SHAPE_ADDR) allocator_slots" by blast
  from build_bool [OF w2(2), of OBL_TRUE_ADDR True] obtain w3 where
    w3: "bindM (i_obl_create_bool True) (set_fixed_space OBL_TRUE_ADDR) w2 = Ok () w3"
    "built (insert OBL_TRUE_ADDR (- {OBL_TRUE_ADDR, OBL_FALSE_ADDR})) w3"
    "grows (- {OBL_TRUE_ADDR, OBL_FALSE_ADDR}) w2 w3" by auto
  from build_bool [OF w3(2), of OBL_FALSE_ADDR False] obtain w4 where
    w4: "bindM (i_obl_create_bool False) (set_fixed_space OBL_FALSE_ADDR) w3 = Ok () w4"
    "built (insert OBL_FALSE_ADDR (insert OBL_TRUE_ADDR (- {OBL_TRUE_ADDR, OBL_FALSE_ADDR}))) w4"
    "grows (insert OBL_TRUE_ADDR (- {OBL_TRUE_ADDR, OBL_FALSE_ADDR})) w3 w4" by auto
  have "insert OBL_FALSE_ADDR (insert OBL_TRUE_ADDR (- {OBL_TRUE_ADDR, OBL_FALSE_ADDR})) = UNIV"
    by blast
  with w4(2) have "built UNIV w4" by simp
  from address_fixed_space_run [OF this, of all_fixed] obtain w5 where
    w5: "address_fixed_space [0..<OBL_FIXED_SIZE] w4 = Ok False w5" "built UNIV w5"
    "fixed_space w5 = fixed_space w4" "keeps w4 w5" "\<forall>a. addressed w5 a"
    by (auto simp: all_fixed simp del: address_fixed_space.simps)
  have ptr: "fixed_ptr w5 OBL_ALLOCATOR_SHAPE_ADDR = fixed_ptr w2 OBL_ALLOCATOR_SHAPE_ADDR"
  proof -
    have "fixed_ptr w5 a = fixed_ptr w4 a" for a using w5(3) by (simp add: fixed_ptr_def)
    then show ?thesis using w3(3) w4(3) by (simp add: grows_def)
  qed
  have "keeps w2 w5"
    using w3(3) w4(3) w5(4) keeps_trans unfolding grows_def by blast
  then have "shape_with_slots u w5 (fixed_ptr w5 OBL_ALLOCATOR_SHAPE_ADDR) allocator_slots"
    unfolding ptr using w2(3) by (rule keeps_slots)
  moreover have "world_ok w5" "malloc_budget w5 = None"
    using built_addressed w5 by (simp_all add: built_def)
  moreover have "obl_startup u k initial_world = Ok 0 w5"
    by (simp only: obl_startup_def bindM_run [of "i_initialize_fixed_space u k"]
        initialize_first_part [OF initial_simps(6)] thenM_run w1(1) w2(1) w3(1) w4(1) w5(1)
        result.case retM_run)
  ultimately show ?thesis by blast
qed


section \<open>Properties\<close>

text \<open>
  A converter for the examples: each character is one unit. It stores what fits, fills up with zeros
  and reports when the capacity is not enough.
\<close>

definition ascii_icu :: icu where
  "ascii_icu = \<lparr>ucnv_open = 0,
     ucnv_toUChars = (\<lambda>c len n.
       (let us = map (\<lambda>ch. of_nat (of_char ch)) (take (nat len) c)
        in (take (nat n) us @ replicate (nat n - length us) 0, int (length us),
            if length us \<le> nat n then 0 else U_BUFFER_OVERFLOW_ERROR))),
     ucnv_fromUChars = (\<lambda>us n. (take n (map (\<lambda>v. char_of (unat v)) us), length us, 0)),
     u_errorName = (\<lambda>_. ''U_ZERO_ERROR'')\<rparr>"

lemma ascii_converts: "converts ascii_icu c (map (\<lambda>ch. of_nat (of_char ch)) c)"
  by (simp add: converts_def ascii_icu_def U_FAILURE_def U_BUFFER_OVERFLOW_ERROR_def Let_def)

lemma ascii_converted: "converted ascii_icu c = map (\<lambda>ch. of_nat (of_char ch)) c"
  by (simp add: converted_def converted_block_def ascii_icu_def Let_def)

lemma good_ascii: "good_icu ascii_icu"
  using ascii_converts by (auto simp: good_icu_def) (simp add: ascii_icu_def U_FAILURE_def)

definition started_world :: world where
  "started_world = (case obl_startup ascii_icu (knot 0) initial_world of Ok r w \<Rightarrow> w
     | Fault e \<Rightarrow> initial_world)"

lemma started_world_ok: "world_ok started_world" "malloc_budget started_world = None"
  "shape_with_slots ascii_icu started_world (fixed_ptr started_world OBL_ALLOCATOR_SHAPE_ADDR)
     allocator_slots"
  using startup_run [OF good_ascii, of "knot 0"] by (auto simp: started_world_def)

text \<open>The same process with an open database at pointer 20 and an idle session on it at 21.\<close>

definition example_world :: "memory \<Rightarrow> world" where
  "example_world m = started_world\<lparr>sessions := [21 \<mapsto> session_at 20],
     databases := [20 \<mapsto> plain_database m]\<rparr>"

lemma example_world_ok [simp]:
  "world_ok (example_world m)" "fixed_ok (example_world m)" "fresh (example_world m)"
  "malloc_budget (example_world m) = None" "sessions (example_world m) = [21 \<mapsto> session_at 20]"
  "databases (example_world m) = [20 \<mapsto> plain_database m]"
proof -
  show "world_ok (example_world m)" using started_world_ok(1) by (simp add: example_world_def)
  then show "fixed_ok (example_world m)" "fresh (example_world m)" by (simp_all add: world_ok_def)
  show "malloc_budget (example_world m) = None" "sessions (example_world m) = [21 \<mapsto> session_at 20]"
    "databases (example_world m) = [20 \<mapsto> plain_database m]"
    using started_world_ok(2) by (simp_all add: example_world_def)
qed

text \<open>
  C13: Starting the library in an empty process succeeds and establishes the invariant of the fixed
  space: each of the 15 fixed addresses has its own object, which carries that address and belongs
  to no session, the fixed shapes give their instances the right storage type, nil has nil storage
  and the booleans hold 1 and 0, and the shape of the allocator has its two slots. This is so whatever
  the converter makes of the names.
\<close>

theorem startup_establishes_fixed_space:
  assumes "good_icu u"
  shows "\<exists>w. obl_startup u k initial_world = Ok 0 w \<and> world_ok w \<and>
     (\<forall>a b. fixed_ptr w a = fixed_ptr w b \<longleftrightarrow> a = b) \<and>
     (\<forall>a. i_obl_at_fixed_address (fixed_addr a) w = Ok (fixed_ptr w a) w \<and>
        obl_storage_of (fixed_ptr w a) w =
          Ok (if a = OBL_NIL_ADDR then OBL_NIL
              else if a = OBL_TRUE_ADDR \<or> a = OBL_FALSE_ADDR then OBL_BOOLEAN else OBL_SHAPE) w) \<and>
     (\<forall>a. case fixed_format a of
        Some t \<Rightarrow> obl_shape_storagetype (fixed_ptr w a) w = Ok t w | None \<Rightarrow> True) \<and>
     shape_with_slots u w (fixed_ptr w OBL_ALLOCATOR_SHAPE_ADDR) [''next_logical'', ''next_physical'']"
proof -
  obtain w where w: "obl_startup u k initial_world = Ok 0 w" "world_ok w"
    "shape_with_slots u w (fixed_ptr w OBL_ALLOCATOR_SHAPE_ADDR) allocator_slots"
    using startup_run [OF assms] by blast
  then have ok: "fixed_ok w" by (simp add: world_ok_def)
  note typed = fixed_object_typed [OF ok, THEN obl_storage_of_run]
  have "obl_storage_of (fixed_ptr w a) w =
          Ok (if a = OBL_NIL_ADDR then OBL_NIL
              else if a = OBL_TRUE_ADDR \<or> a = OBL_FALSE_ADDR then OBL_BOOLEAN else OBL_SHAPE) w" for a
    using typed(1-3) typed(4) [of a] by (cases a) simp_all
  moreover have "case fixed_format a of
        Some t \<Rightarrow> obl_shape_storagetype (fixed_ptr w a) w = Ok t w | None \<Rightarrow> True" for a
  proof (cases "fixed_format a")
    case (Some t)
    then have "storage_type_of (storage_code t) = t"
      by (subst storage_type_of_code) (cases a; auto)
    then show ?thesis
      using Some obl_shape_storagetype_run [OF fixed_okD(3) [OF ok Some]] by simp
  qed simp
  ultimately show ?thesis
    using w fixed_ptr_inj [OF ok] at_fixed_address_run by blast
qed

lemma startup_establishes_fixed_space_witness:
  "\<exists>w. obl_startup ascii_icu (knot 0) initial_world = Ok 0 w \<and> world_ok w"
  using startup_establishes_fixed_space [OF good_ascii, of "knot 0"] by blast

text \<open>
  C31: Starting the library again when it has been started changes nothing.
\<close>

theorem startup_idempotent:
  assumes "world_ok w"
  shows "obl_startup u k w = Ok 0 w"
proof -
  have ok: "fixed_ok w" using assms by (simp add: world_ok_def)
  then have "nil_ptr w \<in> set (fixed_space w)"
    by (simp add: fixed_ok_def fixed_ptr_def OBL_FIXED_SIZE_def)
  with fixed_okD(1) [OF ok] have "\<exists>p\<in>set (fixed_space w). p \<noteq> NULL" by blast
  then show ?thesis
    by (simp add: obl_startup_def i_initialize_fixed_space_def bindM_run getsM_run retM_run)
qed

lemma startup_idempotent_witness:
  "obl_startup ascii_icu (knot 0) started_world = Ok 0 started_world"
  using startup_idempotent [OF started_world_ok(1)] by blast

end
