(* ===== verification/RoundTrip.thy ===== *)
theory RoundTrip
  imports Blocks Startup
begin

text \<open>
  Writing an object to the content and reading it back: integers, strings and address tree pages,
  through the dispatch of \<open>obl_write_object\<close> and \<open>obl_read_object\<close>.
\<close>

section \<open>Dispatch on the shape\<close>

lemma fixed_call:
  assumes "sessions w s = Some r"
  shows "call_at_address_depth (knot (Suc n)) s (fixed_addr a) depth is_top w = Ok (fixed_ptr w a) w"
  using assms by (simp add: knot.simps i_obl_at_address_depth_def bindM_run get_run at_fixed_address_run Let_def)

lemma with_function_index_run:
  assumes "fixed_ok w" "fixed_format a = Some t"
  shows "with_function_index corrupt (fixed_ptr w a) continue w = continue t w"
proof -
  have "storage_type_of (storage_code t) = t"
    using assms(2) by (subst storage_type_of_code) (cases a; auto)
  moreover have "obl_storage_of (fixed_ptr w a) w = Ok OBL_SHAPE w"
    using fixed_object_typed(4) [OF assms] by (rule obl_storage_of_run)
  ultimately show ?thesis
    using fixed_okD(4) [OF assms] obl_shape_storagetype_run [OF fixed_okD(3) [OF assms]]
    by (simp add: with_function_index_def bindM_run constants_run)
qed

lemma write_object_run:
  assumes "fixed_ok w" "heap w p = Some x" "obj_shape x = fixed_ptr w a" "fixed_format a = Some t"
    and "has_content w d m" "unat (physical_address x) < capacity m"
  shows "obl_write_object k p d w =
     write_functions t k p d
       (put_content d (store m (unat (physical_address x)) (writable_logical (fixed_addr a))) w)"
  using assms fixed_okD(2) [OF assms(1), of a]
  by (auto simp: obl_write_object_def obl_object_shape_def bindM_run thenM_run get_run retM_run
      with_function_index_run write_cell_run)

lemma read_object_run:
  assumes "fixed_ok w" "sessions w s = Some r" "fixed_format a = Some t"
    and "has_content w d m" "unat base < capacity m"
    and "cells m (unat base) = writable_logical (fixed_addr a)"
  shows "obl_read_object (knot (Suc n)) s d base depth w =
     bindM (read_functions t (knot (Suc n)) s (fixed_ptr w a) d base depth) (\<lambda>result.
       thenM (update_object result
           (\<lambda>x. x\<lparr>obj_shape := fixed_ptr w a, physical_address := base\<rparr>)) (retM result)) w"
proof -
  have "readable_logical (cells m (unat base)) = fixed_addr a"
    using assms(6) by (simp add: codec_simps)
  then show ?thesis
    using assms fixed_call [OF assms(2)]
    by (simp add: obl_read_object_def bindM_run get_run read_cell_run with_function_index_run)
qed

section \<open>Storage without references\<close>

text \<open>Storage that its shape may have, and the number of words it takes with the shape word.\<close>

fun leaf :: "obl_fixed_address \<Rightarrow> obl_storage \<Rightarrow> bool" where
  "leaf OBL_INTEGER_SHAPE_ADDR (Integer_storage s) = True"
| "leaf OBL_STRING_SHAPE_ADDR (String_storage s) = (unat (string_length s) \<le> length (string_contents s))"
| "leaf OBL_ADDRTREEPAGE_SHAPE_ADDR (Addrtreepage_storage s) = (length (page_contents s) = CHUNK_SIZE)"
| "leaf _ _ = False"

fun leaf_size :: "obl_storage \<Rightarrow> nat" where
  "leaf_size (String_storage s) = 2 + (unat (string_length s) + 1) div 2"
| "leaf_size (Addrtreepage_storage s) = 2 + CHUNK_SIZE"
| "leaf_size _ = 2"

text \<open>The words behind the shape word at \<open>b\<close> hold this storage.\<close>

fun encodes :: "memory \<Rightarrow> nat \<Rightarrow> obl_storage \<Rightarrow> bool" where
  "encodes m b (Integer_storage s) \<longleftrightarrow> cells m (b + 1) = writable_int (integer_value s)"
| "encodes m b (String_storage s) \<longleftrightarrow> cells m (b + 1) = writable_uint (string_length s) \<and>
     (\<forall>i<unat (string_length s).
        half_at m ((b + 2) * 2 + i) = writable_UChar (string_contents s ! i))"
| "encodes m b (Addrtreepage_storage s) \<longleftrightarrow> cells m (b + 1) = writable_uint (page_height s) \<and>
     (\<forall>i<CHUNK_SIZE. cells m (b + 2 + i) = writable_uint (page_contents s ! i))"
| "encodes m b _ \<longleftrightarrow> False"

text \<open>
  What a reader makes of it: the block of a string may be longer than the string, and only the string
  itself is stored.
\<close>

fun trimmed :: "obl_storage \<Rightarrow> obl_storage" where
  "trimmed (String_storage s) = String_storage
     \<lparr>string_length = string_length s, string_contents = take (unat (string_length s)) (string_contents s)\<rparr>"
| "trimmed st = st"

definition outside :: "memory \<Rightarrow> memory \<Rightarrow> nat \<Rightarrow> nat \<Rightarrow> bool" where
  "outside m m' b n \<longleftrightarrow> capacity m' = capacity m \<and> (\<forall>j. j < b \<or> b + n \<le> j \<longrightarrow> cells m' j = cells m j)"

lemma storage_of_instance:
  assumes "fixed_ok w" "heap w p = Some x" "obj_shape x = fixed_ptr w a" "fixed_format a = Some t"
  shows "obl_storage_of p w = Ok t w"
  using typed_instance [OF assms] by (rule obl_storage_of_run)

lemma fixed_ok_content [simp]: "fixed_ok (put_content d m w) = fixed_ok w"
  by (simp add: fixed_ok_def fixed_object_def fixed_content_def fixed_ptr_def cong: option.case_cong)

lemma leaf_format: "leaf a st \<Longrightarrow> \<exists>t. fixed_format a = Some t"
  by (cases "(a, st)" rule: leaf.cases) auto

lemma word_steps:
  assumes "unat base + (2 + n) \<le> capacity m" "capacity m < 2 ^ 31"
  shows "unat (base + 1 :: obl_uint) = Suc (unat base)" "unat (base + 2) = unat base + 2"
  using assms unat_offset [of base 1] unat_offset [of base 2] by simp_all

lemma half_up: "n \<le> 2 * ((n + 1) div 2)"
  for n :: nat by presburger

lemma write_integer:
  assumes "fixed_ok w" "heap w p = Some x" "obj_shape x = fixed_ptr w OBL_INTEGER_SHAPE_ADDR"
    and "obj_storage x = Integer_storage st" "has_content w d m"
    and "unat (physical_address x) + 2 \<le> capacity m" "capacity m < 2 ^ 31"
  shows "obl_integer_write p d w = Ok () (put_content d
     (store m (unat (physical_address x) + 1) (writable_int (integer_value st))) w)"
  using assms word_steps(1) [of "physical_address x" 0 m] storage_of_instance [OF assms(1-3), of OBL_INTEGER]
  by (simp add: obl_integer_write_def obl_integer_value_def integer_storage_of_def bindM_run
      get_run retM_run write_cell_run)

lemma write_page:
  assumes "fixed_ok w" "heap w p = Some x" "obj_storage x = Addrtreepage_storage st"
    and "length (page_contents st) = CHUNK_SIZE" "has_content w d m"
    and "unat (physical_address x) + (2 + CHUNK_SIZE) \<le> capacity m" "capacity m < 2 ^ 31"
  shows "obl_addrtreepage_write p d w = Ok () (put_content d
     (store_words (store m (unat (physical_address x) + 1) (writable_uint (page_height st)))
        (unat (physical_address x) + 2) (map (\<lambda>i. writable_uint (page_contents st ! i)) [0..<CHUNK_SIZE])) w)"
proof -
  let ?b = "physical_address x"
  let ?m = "store m (unat ?b + 1) (writable_uint (page_height st))"
  have off: "unat (?b + 1) = Suc (unat ?b)" "unat (?b + 2) = unat ?b + 2"
    using word_steps [OF assms(6,7)] by simp_all
  have "forM [0..<CHUNK_SIZE] (\<lambda>i. bindM (nth_exec (page_contents st) i) (\<lambda>v.
              write_cell d (?b + 2 + of_nat i) (writable_uint v))) (put_content d ?m w) =
      Ok () (put_content d (store_words ?m (unat (?b + 2))
        (map (\<lambda>i. writable_uint (page_contents st ! i)) [0..<CHUNK_SIZE])) (put_content d ?m w))"
    by (rule write_block_run) (use assms off in \<open>simp_all add: bindM_run nth_exec_run\<close>)
  then show ?thesis
    using assms off
    by (simp add: obl_addrtreepage_write_def addrtreepage_storage_of_def bindM_run thenM_run get_run
        retM_run write_cell_run Let_def)
qed

lemma write_string:
  assumes "fixed_ok w" "heap w p = Some x" "obj_shape x = fixed_ptr w OBL_STRING_SHAPE_ADDR"
    and "obj_storage x = String_storage st"
    and "unat (string_length st) \<le> length (string_contents st)" "has_content w d m"
    and "unat (physical_address x) + (2 + (unat (string_length st) + 1) div 2) \<le> capacity m"
    and "capacity m < 2 ^ 31"
  shows "obl_string_write p d w = Ok () (put_content d
     (store_halves (store m (unat (physical_address x) + 1) (writable_uint (string_length st)))
        ((unat (physical_address x) + 2) * 2)
        (map writable_UChar (take (unat (string_length st)) (string_contents st)))) w)"
proof -
  let ?b = "physical_address x" and ?n = "unat (string_length st)"
  let ?m = "store m (unat ?b + 1) (writable_uint (string_length st))"
  have off: "unat (?b + 1) = Suc (unat ?b)" "unat (?b + 2) = unat ?b + 2"
    using word_steps [OF assms(7,8)] by simp_all
  have twice: "unat ((?b + 2) * 2) = (unat ?b + 2) * 2"
    using assms(7,8) off(2) by (simp add: unat_word_ariths mod_less)
  have len: "(unat ?b + 2) * 2 + ?n \<le> 2 * capacity m"
    using assms(5,7) half_up [of ?n] by simp
  have "obl_storage_of p w = Ok OBL_STRING w"
    using storage_of_instance [OF assms(1-3)] by simp
  moreover have "forM [0..<?n] (\<lambda>i. bindM (string_storage_of p) (\<lambda>st.
            bindM (nth_exec (string_contents st) i) (\<lambda>ch.
              write_half d ((?b + 2) * 2 + of_nat i) (writable_UChar ch)))) (put_content d ?m w) =
      Ok () (put_content d (store_halves ?m (unat ((?b + 2) * 2))
        (map (\<lambda>i. writable_UChar (string_contents st ! i)) [0..<?n])) (put_content d ?m w))"
    by (rule write_halves_run)
      (use assms twice len in \<open>simp_all add: bindM_run nth_exec_run string_storage_of_def get_run retM_run\<close>)
  moreover have "map (\<lambda>i. writable_UChar (string_contents st ! i)) [0..<?n] =
      map writable_UChar (take ?n (string_contents st))"
    using assms(5) by (intro nth_equalityI) simp_all
  ultimately show ?thesis
    using assms off twice
    by (simp add: obl_string_write_def obl_string_size_def string_storage_of_def bindM_run thenM_run
        get_run retM_run write_cell_run Let_def)
qed


section \<open>Reading\<close>

lemma read_integer:
  assumes "malloc_budget w = None" "fresh w" "has_content w d m"
    and "encodes m (unat base) (Integer_storage st)" "unat base + 2 \<le> capacity m" "capacity m < 2 ^ 31"
  shows "obl_integer_read d base w = Ok (next_ptr w)
     (add_object (plain_object (fixed_ptr w OBL_INTEGER_SHAPE_ADDR) (Integer_storage st)) w)"
  using assms word_steps(1) [of base 0 m]
  by (cases st) (simp add: obl_integer_read_def bindM_run read_cell_run codec_simps create_integer_run)

text \<open>The loop that fills a new page.\<close>

lemma fill_page_run:
  assumes "has_content w d m" "unat base + n \<le> capacity m" "capacity m < 2 ^ 31"
    and "n \<le> length cs"
  shows "forM [0..<n] (\<lambda>i.
       bindM (read_cell d (base + of_nat i)) (\<lambda>c.
       bindM (addrtreepage_storage_of (next_ptr w)) (\<lambda>st.
         update_object (next_ptr w) (\<lambda>x. x\<lparr>obj_storage := Addrtreepage_storage
           (st\<lparr>page_contents := (page_contents st)[i := readable_uint c]\<rparr>)\<rparr>))))
     (add_object (plain_object s (Addrtreepage_storage \<lparr>page_height = h, page_contents = cs\<rparr>)) w) =
   Ok () (add_object (plain_object s (Addrtreepage_storage \<lparr>page_height = h,
     page_contents = map (\<lambda>i. readable_uint (cells m (unat base + i))) [0..<n] @ drop n cs\<rparr>)) w)"
  using assms
proof (induction n)
  case 0
  then show ?case by (simp add: retM_run)
next
  case (Suc n)
  let ?f = "\<lambda>i. readable_uint (cells m (unat base + i))"
  have "(map ?f [0..<n] @ drop n cs)[n := ?f n] = map ?f [0..<Suc n] @ drop (Suc n) cs"
    using Suc.prems(4) by (simp add: list_update_append Cons_nth_drop_Suc [symmetric])
  moreover have "unat (base + of_nat n) = unat base + n"
    using Suc.prems(2,3) by (intro unat_offset) simp
  moreover have "[0..<Suc n] = [0..<n] @ [n]" by simp
  ultimately show ?case
    using Suc
    by (simp add: forM_append thenM_run bindM_run read_cell_run addrtreepage_storage_of_def get_run
        retM_run update_object_run plain_object_def del: upt.simps)
qed

lemma read_page:
  assumes "malloc_budget w = None" "fresh w" "has_content w d m"
    and "encodes m (unat base) (Addrtreepage_storage st)" "length (page_contents st) = CHUNK_SIZE"
    and "unat base + (2 + CHUNK_SIZE) \<le> capacity m" "capacity m < 2 ^ 31"
  shows "obl_addrtreepage_read d base w = Ok (next_ptr w)
     (add_object (plain_object (fixed_ptr w OBL_ADDRTREEPAGE_SHAPE_ADDR) (Addrtreepage_storage st)) w)"
proof -
  note off = word_steps [OF assms(6,7)]
  have pages: "map (\<lambda>i. readable_uint (cells m (unat (base + 2) + i))) [0..<CHUNK_SIZE] = page_contents st"
    using assms(4,5) off(2) by (intro nth_equalityI) (simp_all add: codec_simps)
  have cell: "readable_uint (cells m (Suc (unat base))) = page_height st"
    using assms(4) by (simp add: codec_simps)
  have st: "st = \<lparr>page_height = page_height st, page_contents = page_contents st\<rparr>" by simp
  have "forM [0..<CHUNK_SIZE] (\<lambda>i.
       bindM (read_cell d (base + 2 + of_nat i)) (\<lambda>c.
       bindM (addrtreepage_storage_of (next_ptr w)) (\<lambda>st.
         update_object (next_ptr w) (\<lambda>x. x\<lparr>obj_storage := Addrtreepage_storage
           (st\<lparr>page_contents := (page_contents st)[i := readable_uint c]\<rparr>)\<rparr>))))
     (add_object (plain_object (fixed_ptr w OBL_ADDRTREEPAGE_SHAPE_ADDR)
        (Addrtreepage_storage \<lparr>page_height = page_height st, page_contents = replicate CHUNK_SIZE 0\<rparr>)) w) =
   Ok () (add_object (plain_object (fixed_ptr w OBL_ADDRTREEPAGE_SHAPE_ADDR) (Addrtreepage_storage st)) w)"
    using fill_page_run [OF assms(3), of "base + 2" CHUNK_SIZE "replicate CHUNK_SIZE 0"
        "fixed_ptr w OBL_ADDRTREEPAGE_SHAPE_ADDR" "page_height st"] pages off(2) assms(6,7)
    by (cases st) simp
  then show ?thesis
    using assms(1-3,6) off(1) cell
    by (simp add: obl_addrtreepage_read_def bindM_run thenM_run read_cell_run create_addrtreepage_run
        retM_run del: forM.simps)
qed

lemma read_string:
  assumes "malloc_budget w = None" "fresh w" "has_content w d m"
    and "encodes m (unat base) (String_storage st)"
    and "unat (string_length st) \<le> length (string_contents st)"
    and "unat base + (2 + (unat (string_length st) + 1) div 2) \<le> capacity m" "capacity m < 2 ^ 31"
  shows "obl_string_read shape d base w = Ok (next_ptr w)
     (add_object (plain_object (fixed_ptr w OBL_STRING_SHAPE_ADDR) (trimmed (String_storage st))) w)"
proof -
  let ?n = "unat (string_length st)"
  note off = word_steps [OF assms(6,7)]
  have twice: "unat ((base + 2) * 2) = (unat base + 2) * 2"
    using assms(6,7) off(2) by (simp add: unat_word_ariths mod_less)
  have len: "(unat base + 2) * 2 + ?n \<le> 2 * capacity m"
    using assms(5,6) half_up [of ?n] by simp
  have "mapM (\<lambda>i. bindM (read_half d ((base + 2) * 2 + of_nat i)) (\<lambda>ch. retM (readable_UChar ch)))
      [0..<?n] w = Ok (map (\<lambda>i. string_contents st ! i) [0..<?n]) w"
  proof (rule mapM_pure)
    fix i assume "i \<in> set [0..<?n]"
    then have i: "i < ?n" by simp
    then have at: "unat ((base + 2) * 2 + of_nat i) = (unat base + 2) * 2 + i"
      using unat_offset [of "(base + 2) * 2" i] twice len assms(7) by simp
    have "half_at m ((unat base + 2) * 2 + i) = writable_UChar (string_contents st ! i)"
      using assms(4,5) i by simp
    with at i len show "bindM (read_half d ((base + 2) * 2 + of_nat i))
        (\<lambda>ch. retM (readable_UChar ch)) w = Ok (string_contents st ! i) w"
      by (simp add: bindM_run read_half_run [OF assms(3)] retM_run codec_simps)
  qed
  moreover have "map (\<lambda>i. string_contents st ! i) [0..<?n] = take ?n (string_contents st)"
    using assms(5) by (intro nth_equalityI) simp_all
  moreover have "readable_uint (cells m (Suc (unat base))) = string_length st"
    using assms(4) by (simp add: codec_simps)
  ultimately show ?thesis
    using assms off
    by (cases st) (simp add: obl_string_read_def bindM_run read_cell_run malloc_run create_string_run
        Let_def)
qed


section \<open>Whole objects\<close>

lemma fixed_ok_put_content: "fixed_ok w \<Longrightarrow> fixed_ok (put_content d m w)"
  by simp

lemma has_content_write: "has_content (put_content d m w) d m"
  by simp

lemma write_leaf:
  assumes "fixed_ok w" "heap w p = Some x" "obj_shape x = fixed_ptr w a" "leaf a (obj_storage x)"
    and "has_content w d m"
    and "unat (physical_address x) + leaf_size (obj_storage x) \<le> capacity m" "capacity m < 2 ^ 31"
  shows "\<exists>m'. obl_write_object k p d w = Ok () (put_content d m' w) \<and>
     cells m' (unat (physical_address x)) = writable_logical (fixed_addr a) \<and>
     encodes m' (unat (physical_address x)) (obj_storage x) \<and>
     outside m m' (unat (physical_address x)) (leaf_size (obj_storage x))"
proof -
  let ?b = "unat (physical_address x)"
  let ?m = "store m ?b (writable_logical (fixed_addr a))"
  let ?w = "put_content d ?m w"
  have ok: "fixed_ok ?w" "heap ?w p = Some x" "obj_shape x = fixed_ptr ?w a"
    using assms(1-3) by simp_all
  have fits: "?b + 2 \<le> capacity m"
    using assms(6) by (cases "obj_storage x") simp_all
  have dispatch: "obl_write_object k p d w = write_functions t k p d ?w"
    if "fixed_format a = Some t" for t
    by (rule write_object_run [OF assms(1-3) that assms(5)]) (use fits in simp)
  show ?thesis
  proof (cases "(a, obj_storage x)" rule: leaf.cases)
    case (1 st)
    let ?m' = "store ?m (?b + 1) (writable_int (integer_value st))"
    have "obl_write_object k p d w = Ok () (put_content d ?m' w)"
      using dispatch [of OBL_INTEGER] write_integer [of ?w p x st d ?m] ok 1 fits assms(7) by simp
    then show ?thesis
      using 1 by (intro exI [of _ ?m']) (simp add: outside_def)
  next
    case (2 st)
    let ?m' = "store_halves (store ?m (?b + 1) (writable_uint (string_length st)))
        ((?b + 2) * 2) (map writable_UChar (take (unat (string_length st)) (string_contents st)))"
    have "obl_write_object k p d w = Ok () (put_content d ?m' w)"
      using dispatch [of OBL_STRING] write_string [of ?w p x st d ?m] ok 2 assms(4,6,7) by simp
    moreover have "encodes ?m' ?b (String_storage st)"
      using assms(4) 2 by (simp add: cells_store_halves half_at_store_halves)
    moreover have "outside m ?m' ?b (leaf_size (String_storage st))"
      using assms(4) 2 by (auto simp: outside_def cells_store_halves)
    moreover have "cells ?m' ?b = writable_logical (fixed_addr a)"
      by (simp add: cells_store_halves)
    ultimately show ?thesis using 2 by (intro exI [of _ ?m']) simp
  next
    case (3 st)
    let ?m' = "store_words (store ?m (?b + 1) (writable_uint (page_height st))) (?b + 2)
        (map (\<lambda>i. writable_uint (page_contents st ! i)) [0..<CHUNK_SIZE])"
    have "obl_write_object k p d w = Ok () (put_content d ?m' w)"
      using dispatch [of OBL_ADDRTREEPAGE] write_page [of ?w p x st d ?m] ok 3 assms(4,6,7) by simp
    then show ?thesis
      using 3 by (intro exI [of _ ?m']) (auto simp: outside_def)
  qed (use assms(4) in simp_all)
qed

lemma read_leaf:
  assumes "fixed_ok w" "fresh w" "malloc_budget w = None" "sessions w s = Some r" "leaf a st"
    and "has_content w d m" "cells m (unat base) = writable_logical (fixed_addr a)"
    and "encodes m (unat base) st" "unat base + leaf_size st \<le> capacity m" "capacity m < 2 ^ 31"
  shows "obl_read_object (knot (Suc n)) s d base depth w = Ok (next_ptr w)
     (add_object ((plain_object (fixed_ptr w a) (trimmed st))\<lparr>physical_address := base\<rparr>) w)"
proof -
  have fits: "unat base + 2 \<le> capacity m"
    using assms(9) by (cases st) simp_all
  have dispatch: "obl_read_object (knot (Suc n)) s d base depth w =
     bindM (read_functions t (knot (Suc n)) s (fixed_ptr w a) d base depth) (\<lambda>result.
       thenM (update_object result
           (\<lambda>x. x\<lparr>obj_shape := fixed_ptr w a, physical_address := base\<rparr>)) (retM result)) w"
    if "fixed_format a = Some t" for t
    by (rule read_object_run [OF assms(1,4) that assms(6) _ assms(7)]) (use fits in simp)
  show ?thesis
  proof (cases "(a, st)" rule: leaf.cases)
    case (1 v)
    then show ?thesis
      using dispatch [of OBL_INTEGER] read_integer [OF assms(3,2,6), of base v] assms(8,10) fits
      by (simp add: bindM_run thenM_run retM_run update_object_run plain_object_def)
  next
    case (2 v)
    then show ?thesis
      using dispatch [of OBL_STRING] read_string [OF assms(3,2,6), of base v] assms(5,8-10)
      by (simp add: bindM_run thenM_run retM_run update_object_run plain_object_def)
  next
    case (3 v)
    then show ?thesis
      using dispatch [of OBL_ADDRTREEPAGE] read_page [OF assms(3,2,6), of base v] assms(5,8-10)
      by (simp add: bindM_run thenM_run retM_run update_object_run plain_object_def)
  qed (use assms(5) in simp_all)
qed


section \<open>Properties\<close>

text \<open>
  C5: An integer, string or address tree page that is written to the database and read back at its
  physical address comes back as a new object with the same shape, the same storage and that
  address (where the block of a string is longer than the string, the block read back has just the
  string). The write changes only the words that the object takes, and neither call changes any
  other object.
\<close>

theorem write_read_roundtrip:
  assumes "world_ok w" "malloc_budget w = None" "sessions w s = Some r"
    and "databases w d = Some db" "content db = Some m"
    and "heap w p = Some x" "obj_shape x = fixed_ptr w a" "leaf a (obj_storage x)"
    and "unat (physical_address x) + leaf_size (obj_storage x) \<le> capacity m" "capacity m < 2 ^ 31"
  shows "\<exists>m' w2. obl_write_object (knot (Suc n)) p d w = Ok () (put_content d m' w) \<and>
     outside m m' (unat (physical_address x)) (leaf_size (obj_storage x)) \<and>
     obl_read_object (knot (Suc n)) s d (physical_address x) depth (put_content d m' w) =
       Ok (next_ptr w) w2 \<and>
     heap w2 = (heap w)(next_ptr w \<mapsto>
       (plain_object (obj_shape x) (trimmed (obj_storage x)))\<lparr>physical_address := physical_address x\<rparr>) \<and>
     world_ok w2"
proof -
  have ok: "fixed_ok w" "fresh w" using assms(1) by (simp_all add: world_ok_def)
  have content: "has_content w d m" using assms(4,5) by (simp add: has_content_def)
  obtain m' where m': "obl_write_object (knot (Suc n)) p d w = Ok () (put_content d m' w)"
    "cells m' (unat (physical_address x)) = writable_logical (fixed_addr a)"
    "encodes m' (unat (physical_address x)) (obj_storage x)"
    "outside m m' (unat (physical_address x)) (leaf_size (obj_storage x))"
    using write_leaf [OF ok(1) assms(6-8) content assms(9,10)] by blast
  let ?w = "put_content d m' w"
  let ?x = "(plain_object (obj_shape x) (trimmed (obj_storage x)))\<lparr>physical_address := physical_address x\<rparr>"
  have "fresh ?w" using ok(2) by (simp add: fresh_def)
  then have "obl_read_object (knot (Suc n)) s d (physical_address x) depth ?w =
      Ok (next_ptr ?w) (add_object ?x ?w)"
    using read_leaf [of ?w s r a "obj_storage x" d m' "physical_address x" n depth] m' ok assms
    by (simp add: outside_def)
  moreover have "heap (add_object ?x ?w) = (heap w)(next_ptr w \<mapsto> ?x)"
    by (simp add: add_object_def)
  moreover have "world_ok (add_object ?x ?w)"
    using assms(1) by (intro world_ok_add) simp
  ultimately show ?thesis using m' by (intro exI [of _ m'] exI [of _ "add_object ?x ?w"]) simp
qed

text \<open>A string of three units in the example process.\<close>

definition example_string :: obl_storage where
  "example_string = String_storage \<lparr>string_length = 3, string_contents = [104, 105, 33]\<rparr>"

lemma trimmed_example [simp]: "trimmed example_string = example_string"
  by (simp add: example_string_def)

definition string_world :: world where
  "string_world = (let w = example_world \<lparr>cells = (\<lambda>_. 0), capacity = 64\<rparr> in
     add_object ((plain_object (fixed_ptr w OBL_STRING_SHAPE_ADDR) example_string)
       \<lparr>physical_address := 7\<rparr>) w)"

lemma write_read_roundtrip_witness:
  "\<exists>p m' w2. obl_write_object (knot 1) p 20 string_world = Ok () (put_content 20 m' string_world) \<and>
     obl_read_object (knot 1) 21 20 7 3 (put_content 20 m' string_world) =
       Ok (next_ptr string_world) w2 \<and>
     map_option obj_storage (heap w2 (next_ptr string_world)) = Some example_string"
proof -
  let ?w = "example_world \<lparr>cells = (\<lambda>_. 0), capacity = 64\<rparr>"
  let ?x = "(plain_object (fixed_ptr ?w OBL_STRING_SHAPE_ADDR) example_string)
       \<lparr>physical_address := 7\<rparr>"
  have w: "string_world = add_object ?x ?w" by (simp add: string_world_def Let_def)
  have ok: "world_ok string_world" unfolding w by (rule world_ok_add) simp
  have "\<exists>m' w2. obl_write_object (knot (Suc 0)) (next_ptr ?w) 20 string_world =
        Ok () (put_content 20 m' string_world) \<and>
     outside \<lparr>cells = (\<lambda>_. 0), capacity = 64\<rparr> m' (unat (physical_address ?x)) (leaf_size (obj_storage ?x)) \<and>
     obl_read_object (knot (Suc 0)) 21 20 (physical_address ?x) 3 (put_content 20 m' string_world) =
       Ok (next_ptr string_world) w2 \<and>
     heap w2 = (heap string_world)(next_ptr string_world \<mapsto>
       (plain_object (obj_shape ?x) (trimmed (obj_storage ?x)))\<lparr>physical_address := physical_address ?x\<rparr>) \<and>
     world_ok w2"
    by (rule write_read_roundtrip [OF ok, where r = "session_at 20" and a = OBL_STRING_SHAPE_ADDR
          and db = "plain_database \<lparr>cells = (\<lambda>_. 0), capacity = 64\<rparr>"])
      (simp_all add: w example_string_def plain_database_def)
  then obtain m' w2 where
    "obl_write_object (knot 1) (next_ptr ?w) 20 string_world = Ok () (put_content 20 m' string_world)"
    "obl_read_object (knot 1) 21 20 7 3 (put_content 20 m' string_world) = Ok (next_ptr string_world) w2"
    "map_option obj_storage (heap w2 (next_ptr string_world)) = Some example_string"
    by (auto simp: plain_object_def trimmed_example)
  then show ?thesis by blast
qed

end
