(* ===== verification/ValueFacts.thy ===== *)
theory ValueFacts
  imports RoundTrip
begin

text \<open>
  The value objects: creation with and without memory, setters outside and inside a transaction,
  comparison and copying of strings, sizes in words, and what reading an object without a read
  function does.
\<close>

section \<open>Creation\<close>

lemma integer_value_run:
  assumes "fixed_ok w" "heap w p = Some x" "obj_shape x = fixed_ptr w OBL_INTEGER_SHAPE_ADDR"
    and "obj_storage x = Integer_storage st"
  shows "obl_integer_value p w = Ok (integer_value st) w"
  using assms storage_of_instance [OF assms(1-3), of OBL_INTEGER]
  by (simp add: obl_integer_value_def integer_storage_of_def bindM_run get_run retM_run)

lemma budget_cases:
  obtains "malloc_budget w = None" | "malloc_budget w = Some 0" | "malloc_budget w = Some (Suc 0)"
    | n where "malloc_budget w = Some (Suc (Suc n))"
  by (cases "malloc_budget w"; cases "the (malloc_budget w)"; cases "the (malloc_budget w) - 1"; auto)

text \<open>A new integer has its storage type and its value.\<close>

lemma integer_made:
  assumes "world_ok w'" "fixed_space w' = fixed_space w"
    and "x = plain_object (fixed_ptr w OBL_INTEGER_SHAPE_ADDR) (Integer_storage \<lparr>integer_value = v\<rparr>)"
  shows "world_ok (add_object x w')"
    and "obl_storage_of (next_ptr w') (add_object x w') = Ok OBL_INTEGER (add_object x w')"
    and "obl_integer_value (next_ptr w') (add_object x w') = Ok v (add_object x w')"
proof -
  show ok': "world_ok (add_object x w')" using assms(1) by (rule world_ok_add)
  show "obl_storage_of (next_ptr w') (add_object x w') = Ok OBL_INTEGER (add_object x w')"
    by (rule storage_of_instance [where a = OBL_INTEGER_SHAPE_ADDR and x = x])
      (use ok' assms in \<open>simp_all add: world_ok_def fixed_ptr_def\<close>)
  show "obl_integer_value (next_ptr w') (add_object x w') = Ok v (add_object x w')"
    using integer_value_run [where p = "next_ptr w'" and w = "add_object x w'" and x = x] ok' assms
    by (simp add: world_ok_def fixed_ptr_def)
qed

section \<open>Setters\<close>

text \<open>A session with an open transaction, nobody waiting, and a write set keyed by addresses.\<close>

definition in_transaction :: "world \<Rightarrow> ptr \<Rightarrow> obl_session \<Rightarrow> ptr \<Rightarrow> obl_transaction \<Rightarrow> obl_set \<Rightarrow> bool" where
  "in_transaction w s r t tx ws \<longleftrightarrow>
     s \<noteq> NULL \<and> sessions w s = Some r \<and> 0 < session_mutex r \<and>
     t \<noteq> NULL \<and> current_transaction r = t \<and> transactions w t = Some tx \<and> tx_session tx = s \<and>
     write_set tx = Some ws \<and> set_keyfunction ws = logical_address_keyfunction \<and>
     rb_valid (set_root ws)"

lemma mutex_restored [simp]:
  "0 < session_mutex r \<Longrightarrow>
     r\<lparr>session_mutex := Suc (session_mutex r - Suc 0)\<rparr> = (r :: obl_session)"
  by (cases r) simp

lemma ensure_run:
  assumes "in_transaction w s r t tx ws"
  shows "obl_ensure_transaction s c w = Ok (t, False) w"
proof -
  have "w\<lparr>sessions := (sessions w)(s \<mapsto> r)\<rparr> = w"
    using assms by (simp add: in_transaction_def fun_upd_idem)
  then show ?thesis
    using assms
    by (simp add: in_transaction_def obl_ensure_transaction_def wait_session_mutex_def
        post_session_mutex_def run)
qed

definition marked :: "ptr \<Rightarrow> obl_object \<Rightarrow> ptr \<Rightarrow> obl_transaction \<Rightarrow> obl_set \<Rightarrow> world \<Rightarrow> world" where
  "marked p x t tx ws w = w\<lparr>transactions := (transactions w)(t \<mapsto> tx\<lparr>write_set :=
     Some (ws\<lparr>set_root := fst (set_insert (set_root ws) (unat (logical_address x)) p)\<rparr>)\<rparr>)\<rparr>"

lemma set_insert_same_run:
  assumes "malloc_budget w = None" "heap w p = Some x"
    and "set_keyfunction ws = logical_address_keyfunction" "rb_valid (set_root ws)"
    and "lookup_r (set_root ws) (unat (logical_address x)) \<in> {None, Some p}"
  shows "obl_set_insert ws p w =
     Ok (ws\<lparr>set_root := fst (set_insert (set_root ws) (unat (logical_address x)) p)\<rparr>) w"
proof -
  have "snd (set_insert (set_root ws) (unat (logical_address x)) p) \<in> {None, Some p}"
    using assms(4,5) insert_r_replaced [of "set_root ws"]
    by (simp add: set_insert_def case_prod_beta rb_valid_def)
  then show ?thesis
    using assms(1-3)
    by (auto simp: obl_set_insert_def create_node_def bindM_run thenM_run malloc_run get_run retM_run
        whenM_run case_prod_beta Let_def)
qed

lemma mark_dirty_run:
  assumes "malloc_budget w = None" "in_transaction w s r t tx ws" "heap w p = Some x"
    and "obj_session x = s" "lookup_r (set_root ws) (unat (logical_address x)) \<in> {None, Some p}"
  shows "obl_mark_dirty p w = Ok () (marked p x t tx ws w)"
proof -
  have tr: "set_keyfunction ws = logical_address_keyfunction" "rb_valid (set_root ws)"
    using assms(2) by (simp_all add: in_transaction_def)
  let ?w1 = "w\<lparr>sessions := (sessions w)(s \<mapsto> r\<lparr>session_mutex := session_mutex r - Suc 0\<rparr>)\<rparr>"
  have "obl_set_insert ws p ?w1 =
     Ok (ws\<lparr>set_root := fst (set_insert (set_root ws) (unat (logical_address x)) p)\<rparr>) ?w1"
    by (rule set_insert_same_run) (use assms tr in simp_all)
  moreover have "(sessions w)(s \<mapsto> r) = sessions w"
    using assms(2) by (simp add: in_transaction_def fun_upd_idem)
  ultimately show ?thesis
    using assms
    by (simp add: in_transaction_def obl_mark_dirty_def wait_session_mutex_def Let_def
        post_session_mutex_def marked_def bindM_run thenM_run get_run update_run the_set_run)
qed

lemma in_transaction_marked:
  assumes "in_transaction w s r t tx ws"
  shows "in_transaction (marked p x t tx ws w) s r t
     (tx\<lparr>write_set := Some (ws\<lparr>set_root := fst (set_insert (set_root ws) (unat (logical_address x)) p)\<rparr>)\<rparr>)
     (ws\<lparr>set_root := fst (set_insert (set_root ws) (unat (logical_address x)) p)\<rparr>)"
  using assms by (auto simp: in_transaction_def marked_def rb_valid_set_insert)

lemma marked_frame [simp]:
  "heap (marked p x t tx ws w) = heap w" "sessions (marked p x t tx ws w) = sessions w"
  "databases (marked p x t tx ws w) = databases w" "next_ptr (marked p x t tx ws w) = next_ptr w"
  "fixed_space (marked p x t tx ws w) = fixed_space w"
  "malloc_budget (marked p x t tx ws w) = malloc_budget w"
  "world_ok (marked p x t tx ws w) = world_ok w"
  by (simp_all add: marked_def)

text \<open>Changing an object inside a transaction: the change runs on the marked object.\<close>

lemma modify_run:
  assumes "malloc_budget w = None" "in_transaction w s r t tx ws" "heap w p = Some x"
    and "obj_session x = s" "lookup_r (set_root ws) (unat (logical_address x)) \<in> {None, Some p}"
    and "change (marked p x t tx ws w) = Ok () w'"
  shows "modify_in_transaction k p change w = Ok () w'"
  using assms(3,4,6) ensure_run [OF assms(2)] mark_dirty_run [OF assms(1-5)]
  by (simp add: modify_in_transaction_def bindM_run thenM_run get_run retM_run)

section \<open>Strings\<close>

lemma memcmp_bytes_zero:
  "length xs = length ys \<Longrightarrow> memcmp_bytes xs ys = 0 \<longleftrightarrow> xs = ys"
  by (induction xs ys rule: memcmp_bytes.induct) auto

lemma unit_bytes_inj: "unit_bytes a = unit_bytes b \<longleftrightarrow> a = b"
proof
  assume eq: "unit_bytes a = unit_bytes b"
  then have low: "a AND 0xFF = b AND 0xFF" and high: "drop_bit 8 a = drop_bit 8 b"
    by (simp_all add: unit_bytes_def)
  show "a = b"
  proof (rule bit_word_eqI)
    fix n assume "n < LENGTH(16)"
    have "(0xFF :: UChar) = mask 8" by (simp add: mask_eq_exp_minus_1)
    with low have "bit (a AND mask 8) n = bit (b AND mask 8) n" by simp
    moreover from high have "bit (drop_bit 8 a) (n - 8) = bit (drop_bit 8 b) (n - 8)" by simp
    ultimately show "bit a n = bit b n"
      using \<open>n < LENGTH(16)\<close> by (cases "n < 8") (simp_all add: bit_simps)
  qed
qed simp

lemma length_unit_bytes [simp]: "length (unit_bytes u) = 2"
  by (simp add: unit_bytes_def)

lemma concat_unit_bytes:
  "length xs = length ys \<Longrightarrow>
     concat (map unit_bytes xs) = concat (map unit_bytes ys) \<longleftrightarrow> xs = ys"
  by (induction xs ys rule: list_induct2) (auto simp: unit_bytes_inj append_eq_append_conv)

lemma length_concat_units [simp]: "length (concat (map unit_bytes xs)) = 2 * length xs"
  by (induction xs) simp_all

lemma memcmp_UChars_zero: "length xs = length ys \<Longrightarrow> memcmp_UChars xs ys = 0 \<longleftrightarrow> xs = ys"
  by (simp add: memcmp_UChars_def memcmp_bytes_zero concat_unit_bytes)

lemma string_block_run:
  assumes "string_block w p us rest"
  shows "obl_storage_of p w = Ok OBL_STRING w"
    "string_storage_of p w = Ok \<lparr>string_length = of_nat (length us), string_contents = us @ rest\<rparr> w"
    "obl_string_size p w = Ok (of_nat (length us)) w"
    "unat (of_nat (length us) :: obl_uint) = length us"
proof -
  show 1: "obl_storage_of p w = Ok OBL_STRING w"
    using assms by (simp add: string_block_def obl_storage_of_run)
  show 2: "string_storage_of p w = Ok \<lparr>string_length = of_nat (length us), string_contents = us @ rest\<rparr> w"
    using assms by (auto simp: string_block_def string_storage_of_def run)
  show "obl_string_size p w = Ok (of_nat (length us)) w"
    using 1 2 by (simp add: obl_string_size_def run)
  show "unat (of_nat (length us) :: obl_uint) = length us"
    using assms by (simp add: string_block_def)
qed

lemma small_word_eq:
  assumes "n < 2 ^ 31" "k < 2 ^ 31"
  shows "(of_nat n :: obl_uint) = of_nat k \<longleftrightarrow> n = k"
proof -
  have "unat (of_nat n :: obl_uint) = n" "unat (of_nat k :: obl_uint) = k"
    using assms by simp_all
  then show ?thesis by metis
qed

lemma string_cmp_run:
  assumes "string_at w p us" "string_at w q vs"
  shows "obl_string_cmp p q w =
     Ok (if length us = length vs then memcmp_UChars us vs else -1) w"
proof -
  obtain ru rv where blocks: "string_block w p us ru" "string_block w q vs rv"
    using assms by (auto simp: string_at_def)
  then have small: "length us < 2 ^ 31" "length vs < 2 ^ 31"
    by (simp_all add: string_block_def)
  show ?thesis
    using small_word_eq [OF small] string_block_run [OF blocks(1)] string_block_run [OF blocks(2)]
    by (auto simp: obl_string_cmp_def run)
qed

text \<open>Comparing two strings gives 0 exactly when they hold the same units.\<close>

lemma string_cmp_zero_iff:
  assumes "string_at w p us" "string_at w q vs"
  shows "\<exists>c. obl_string_cmp p q w = Ok c w \<and> (c = 0 \<longleftrightarrow> us = vs)"
  using string_cmp_run [OF assms] memcmp_UChars_zero [of us vs] by auto

section \<open>Example processes\<close>

text \<open>
  An integer with value 1 at the addresses 7 and 9, in a session with an open transaction whose write
  set is empty; and a string of two units in a block of four.
\<close>

definition integer_object :: "world \<Rightarrow> obl_object" where
  "integer_object w = \<lparr>obj_session = 21, logical_address = 7, physical_address = 9,
     obj_shape = fixed_ptr w OBL_INTEGER_SHAPE_ADDR,
     obj_storage = Integer_storage \<lparr>integer_value = 1\<rparr>\<rparr>"

definition empty_set :: obl_set where
  "empty_set = \<lparr>set_root = Tip, set_keyfunction = logical_address_keyfunction\<rparr>"

definition transaction_world :: world where
  "transaction_world = (let w = (example_world \<lparr>cells = (\<lambda>_. 0), capacity = 64\<rparr>)
       \<lparr>sessions := [21 \<mapsto> (session_at 20)\<lparr>current_transaction := 22\<rparr>],
        transactions := [22 \<mapsto> \<lparr>tx_session = 21, write_set = Some empty_set\<rparr>]\<rparr>
     in add_object (integer_object w) w)"

lemma transaction_world:
  "world_ok transaction_world" "malloc_budget transaction_world = None"
  "in_transaction transaction_world 21 ((session_at 20)\<lparr>current_transaction := 22\<rparr>) 22
     \<lparr>tx_session = 21, write_set = Some empty_set\<rparr> empty_set"
  "heap transaction_world (next_ptr started_world) = Some (integer_object transaction_world)"
  "databases transaction_world = [20 \<mapsto> plain_database \<lparr>cells = (\<lambda>_. 0), capacity = 64\<rparr>]"
  by (simp_all add: transaction_world_def Let_def world_ok_add in_transaction_def session_at_def
      empty_set_def rb_valid_def integer_object_def)
    (simp_all add: example_world_def)

lemma integer_object_simps [simp]:
  "obj_session (integer_object w) = 21" "logical_address (integer_object w) = 7"
  "physical_address (integer_object w) = 9"
  "obj_shape (integer_object w) = fixed_ptr w OBL_INTEGER_SHAPE_ADDR"
  "obj_storage (integer_object w) = Integer_storage \<lparr>integer_value = 1\<rparr>"
  by (simp_all add: integer_object_def)

definition hello_object :: "world \<Rightarrow> obl_object" where
  "hello_object w = plain_object (fixed_ptr w OBL_STRING_SHAPE_ADDR)
     (String_storage \<lparr>string_length = 2, string_contents = [104, 105, 7, 7]\<rparr>)"

definition hello_world :: world where
  "hello_world = add_object (hello_object started_world) started_world"

lemma hello_world:
  "world_ok hello_world" "heap hello_world (next_ptr started_world) = Some (hello_object hello_world)"
  "string_block hello_world (next_ptr started_world) [104, 105] [7, 7]"
proof -
  show ok: "world_ok hello_world"
    unfolding hello_world_def by (rule world_ok_add) (rule started_world_ok)
  show at: "heap hello_world (next_ptr started_world) = Some (hello_object hello_world)"
    by (simp add: hello_world_def hello_object_def)
  have "typed_at hello_world (next_ptr started_world) OBL_STRING"
    by (rule typed_instance [OF _ at, of OBL_STRING_SHAPE_ADDR])
      (use ok in \<open>simp_all add: world_ok_def hello_object_def\<close>)
  with at show "string_block hello_world (next_ptr started_world) [104, 105] [7, 7]"
    by (simp add: string_block_def hello_object_def)
qed

text \<open>The string of two units, with an address in a database of 64 words.\<close>

definition stored_hello :: world where
  "stored_hello = add_object ((hello_object started_world)\<lparr>physical_address := 7\<rparr>)
     (example_world \<lparr>cells = (\<lambda>_. 0), capacity = 64\<rparr>)"

lemma stored_hello:
  "fixed_ok stored_hello" "databases stored_hello 20 = Some (plain_database \<lparr>cells = (\<lambda>_. 0), capacity = 64\<rparr>)"
  "heap stored_hello (next_ptr started_world) = Some ((hello_object started_world)\<lparr>physical_address := 7\<rparr>)"
  "obj_shape (hello_object started_world) = fixed_ptr stored_hello OBL_STRING_SHAPE_ADDR"
  "leaf OBL_STRING_SHAPE_ADDR (obj_storage (hello_object started_world))"
  "content (plain_database m) = Some m"
  "obj_storage (hello_object started_world) = String_storage st \<Longrightarrow> unat (string_length st) < 2147483648"
proof -
  have "world_ok stored_hello"
    unfolding stored_hello_def by (rule world_ok_add) (rule example_world_ok)
  then show "fixed_ok stored_hello" by (simp add: world_ok_def)
  show "heap stored_hello (next_ptr started_world) = Some ((hello_object started_world)\<lparr>physical_address := 7\<rparr>)"
    by (simp add: stored_hello_def example_world_def)
  show "databases stored_hello 20 = Some (plain_database \<lparr>cells = (\<lambda>_. 0), capacity = 64\<rparr>)"
    by (simp add: stored_hello_def)
  show "obj_shape (hello_object started_world) = fixed_ptr stored_hello OBL_STRING_SHAPE_ADDR"
    by (simp add: stored_hello_def hello_object_def example_world_def fixed_ptr_def)
qed (auto simp: hello_object_def plain_database_def)

section \<open>The size of what is written\<close>

lemma leaf_wordsize:
  assumes "fixed_ok w" "heap w p = Some x" "obj_shape x = fixed_ptr w a" "leaf a (obj_storage x)"
    and "\<And>st. obj_storage x = String_storage st \<Longrightarrow> unat (string_length st) < 2 ^ 31"
  shows "\<exists>n. obl_object_wordsize k p w = Ok n w \<and>
     (unat n = 1 \<longleftrightarrow> (\<exists>st. obj_storage x = String_storage st \<and> string_length st = 0)) \<and>
     leaf_size (obj_storage x) \<le> max 2 (unat n) \<and> (unat n \<noteq> 1 \<longrightarrow> 2 \<le> unat n)"
proof -
  have storage: "obl_storage_of p w = Ok t w" if "fixed_format a = Some t" for t
    by (rule storage_of_instance [OF assms(1-3) that])
  show ?thesis
  proof (cases "(a, obj_storage x)" rule: leaf.cases)
    case (1 st)
    then show ?thesis using storage [of OBL_INTEGER] by (simp add: obl_object_wordsize_def run)
  next
    case (2 st)
    let ?n = "unat (string_length st)"
    have size: "unat (1 + string_length st * 2) = 1 + ?n * 2"
      using assms(5) 2 by (simp add: unat_word_ariths mod_less)
    have "obl_object_wordsize k p w = Ok (1 + string_length st * 2) w"
      using storage [of OBL_STRING] 2 assms(2)
      by (simp add: obl_object_wordsize_def obl_string_size_def string_storage_of_def run)
    moreover have "?n = 0 \<longleftrightarrow> string_length st = 0" by (simp add: unsigned_eq_0_iff)
    moreover have "2 + (?n + 1) div 2 \<le> max 2 (1 + ?n * 2)" by presburger
    ultimately show ?thesis using 2 size
      by (intro exI [of _ "1 + string_length st * 2"]) auto
  next
    case (3 st)
    then show ?thesis using storage [of OBL_ADDRTREEPAGE]
      by (simp add: obl_object_wordsize_def run CHUNK_SIZE_def)
  qed (use assms(4) in simp_all)
qed

section \<open>Properties\<close>

text \<open>
  C18: Creating an integer either succeeds or, when one of its two blocks cannot be allocated, returns
  a null pointer and leaves every object as it was, with the object of the first block freed again.
  On success the object has integer storage with the given value and the invariant holds.
\<close>

theorem create_integer_any_memory:
  assumes "world_ok w"
  shows "\<exists>p w'. obl_create_integer v w = Ok p w' \<and>
     (if malloc_budget w \<in> {Some 0, Some 1}
      then p = NULL \<and> heap w' = heap w
      else p = next_ptr w \<and> world_ok w' \<and> obl_storage_of p w' = Ok OBL_INTEGER w' \<and>
        obl_integer_value p w' = Ok v w' \<and> (\<forall>q. q \<noteq> p \<longrightarrow> heap w' q = heap w q))"
proof -
  have fr: "fresh w" using assms by (simp add: world_ok_def)
  then have pos: "next_ptr w \<noteq> NULL" by (simp add: fresh_def)
  let ?x = "plain_object (fixed_ptr w OBL_INTEGER_SHAPE_ADDR) (Integer_storage \<lparr>integer_value = v\<rparr>)"
  note made = integer_made [OF _ _ refl, of _ w v]
  show ?thesis
  proof (cases rule: budget_cases [of w])
    case 1
    then show ?thesis using made [OF assms] fr by (simp add: create_integer_run)
  next
    case 2
    obtain w' where w': "obl_report_error NULL OBL_OUT_OF_MEMORY None w = Ok () w'" "only_log w w'"
      using obl_report_error_NULL by blast
    then show ?thesis using 2 only_log_frame(1) [OF w'(2)]
      by (simp add: obl_create_integer_def i_obl_allocate_object_def bindM_run thenM_run retM_run
          malloc_exhausted)
  next
    case 3
    let ?w = "add_object (plain_object NULL Unset) (w\<lparr>malloc_budget := Some 0\<rparr>)"
    obtain w' where w': "obl_report_error NULL OBL_OUT_OF_MEMORY None ?w = Ok () w'" "only_log ?w w'"
      using obl_report_error_NULL by blast
    note frame = only_log_frame [OF w'(2)]
    have "(heap ?w)(next_ptr w := None) = heap w"
      using fr by (auto simp: fun_eq_iff)
    moreover have "free_object (next_ptr w) w' = Ok () (w'\<lparr>heap := (heap w')(next_ptr w := None)\<rparr>)"
      using fr [unfolded fresh_def] frame by (simp add: free_object_def run)
    moreover have "obl_create_integer v w =
        thenM (obl_report_error NULL OBL_OUT_OF_MEMORY None)
          (thenM (free_object (next_ptr w)) (retM NULL)) ?w"
      using 3 pos by (simp add: obl_create_integer_def i_obl_allocate_object_def malloc_def
          with_storage_block_def new_run plain_object_def add_object_def bindM_run thenM_run)
    ultimately show ?thesis using 3 w'(1) frame(1)
      by (simp add: thenM_run retM_run)
  next
    case (4 n)
    let ?w = "w\<lparr>malloc_budget := Some n\<rparr>"
    have "obl_create_integer v w = Ok (next_ptr w) (add_object ?x ?w)"
      using 4 pos
      by (simp add: obl_create_integer_def i_obl_allocate_object_def malloc_def with_storage_block_def
          bindM_run thenM_run retM_run new_run get_run update_run at_fixed_address_run)
        (simp add: add_object_def plain_object_def)
    then show ?thesis using made [of ?w] assms 4 by simp
  qed
qed

lemma create_integer_any_memory_witness:
  "\<exists>p w'. obl_create_integer 42 (started_world\<lparr>malloc_budget := Some 1\<rparr>) = Ok p w' \<and> p = NULL \<and>
     heap w' = heap started_world"
  using create_integer_any_memory [of "started_world\<lparr>malloc_budget := Some 1\<rparr>" 42] started_world_ok(1)
  by simp


text \<open>
  C15: Setting an integer inside a transaction stores the value, puts the object into the write set
  under its address, keeps every other entry of that set, and changes no other object, no session
  and no database. The semaphore of the session is free again.
\<close>

theorem integer_set_in_transaction:
  assumes "world_ok w" "malloc_budget w = None" "in_transaction w s r t tx ws"
    and "heap w p = Some x" "obj_session x = s" "obj_shape x = fixed_ptr w OBL_INTEGER_SHAPE_ADDR"
    and "obj_storage x = Integer_storage st"
    and "lookup_r (set_root ws) (unat (logical_address x)) \<in> {None, Some p}"
  shows "\<exists>w' tx' ws'. obl_integer_set k p v w = Ok () w' \<and>
     heap w' = (heap w)(p \<mapsto> x\<lparr>obj_storage := Integer_storage \<lparr>integer_value = v\<rparr>\<rparr>) \<and>
     obl_integer_value p w' = Ok v w' \<and> sessions w' = sessions w \<and> databases w' = databases w \<and>
     in_transaction w' s r t tx' ws' \<and>
     (\<forall>j. lookup_r (set_root ws') j =
        (if j = unat (logical_address x) then Some p else lookup_r (set_root ws) j)) \<and> world_ok w'"
proof -
  have ok: "fixed_ok w" using assms(1) by (simp add: world_ok_def)
  let ?w1 = "marked p x t tx ws w"
  let ?ws = "ws\<lparr>set_root := fst (set_insert (set_root ws) (unat (logical_address x)) p)\<rparr>"
  let ?x = "x\<lparr>obj_storage := Integer_storage \<lparr>integer_value = v\<rparr>\<rparr>"
  let ?w' = "put_object p ?x ?w1"
  have "bindM (integer_storage_of p) (\<lambda>st. update_object p
       (\<lambda>x. x\<lparr>obj_storage := Integer_storage (st\<lparr>integer_value := v\<rparr>)\<rparr>)) ?w1 = Ok () ?w'"
    using assms(4,7)
    by (cases st) (simp add: bindM_run integer_storage_of_def get_run retM_run update_object_run)
  then have run: "obl_integer_set k p v w = Ok () ?w'"
    using storage_of_instance [OF ok assms(4,6)] modify_run [OF assms(2-5,8)]
    by (simp add: obl_integer_set_def bindM_run)
  have not_fixed: "p \<noteq> fixed_ptr w a" for a
    using typed_not_fixed [OF ok typed_instance [OF ok assms(4,6)]] by simp
  have ok': "world_ok ?w'"
    by (rule world_ok_put) (use assms(1,4) not_fixed in \<open>simp_all add: fixed_ptr_def\<close>)
  have "obl_integer_value p ?w' = Ok v ?w'"
    using integer_value_run [of ?w' p ?x "\<lparr>integer_value = v\<rparr>"] ok' assms(6)
    by (simp add: world_ok_def fixed_ptr_def)
  moreover have "in_transaction ?w' s r t (tx\<lparr>write_set := Some ?ws\<rparr>) ?ws"
    using in_transaction_marked [OF assms(3), of p x]
    by (simp add: in_transaction_def put_object_def)
  moreover have "\<forall>j. lookup_r (set_root ?ws) j =
        (if j = unat (logical_address x) then Some p else lookup_r (set_root ws) j)"
    using assms(3) by (simp add: in_transaction_def lookup_set_insert rb_valid_def)
  moreover have "heap ?w' = (heap w)(p \<mapsto> ?x)" by (simp add: put_object_def)
  ultimately show ?thesis using run ok' by (intro exI conjI) (assumption | simp)+
qed

lemma integer_set_in_transaction_witness:
  "\<exists>w'. obl_integer_set (knot 0) (next_ptr started_world) 99 transaction_world = Ok () w' \<and>
     obl_integer_value (next_ptr started_world) w' = Ok 99 w'"
proof -
  note set_99 = integer_set_in_transaction [OF transaction_world(1-4), of
      "\<lparr>integer_value = 1\<rparr>" "knot 0" 99]
  have "\<exists>w' tx' ws'. obl_integer_set (knot 0) (next_ptr started_world) 99 transaction_world = Ok () w' \<and>
     heap w' = (heap transaction_world)(next_ptr started_world \<mapsto> (integer_object transaction_world)
       \<lparr>obj_storage := Integer_storage \<lparr>integer_value = 99\<rparr>\<rparr>) \<and>
     obl_integer_value (next_ptr started_world) w' = Ok 99 w' \<and>
     sessions w' = sessions transaction_world \<and> databases w' = databases transaction_world \<and>
     in_transaction w' 21 ((session_at 20)\<lparr>current_transaction := 22\<rparr>) 22 tx' ws' \<and>
     (\<forall>j. lookup_r (set_root ws') j = (if j = unat (logical_address (integer_object transaction_world))
        then Some (next_ptr started_world) else lookup_r (set_root empty_set) j)) \<and> world_ok w'"
    by (rule set_99) (simp_all add: empty_set_def)
  then show ?thesis by blast
qed

text \<open>
  C19: Copying a string of \<open>length us\<close> units into a buffer of \<open>n\<close> units, where the block of the string has
  \<open>rest\<close> behind it. A buffer that is shorter than the string is written past its end. A longer one gets
  what follows the string in its block, and is reported as filled completely; when it is longer than
  the block as well, the copy reads past the block. Only a buffer of exactly the length of the string
  gets the string and its length.
\<close>

theorem string_value_defined:
  assumes "string_block w p us rest"
  shows "obl_string_value p n w =
     (if length us \<le> n \<and> n \<le> length (us @ rest) then Ok (us @ take (n - length us) rest, n) w
      else Fault OutOfBounds)"
  using string_block_run [OF assms] by (auto simp: obl_string_value_def run Let_def)

lemma string_value_defined_witness:
  "obl_string_value (next_ptr started_world) 2 hello_world = Ok ([104, 105], 2) hello_world \<and>
   obl_string_value (next_ptr started_world) 3 hello_world = Ok ([104, 105, 7], 3) hello_world \<and>
   obl_string_value (next_ptr started_world) 1 hello_world = Fault OutOfBounds \<and>
   obl_string_value (next_ptr started_world) 5 hello_world = Fault OutOfBounds"
  using string_value_defined [OF hello_world(3), of 2] string_value_defined [OF hello_world(3), of 3]
    string_value_defined [OF hello_world(3), of 1] string_value_defined [OF hello_world(3), of 5]
  by simp

text \<open>
  C21: The size in words that an integer, a string or an address tree page reports covers what writing
  it stores: when that many words (and at least two) fit behind the physical address of the object,
  the write succeeds and every other word of the database keeps its value. The one exception is the
  empty string: it reports a single word, and the write also sets the word behind it.
\<close>

theorem wordsize_covers_write:
  assumes "fixed_ok w" "databases w d = Some db" "content db = Some m" "capacity m < 2 ^ 31"
    and "heap w p = Some x" "obj_shape x = fixed_ptr w a" "leaf a (obj_storage x)"
    and "\<And>st. obj_storage x = String_storage st \<Longrightarrow> unat (string_length st) < 2 ^ 31"
    and "b = unat (physical_address x)"
  shows "\<exists>n. obl_object_wordsize k p w = Ok n w \<and>
     (unat n = 1 \<longleftrightarrow> (\<exists>st. obj_storage x = String_storage st \<and> string_length st = 0)) \<and>
     (b + max 2 (unat n) \<le> capacity m \<longrightarrow>
       (\<exists>m'. obl_write_object k p d w = Ok () (put_content d m' w) \<and>
          (\<forall>j. j < b \<or> b + unat n \<le> j \<longrightarrow>
             cells m' j = (if unat n = 1 \<and> j = b + 1 then writable_uint 0 else cells m j))))"
proof -
  obtain n where n: "obl_object_wordsize k p w = Ok n w"
    "unat n = 1 \<longleftrightarrow> (\<exists>st. obj_storage x = String_storage st \<and> string_length st = 0)"
    "leaf_size (obj_storage x) \<le> max 2 (unat n)" "unat n \<noteq> 1 \<longrightarrow> 2 \<le> unat n"
    using leaf_wordsize [OF assms(1,5-8)] by blast
  have "\<exists>m'. obl_write_object k p d w = Ok () (put_content d m' w) \<and>
          (\<forall>j. j < b \<or> b + unat n \<le> j \<longrightarrow>
             cells m' j = (if unat n = 1 \<and> j = b + 1 then writable_uint 0 else cells m j))"
    if "b + max 2 (unat n) \<le> capacity m"
  proof -
    have "has_content w d m" using assms(2,3) by (simp add: has_content_def)
    moreover have "unat (physical_address x) + leaf_size (obj_storage x) \<le> capacity m"
      using that n(3) assms(9) by simp
    ultimately obtain m' where m': "obl_write_object k p d w = Ok () (put_content d m' w)"
      "encodes m' b (obj_storage x)" "outside m m' b (leaf_size (obj_storage x))"
      using write_leaf [OF assms(1,5-7) _ _ assms(4)] assms(9) by blast
    have "cells m' (b + 1) = writable_uint 0" if one: "unat n = 1"
    proof -
      obtain st where "obj_storage x = String_storage st" "string_length st = 0" using n(2) one by blast
      with m'(2) show ?thesis by simp
    qed
    then have "cells m' j = (if unat n = 1 \<and> j = b + 1 then writable_uint 0 else cells m j)"
      if "j < b \<or> b + unat n \<le> j" for j
      using m'(3) n(3,4) that by (cases "unat n = 1") (auto simp: outside_def)
    with m'(1) show ?thesis by blast
  qed
  with n(1,2) show ?thesis by blast
qed

lemma wordsize_covers_write_witness:
  "obl_object_wordsize (knot 0) (next_ptr started_world) stored_hello = Ok 5 stored_hello \<and>
   (\<exists>m'. obl_write_object (knot 0) (next_ptr started_world) 20 stored_hello =
     Ok () (put_content 20 m' stored_hello) \<and> cells m' 6 = 0 \<and> cells m' 12 = 0)"
proof -
  let ?m = "\<lparr>cells = (\<lambda>_. 0), capacity = 64\<rparr> :: memory"
  let ?x = "(hello_object started_world)\<lparr>physical_address := 7\<rparr>"
  have shape: "obj_shape ?x = fixed_ptr stored_hello OBL_STRING_SHAPE_ADDR"
    using stored_hello(4) by simp
  have size: "obl_object_wordsize (knot 0) (next_ptr started_world) stored_hello = Ok 5 stored_hello"
    using storage_of_instance [OF stored_hello(1,3) shape, of OBL_STRING] stored_hello(3)
    by (simp add: obl_object_wordsize_def obl_string_size_def string_storage_of_def hello_object_def
        run)
  have "\<exists>n. obl_object_wordsize (knot 0) (next_ptr started_world) stored_hello = Ok n stored_hello \<and>
     (unat n = 1 \<longleftrightarrow> (\<exists>st. obj_storage ?x = String_storage st \<and> string_length st = 0)) \<and>
     (7 + max 2 (unat n) \<le> capacity ?m \<longrightarrow>
       (\<exists>m'. obl_write_object (knot 0) (next_ptr started_world) 20 stored_hello =
            Ok () (put_content 20 m' stored_hello) \<and>
          (\<forall>j. j < 7 \<or> 7 + unat n \<le> j \<longrightarrow>
             cells m' j = (if unat n = 1 \<and> j = 7 + 1 then writable_uint 0 else cells ?m j))))"
    by (rule wordsize_covers_write [where a = OBL_STRING_SHAPE_ADDR and db = "plain_database ?m"])
      (simp_all add: stored_hello)
  with size show ?thesis by auto
qed

text \<open>
  C17: Fixed collections can be written but not read back: reading one reports a wrong storage error
  and then enters the shape and the address of the record into nil itself, the object that all
  sessions share. The invariant of the fixed space is broken.
\<close>

theorem read_fixed_overwrites_nil:
  assumes "world_ok w" "s \<noteq> NULL" "sessions w s = Some r" "ses_database r = d" "d \<noteq> NULL"
    and "databases w d = Some db" "content db = Some m" "unat base < capacity m"
    and "cells m (unat base) = writable_logical (fixed_addr OBL_FIXED_SHAPE_ADDR)"
  shows "\<exists>w' x. obl_read_object (knot (Suc n)) s d base depth w = Ok (nil_ptr w) w' \<and>
     map_option error_code (databases w' d) = Some OBL_WRONG_STORAGE \<and>
     heap w (nil_ptr w) = Some x \<and>
     heap w' = (heap w)(nil_ptr w \<mapsto>
       x\<lparr>obj_shape := fixed_ptr w OBL_FIXED_SHAPE_ADDR, physical_address := base\<rparr>) \<and>
     \<not> world_ok w'"
proof -
  have ok: "fixed_ok w" using assms(1) by (simp add: world_ok_def)
  have content: "has_content w d m" using assms(6,7) by (simp add: has_content_def)
  obtain x where x: "heap w (nil_ptr w) = Some x" using fixed_okD(2) [OF ok] by blast
  obtain w1 where w1: "obl_report_errorf d OBL_WRONG_STORAGE
        ''Attempt to read an object (0x%04lx) with an invalid storage type.'' [Num (uint base)] w = Ok () w1"
    "only_log (w\<lparr>databases := (databases w)(d \<mapsto> db\<lparr>error_message := Some (Formatted
        ''Attempt to read an object (0x%04lx) with an invalid storage type.'' [Num (uint base)]),
        error_code := OBL_WRONG_STORAGE\<rparr>)\<rparr>) w1"
    using obl_report_error_run [OF assms(5,6), of OBL_WRONG_STORAGE "Some (Formatted
        ''Attempt to read an object (0x%04lx) with an invalid storage type.'' [Num (uint base)])"]
    by (auto simp: obl_report_errorf_def)
  note frame = only_log_frame [OF w1(2)]
  have ptr [simp]: "fixed_ptr w1 a = fixed_ptr w a" for a
    using frame(6) by (simp add: fixed_ptr_def)
  let ?x = "x\<lparr>obj_shape := fixed_ptr w OBL_FIXED_SHAPE_ADDR, physical_address := base\<rparr>"
  let ?w' = "put_object (nil_ptr w) ?x w1"
  have "obl_read_object (knot (Suc n)) s d base depth w = Ok (nil_ptr w) ?w'"
    using read_object_run [OF ok assms(3) _ content assms(8,9), of OBL_FIXED n depth] assms(3,4) w1(1) x frame(1)
    by (simp add: invalid_read_def bindM_run thenM_run get_run retM_run constants_run update_object_run)
  moreover have "map_option error_code (databases ?w' d) = Some OBL_WRONG_STORAGE"
    using frame(4) by simp
  moreover have heap': "heap ?w' = (heap w)(nil_ptr w \<mapsto> ?x)"
    using frame(1) by (simp add: put_object_def)
  moreover have "\<not> world_ok ?w'"
  proof
    assume "world_ok ?w'"
    then have "fixed_ok ?w'" by (simp add: world_ok_def)
    then have "typed_at ?w' (nil_ptr ?w') OBL_NIL" by (rule fixed_object_typed)
    moreover have "typed_at ?w' (nil_ptr ?w') OBL_FIXED"
      using fixed_okD(3,4) [OF ok, of OBL_FIXED_SHAPE_ADDR OBL_FIXED] frame(1)
      by (auto simp: typed_at_def shape_at_def intro!: exI [of _ 2])
    ultimately show False using typed_at_unique by fastforce
  qed
  ultimately show ?thesis using x by (intro exI conjI) (assumption | simp)+
qed

lemma read_fixed_overwrites_nil_witness:
  "\<exists>w'. obl_read_object (knot 1) 21 20 3 2 (example_world \<lparr>cells =
       (\<lambda>_. writable_logical (fixed_addr OBL_FIXED_SHAPE_ADDR)), capacity = 64\<rparr>) =
     Ok (nil_ptr started_world) w' \<and> \<not> world_ok w'"
proof -
  let ?m = "\<lparr>cells = (\<lambda>_. writable_logical (fixed_addr OBL_FIXED_SHAPE_ADDR)), capacity = 64\<rparr>"
  have "\<exists>w' x. obl_read_object (knot (Suc 0)) 21 20 3 2 (example_world ?m) =
       Ok (nil_ptr (example_world ?m)) w' \<and>
     map_option error_code (databases w' 20) = Some OBL_WRONG_STORAGE \<and>
     heap (example_world ?m) (nil_ptr (example_world ?m)) = Some x \<and>
     heap w' = (heap (example_world ?m))(nil_ptr (example_world ?m) \<mapsto>
       x\<lparr>obj_shape := fixed_ptr (example_world ?m) OBL_FIXED_SHAPE_ADDR, physical_address := 3\<rparr>) \<and>
     \<not> world_ok w'"
    by (rule read_fixed_overwrites_nil [where r = "session_at 20" and db = "plain_database ?m" and m = ?m])
      (simp_all add: session_at_def plain_database_def)
  then show ?thesis by (auto simp: example_world_def)
qed

end
