(* ===== verification/AddressMapFacts.thy ===== *)
theory AddressMapFacts
  imports Commit StoreFacts
begin

text \<open>
  Correctness of the address map: the map that a well-formed page tree denotes, lookups as lookups in
  it, and assignments as updates of it. Everything is stated on the memory that \<open>content\<close> points to.
\<close>

section \<open>Digits of a logical address\<close>

definition digit :: "nat \<Rightarrow> obl_logical_address \<Rightarrow> nat" where
  "digit h l = unat l div 256 ^ h mod 256"

lemma digit_less [simp]: "digit h l < 256"
  by (simp add: digit_def)

lemma digit_small [simp]: "unat (word_of_nat (digit h l) :: obl_uint) = digit h l"
  by (rule unat_of_nat_small, rule less_trans [OF digit_less]) simp

text \<open>An address below \<open>256 ^ n\<close> is the number that its first \<open>n\<close> digits write.\<close>

lemma digits_determine:
  assumes "\<forall>i<n. digit i a = digit i b" "unat a < 256 ^ n" "unat b < 256 ^ n"
  shows "a = b"
proof -
  have "x mod 256 ^ n = y mod 256 ^ n"
    if "\<forall>i<n. x div 256 ^ i mod 256 = y div 256 ^ i mod 256" for x y :: nat
    using that
  proof (induction n)
    case (Suc n)
    have "x mod 256 ^ Suc n = 256 ^ n * (x div 256 ^ n mod 256) + x mod 256 ^ n" for x :: nat
      by (metis mod_mult2_eq mult.commute power_Suc)
    then show ?case using Suc by simp
  qed simp
  from this [of "unat a" "unat b"] assms show ?thesis
    by (simp add: digit_def)
qed

lemma page_shift [simp]: "PAGE_SHIFT = 8"
  by (simp add: PAGE_SHIFT_def CHUNK_SIZE_LOG2_def)

lemma chunk_size [simp]: "CHUNK_SIZE = 256"
  by (simp add: CHUNK_SIZE_def)

lemma shift_amount:
  assumes "h < 32"
  shows "unat (8 * (word_of_nat h :: obl_uint)) = 8 * h"
proof -
  have "8 * (word_of_nat h :: obl_uint) = word_of_nat (8 * h)" by simp
  moreover have "unat (word_of_nat (8 * h) :: obl_uint) = 8 * h"
    by (rule unat_of_nat_small) (use assms in simp)
  ultimately show ?thesis by simp
qed

lemma mask_push_mod:
  "unat (drop_bit n (l AND push_bit n 255)) = unat l div 2 ^ n mod 256" if "n \<le> 24"
  for l :: obl_logical_address
proof -
  have "drop_bit n (l AND push_bit n 255) = drop_bit n l AND 255"
  proof (rule bit_word_eqI)
    fix i assume "i < LENGTH(32)"
    have m: "(255 :: obl_uint) = mask 8" by (simp add: mask_eq_exp_minus_1)
    have "bit (255 :: obl_uint) i \<longleftrightarrow> i < 8" unfolding m by (auto simp: bit_simps)
    then show "bit (drop_bit n (l AND push_bit n 255)) i = bit (drop_bit n l AND 255) i"
      using that by (auto simp: bit_simps)
  qed
  also have "\<dots> = take_bit 8 (drop_bit n l)"
    by (simp add: take_bit_eq_mask mask_eq_exp_minus_1)
  finally have "unat (drop_bit n (l AND push_bit n 255)) = take_bit 8 (unat (drop_bit n l))"
    by (simp only: unsigned_take_bit_eq)
  moreover have "unat (drop_bit n l) = unat l div 2 ^ n"
    by (simp only: unsigned_drop_bit_eq)
      (simp add: drop_bit_eq_div take_bit_nat_eq_self unat_lt32)
  ultimately show ?thesis by (simp add: take_bit_eq_mod)
qed

lemma treepage_index_run:
  assumes "h \<le> 2"
  shows "i_treepage_index l (word_of_nat h) w = Ok (word_of_nat (digit h l)) w"
proof -
  have shift: "unat (8 * (word_of_nat h :: obl_uint)) = 8 * h"
    using shift_amount assms by simp
  have "256 ^ h = (2 :: nat) ^ (8 * h)" by (simp add: power_mult)
  then have "unat (drop_bit (8 * h) (l AND push_bit (8 * h) 255)) = digit h l"
    using mask_push_mod [of "8 * h" l] assms by (simp add: digit_def)
  then have "drop_bit (8 * h) (l AND push_bit (8 * h) 255) = word_of_nat (digit h l)"
    by (simp flip: unat_same)
  moreover have "255 * 2 ^ (8 * h) < (2147483648 :: nat)"
  proof -
    have "(2 :: nat) ^ (8 * h) \<le> 2 ^ 16" using assms by (intro power_increasing) simp_all
    then show ?thesis by simp
  qed
  ultimately show ?thesis using assms shift
    by (simp add: i_treepage_index_def shift_left_def run Let_def)
qed


section \<open>Well-formed page trees\<close>

definition PAGE_TAG :: obl_uint where
  "PAGE_TAG = writable_uint (fixed_addr OBL_ADDRTREEPAGE_SHAPE_ADDR)"

text \<open>The \<open>i\<close>-th entry of the page at a base address.\<close>

definition page_entry :: "memory \<Rightarrow> obl_physical_address \<Rightarrow> nat \<Rightarrow> obl_physical_address" where
  "page_entry m base i = readable_uint (cells m (unat base + 2 + i))"

definition page_header :: "memory \<Rightarrow> nat \<Rightarrow> obl_physical_address \<Rightarrow> bool" where
  "page_header m h base \<longleftrightarrow>
     unat base + 258 \<le> capacity m \<and> capacity m < 2 ^ 32 \<and>
     cells m (unat base) = PAGE_TAG \<and>
     cells m (unat base + 1) = writable_uint (word_of_nat h)"

fun page_tree :: "memory \<Rightarrow> nat \<Rightarrow> obl_physical_address \<Rightarrow> bool" where
  "page_tree m 0 base = page_header m 0 base"
| "page_tree m (Suc h) base \<longleftrightarrow>
     page_header m (Suc h) base \<and>
     (\<forall>i<256. page_entry m base i \<noteq> 0 \<longrightarrow> page_tree m h (page_entry m base i))"

text \<open>The physical address that the tree gives to a logical address, 0 for none.\<close>

fun tree_map :: "memory \<Rightarrow> nat \<Rightarrow> obl_physical_address \<Rightarrow> obl_logical_address \<Rightarrow>
      obl_physical_address" where
  "tree_map m 0 base l = page_entry m base (digit 0 l)"
| "tree_map m (Suc h) base l =
     (let next_page = page_entry m base (digit (Suc h) l)
      in if next_page = 0 then 0 else tree_map m h next_page l)"

text \<open>The words that the pages of a tree occupy, and the separation of the pages.\<close>

definition page_words :: "obl_physical_address \<Rightarrow> nat set" where
  "page_words base = {unat base..<unat base + 258}"

fun tree_words :: "memory \<Rightarrow> nat \<Rightarrow> obl_physical_address \<Rightarrow> nat set" where
  "tree_words m 0 base = page_words base"
| "tree_words m (Suc h) base =
     page_words base \<union>
     (\<Union>i\<in>{i. i < 256 \<and> page_entry m base i \<noteq> 0}. tree_words m h (page_entry m base i))"

fun separated :: "memory \<Rightarrow> nat \<Rightarrow> obl_physical_address \<Rightarrow> bool" where
  "separated m 0 base = True"
| "separated m (Suc h) base \<longleftrightarrow>
     (\<forall>i<256. page_entry m base i \<noteq> 0 \<longrightarrow>
        separated m h (page_entry m base i) \<and>
        tree_words m h (page_entry m base i) \<inter> page_words base = {} \<and>
        (\<forall>j<256. j \<noteq> i \<and> page_entry m base j \<noteq> 0 \<longrightarrow>
           tree_words m h (page_entry m base i) \<inter> tree_words m h (page_entry m base j) = {}))"

text \<open>There is a page for the address at every level, and the word that holds its entry.\<close>

fun has_path :: "memory \<Rightarrow> nat \<Rightarrow> obl_physical_address \<Rightarrow> obl_logical_address \<Rightarrow> bool" where
  "has_path m 0 base l = True"
| "has_path m (Suc h) base l \<longleftrightarrow>
     page_entry m base (digit (Suc h) l) \<noteq> 0 \<and>
     has_path m h (page_entry m base (digit (Suc h) l)) l"

fun leaf_word :: "memory \<Rightarrow> nat \<Rightarrow> obl_physical_address \<Rightarrow> obl_logical_address \<Rightarrow> nat" where
  "leaf_word m 0 base l = unat base + 2 + digit 0 l"
| "leaf_word m (Suc h) base l = leaf_word m h (page_entry m base (digit (Suc h) l)) l"

lemma page_tree_header: "page_tree m h base \<Longrightarrow> page_header m h base"
  by (cases h) auto

lemma page_words_subset: "page_words base \<subseteq> tree_words m h base"
  by (cases h) auto

section \<open>Lookup\<close>

lemma page_offset:
  assumes "page_header m h base" "i < 258"
  shows "unat (base + word_of_nat i) = unat base + i" "unat base + i < capacity m"
proof -
  show "unat base + i < capacity m" using assms by (simp add: page_header_def)
  moreover have "unat (word_of_nat i :: obl_uint) = i"
    by (rule unat_of_nat_small) (use assms(2) in simp)
  ultimately show "unat (base + word_of_nat i) = unat base + i"
    using assms(1) by (subst unat_plus_small) (auto simp: page_header_def)
qed

lemma page_offset_1: "page_header m h base \<Longrightarrow> unat (base + 1) = unat base + 1"
  using page_offset(1) [of m h base 1] by simp

lemma entry_offset:
  assumes "page_header m h base"
  shows "unat (base + 2 + word_of_nat (digit i l)) = unat base + 2 + digit i l"
    "unat base + 2 + digit i l < capacity m"
  using page_offset [OF assms, of "2 + digit i l"] digit_less [of i l]
  by (simp_all add: add.assoc add_less_mono)

lemma verify_page_run:
  assumes "has_content w d m" "page_header m h base"
  shows "i_verify_addrtreepage d base w = Ok True w"
  using assms page_offset(2) [OF assms(2), of 0]
  by (simp add: i_verify_addrtreepage_def run read_cell_run page_header_def PAGE_TAG_def
      uint_codec.rd_wr)

lemma height_word:
  "page_header m h base \<Longrightarrow> readable_uint (cells m (Suc (unat base))) = word_of_nat h"
  by (simp add: page_header_def uint_codec.rd_wr)

lemma lookup_in_run:
  "\<lbrakk>has_content w d m; page_tree m h base; h \<le> 2; h < n\<rbrakk> \<Longrightarrow>
     i_lookup_in n d base l w = Ok (tree_map m h base l) w"
proof (induction h arbitrary: n base)
  case 0
  then obtain n' where n: "n = Suc n'" by (cases n) auto
  have hdr: "page_header m 0 base" using 0 by simp
  note height = height_word [OF hdr]
  show ?case
    using 0 entry_offset [OF hdr, of 0 l] page_offset(2) [OF hdr, of 1]
      treepage_index_run [of 0 l w]
    by (simp add: n run verify_page_run [OF _ hdr] read_cell_run page_offset_1 [OF hdr] height
        page_entry_def Let_def)
next
  case (Suc h)
  then obtain n' where n: "n = Suc n'" by (cases n) auto
  have hdr: "page_header m (Suc h) base" using Suc.prems by simp
  note height = height_word [OF hdr]
  have nonzero: "(word_of_nat (Suc h) :: obl_uint) \<noteq> 0"
  proof -
    have "unat (word_of_nat (Suc h) :: obl_uint) = Suc h"
      by (rule unat_of_nat_small) (use Suc.prems in simp)
    then show ?thesis by auto
  qed
  show ?case
    using Suc.prems Suc.IH [of "page_entry m base (digit (Suc h) l)" n']
      entry_offset [OF hdr, of "Suc h" l] page_offset(2) [OF hdr, of 1] nonzero
      treepage_index_run [of "Suc h" l w]
    by (simp add: n run verify_page_run [OF _ hdr] read_cell_run page_offset_1 [OF hdr] height
        page_entry_def Let_def)
qed


lemma shift_bound_run:
  assumes "h \<le> 2"
  shows "shift_left 1 (of_nat PAGE_SHIFT * (word_of_nat h + 1)) w = Ok (2 ^ (8 * Suc h)) w"
proof -
  have "word_of_nat h + 1 = (word_of_nat (Suc h) :: obl_uint)" by simp
  then have "unat (of_nat PAGE_SHIFT * (word_of_nat h + 1) :: obl_uint) = 8 * Suc h"
    using shift_amount [of "Suc h"] assms by (simp add: algebra_simps)
  moreover have "(2 :: nat) ^ (8 * Suc h) \<le> 2 ^ 24" using assms by (intro power_increasing) simp_all
  ultimately show ?thesis using assms
    by (simp add: shift_left_def run push_bit_eq_mult del: mult_Suc_right)
qed

lemma outside_mask:
  assumes "n < 32"
  shows "NOT ((2 :: obl_uint) ^ n - 1) AND l \<noteq> 0 \<longleftrightarrow> 2 ^ n \<le> unat l"
proof -
  have "NOT ((2 :: obl_uint) ^ n - 1) AND l = 0 \<longleftrightarrow> take_bit n l = l"
    unfolding mask_eq_exp_minus_1 [symmetric] by (auto simp: bit_eq_iff bit_simps)
  also have "\<dots> \<longleftrightarrow> take_bit n (unat l) = unat l"
    by (simp only: unsigned_take_bit_eq flip: unat_same)
  also have "\<dots> \<longleftrightarrow> unat l < 2 ^ n"
    by (rule take_bit_nat_eq_self_iff)
  finally show ?thesis by auto
qed

lemma page_bound_run: "has_content w d m \<Longrightarrow> page_bound d w = Ok (Suc (capacity m)) w"
  by (simp add: page_bound_def with_content_run run)

lemma address_lookup_run:
  assumes "has_content w d m" "databases w d = Some db"
    and "page_tree m h (address_map_addr (root db))" "h \<le> 2"
  shows "obl_address_lookup d l w =
     Ok (if unat l < 256 ^ Suc h then tree_map m h (address_map_addr (root db)) l else 0) w"
proof -
  let ?base = "address_map_addr (root db)"
  have hdr: "page_header m h ?base" using assms(3) by (rule page_tree_header)
  note height = height_word [OF hdr]
  have "h < Suc (capacity m)" using hdr assms(4) by (simp add: page_header_def)
  moreover have "(256 :: nat) ^ Suc h = 2 ^ (8 * Suc h)"
    by (simp only: power_mult) simp
  moreover have "8 * Suc h < 32" using assms(4) by simp
  ultimately show ?thesis
    using assms lookup_in_run [OF assms(1,3), of "Suc (capacity m)" l]
      shift_bound_run [OF assms(4), of w] outside_mask [of "8 * Suc h" l]
      page_offset(2) [OF hdr, of 1]
    by (simp add: obl_address_lookup_def run verify_page_run [OF _ hdr] read_cell_run
        page_offset_1 [OF hdr] height page_bound_run Let_def del: power_Suc mult_Suc_right page_shift)
qed


section \<open>A tree depends on its own words only\<close>

definition agree :: "nat set \<Rightarrow> memory \<Rightarrow> memory \<Rightarrow> bool" where
  "agree A m m' \<longleftrightarrow> capacity m' = capacity m \<and> (\<forall>i\<in>A. cells m' i = cells m i)"

lemma agree_mono: "agree A m m' \<Longrightarrow> B \<subseteq> A \<Longrightarrow> agree B m m'"
  by (auto simp: agree_def)

lemma agree_entry:
  "\<lbrakk>agree (page_words base) m m'; i < 256\<rbrakk> \<Longrightarrow> page_entry m' base i = page_entry m base i"
  by (simp add: agree_def page_entry_def page_words_def)

lemma agree_header:
  "agree (page_words base) m m' \<Longrightarrow> page_header m' h base = page_header m h base"
  by (simp add: agree_def page_header_def page_words_def)

lemma agree_child:
  "\<lbrakk>agree (tree_words m (Suc h) base) m m'; i < 256; page_entry m base i \<noteq> 0\<rbrakk> \<Longrightarrow>
     agree (tree_words m h (page_entry m base i)) m m'"
  by (rule agree_mono) auto

lemma agree_tree:
  "agree (tree_words m h base) m m' \<Longrightarrow>
     page_tree m' h base = page_tree m h base \<and> tree_words m' h base = tree_words m h base \<and>
     separated m' h base = separated m h base \<and> tree_map m' h base l = tree_map m h base l"
proof (induction h arbitrary: base)
  case 0
  then show ?case by (simp add: agree_header agree_entry)
next
  case (Suc h)
  have page: "agree (page_words base) m m'"
    using Suc.prems by (rule agree_mono) auto
  have entries: "page_entry m' base i = page_entry m base i" if "i < 256" for i
    using agree_entry [OF page that] .
  have IH: "page_tree m' h e = page_tree m h e" "tree_words m' h e = tree_words m h e"
    "separated m' h e = separated m h e" "tree_map m' h e l = tree_map m h e l"
    if "e = page_entry m base i" "i < 256" "e \<noteq> 0" for e i
    using Suc.IH [of e] agree_child [OF Suc.prems, of i] that by simp_all
  have "{i. i < 256 \<and> page_entry m' base i \<noteq> 0} = {i. i < 256 \<and> page_entry m base i \<noteq> 0}"
    using entries by auto
  then have "tree_words m' (Suc h) base = tree_words m (Suc h) base"
    using entries IH(2) by auto
  moreover have "page_tree m' (Suc h) base = page_tree m (Suc h) base"
    using entries IH(1) agree_header [OF page] by auto
  moreover have "separated m' (Suc h) base = separated m (Suc h) base"
    using entries IH(2,3) by auto
  moreover have "tree_map m' (Suc h) base l = tree_map m (Suc h) base l"
    using entries IH(4) [OF refl digit_less] by (auto simp: Let_def)
  ultimately show ?case by simp
qed

section \<open>Assignment along an existing path\<close>

lemma leaf_in_tree:
  "has_path m h base l \<Longrightarrow> leaf_word m h base l \<in> tree_words m h base"
proof (induction h arbitrary: base)
  case 0
  then show ?case using digit_less [of 0 l] by (simp add: page_words_def)
next
  case (Suc h)
  then have "leaf_word m (Suc h) base l \<in> tree_words m h (page_entry m base (digit (Suc h) l))"
    and "page_entry m base (digit (Suc h) l) \<noteq> 0"
    by simp_all
  moreover have "digit (Suc h) l < 256" by simp
  ultimately show ?case by (simp only: tree_words.simps) blast
qed

lemma tree_map_leaf:
  "has_path m h base l \<Longrightarrow> tree_map m h base l = readable_uint (cells m (leaf_word m h base l))"
  by (induction h arbitrary: base) (simp_all add: page_entry_def Let_def)

lemma store_agree: "i \<notin> A \<Longrightarrow> agree A m (store m i v)"
  by (auto simp: agree_def)

text \<open>Two addresses with the same digits down to a level follow the same path.\<close>

lemma store_leaf:
  "\<lbrakk>page_tree m h base; separated m h base; has_path m h base l;
     m' = store m (leaf_word m h base l) (writable_uint v)\<rbrakk> \<Longrightarrow>
     page_tree m' h base \<and> separated m' h base \<and> tree_words m' h base = tree_words m h base \<and>
     has_path m' h base l \<and>
     tree_map m' h base l' =
       (if \<forall>j\<le>h. digit j l' = digit j l then v else tree_map m h base l')"
proof (induction h arbitrary: base)
  case 0
  have hdr: "page_header m' 0 base" using 0 by (simp add: page_header_def)
  have "page_entry m' base (digit 0 l') = (if digit 0 l' = digit 0 l then v else page_entry m base (digit 0 l'))"
    using 0(4) by (simp add: page_entry_def uint_codec.rd_wr)
  then show ?case using hdr by simp
next
  case (Suc h)
  define e where "e = page_entry m base (digit (Suc h) l)"
  have path: "e \<noteq> 0" "has_path m h e l" and e: "leaf_word m (Suc h) base l = leaf_word m h e l"
    using Suc.prems by (simp_all add: e_def)
  have child: "page_tree m h e" "separated m h e"
    using Suc.prems(1,2) path(1) digit_less by (auto simp: e_def)
  have inside: "leaf_word m h e l \<in> tree_words m h e" by (rule leaf_in_tree [OF path(2)])
  have off_page: "leaf_word m h e l \<notin> page_words base"
    using Suc.prems(2) path(1) digit_less [of "Suc h" l] inside
    by (auto simp: e_def simp del: digit_less)
  have page: "agree (page_words base) m m'"
    unfolding Suc.prems(4) e by (rule store_agree [OF off_page])
  have entries: "page_entry m' base i = page_entry m base i" if "i < 256" for i
    using agree_entry [OF page that] .
  have other: "agree (tree_words m h (page_entry m base i)) m m'"
    if "i < 256" "page_entry m base i \<noteq> 0" "i \<noteq> digit (Suc h) l" for i
  proof -
    have "tree_words m h (page_entry m base i) \<inter> tree_words m h e = {}"
      using Suc.prems(2) that path(1) digit_less [of "Suc h" l] by (simp add: e_def)
    then have "leaf_word m h e l \<notin> tree_words m h (page_entry m base i)"
      using inside by blast
    then show ?thesis unfolding Suc.prems(4) e by (rule store_agree)
  qed
  note IH = Suc.IH [OF child path(2) Suc.prems(4) [unfolded e]]
  have same_words: "tree_words m' h (page_entry m base i) = tree_words m h (page_entry m base i)"
    if "i < 256" "page_entry m base i \<noteq> 0" for i
    using that IH agree_tree [OF other [of i]] by (cases "i = digit (Suc h) l") (auto simp: e_def)
  have "{i. i < 256 \<and> page_entry m' base i \<noteq> 0} = {i. i < 256 \<and> page_entry m base i \<noteq> 0}"
    using entries by auto
  then have "tree_words m' (Suc h) base = tree_words m (Suc h) base"
    using entries same_words by auto
  moreover have "page_tree m' h (page_entry m base i) \<and> separated m' h (page_entry m base i)"
    if "i < 256" "page_entry m base i \<noteq> 0" for i
    using that IH agree_tree [OF other [of i]] Suc.prems(1,2)
    by (cases "i = digit (Suc h) l") (auto simp: e_def)
  then have "page_tree m' (Suc h) base" "separated m' (Suc h) base"
    using Suc.prems(1,2) entries same_words agree_header [OF page] by auto
  moreover have "has_path m' (Suc h) base l"
    using IH path entries [OF digit_less] by (simp add: e_def)
  moreover have "tree_map m' (Suc h) base l' =
       (if \<forall>j\<le>Suc h. digit j l' = digit j l then v else tree_map m (Suc h) base l')"
  proof (cases "digit (Suc h) l' = digit (Suc h) l")
    case True
    then show ?thesis using IH path(1) entries [OF digit_less]
      by (auto simp: e_def Let_def le_Suc_eq)
  next
    case False
    then show ?thesis
      using agree_tree [OF other [of "digit (Suc h) l'"]] entries [OF digit_less]
      by (auto simp: Let_def)
  qed
  ultimately show ?case by blast
qed


lemma nonzero_height: "h < 2 ^ 32 \<Longrightarrow> (word_of_nat h :: obl_uint) = 0 \<longleftrightarrow> h = 0"
  by (simp flip: unat_same)

lemma assign_in_run:
  "\<lbrakk>sessions w s = Some r; has_content w (ses_database r) m; page_tree m h base; h \<le> 2; h < n;
     has_path m h base l\<rbrakk> \<Longrightarrow>
     i_assign_in k n s base l v w =
       Ok () (put_content (ses_database r) (store m (leaf_word m h base l) (writable_uint v)) w)"
proof (induction h arbitrary: n base)
  case 0
  then obtain n' where n: "n = Suc n'" by (cases n) auto
  have hdr: "page_header m 0 base" using 0 by simp
  note height = height_word [OF hdr]
  show ?case
    using 0 entry_offset [OF hdr, of 0 l] page_offset(2) [OF hdr, of 1]
      treepage_index_run [of 0 l w]
    by (simp add: n run verify_page_run [OF _ hdr] read_cell_run write_cell_run
        page_offset_1 [OF hdr] height Let_def)
next
  case (Suc h)
  then obtain n' where n: "n = Suc n'" by (cases n) auto
  have hdr: "page_header m (Suc h) base" using Suc.prems by simp
  note height = height_word [OF hdr]
  have nonzero: "(word_of_nat (Suc h) :: obl_uint) \<noteq> 0"
    using nonzero_height [of "Suc h"] Suc.prems by simp
  show ?case
    using Suc.prems Suc.IH [of "page_entry m base (digit (Suc h) l)" n']
      entry_offset [OF hdr, of "Suc h" l] page_offset(2) [OF hdr, of 1] nonzero
      treepage_index_run [of "Suc h" l w]
    by (simp add: n run verify_page_run [OF _ hdr] read_cell_run page_offset_1 [OF hdr] height
        page_entry_def Let_def)
qed

section \<open>The height an address needs\<close>

lemma unat_suc_le: "unat (x + 1 :: obl_uint) \<le> Suc (unat x)"
proof -
  have "unat (x + 1) = (unat x + unat (1 :: obl_uint)) mod 2 ^ LENGTH(32)"
    by (rule unat_word_ariths(1))
  then show ?thesis by (simp add: mod_less_eq_dividend)
qed

lemma unat_shifted: "unat (drop_bit 8 l) = unat l div 256" for l :: obl_uint
  by (simp only: unsigned_drop_bit_eq) (simp add: drop_bit_eq_div take_bit_nat_eq_self unat_lt32)

lemma required_height_le:
  "unat l < 256 ^ Suc h \<Longrightarrow> unat (required_height l) \<le> h"
proof (induction h arbitrary: l)
  case 0
  then have "drop_bit 8 l = 0"
    using unat_shifted [of l] by (simp flip: unat_same)
  then show ?case by (simp add: required_height.simps [of l])
next
  case (Suc h)
  then have "unat (drop_bit 8 l) < 256 ^ Suc h"
    by (simp add: unat_shifted less_mult_imp_div_less mult.commute)
  then have "unat (required_height (drop_bit 8 l)) \<le> h" by (rule Suc.IH)
  then show ?case
    using unat_suc_le [of "required_height (drop_bit 8 l)"]
    by (subst required_height.simps) (simp add: Let_def)
qed

lemma required_height_max: "unat (required_height l) \<le> 3"
  by (rule required_height_le) (use unat_lt32 [of l] in simp)

lemma required_height_iff:
  "unat (required_height l) \<le> h \<longleftrightarrow> unat l < 256 ^ Suc h"
proof
  show "unat l < 256 ^ Suc h \<Longrightarrow> unat (required_height l) \<le> h" by (rule required_height_le)
next
  have step: "unat (required_height l) = (if unat l div 256 = 0 then 0
      else Suc (unat (required_height (drop_bit 8 l))))" for l
  proof -
    have "unat (required_height (drop_bit 8 l) + 1) = unat (required_height (drop_bit 8 l)) + 1"
      using required_height_max [of "drop_bit 8 l"] by (subst unat_plus_small) simp_all
    then show ?thesis
      using unat_shifted [of l] by (subst required_height.simps) (auto simp: Let_def simp flip: unat_same)
  qed
  show "unat (required_height l) \<le> h \<Longrightarrow> unat l < 256 ^ Suc h"
  proof (induction h arbitrary: l)
    case 0
    then show ?case using step [of l] by (simp split: if_split_asm)
  next
    case (Suc h)
    then have "unat (drop_bit 8 l) < 256 ^ Suc h \<or> unat l < 256"
      using step [of l] by (auto split: if_split_asm)
    moreover have "(256 :: nat) \<le> 256 ^ Suc (Suc h)" by simp
    ultimately show ?case
      by (auto simp: unat_shifted div_less_iff_less_mult mult.commute simp del: power_Suc)
        (simp add: mult.commute)
  qed
qed


section \<open>Assigning an address\<close>

lemma address_assign_run:
  assumes "sessions w s = Some r" "ses_database r = d"
    and "databases w d = Some db" "content db = Some m"
    and "base = address_map_addr (root db)" "page_tree m h base" "h \<le> 2"
    and "unat l < 256 ^ Suc h" "has_path m h base l"
  shows "obl_address_assign k s l v w =
     Ok () (put_content d (store m (leaf_word m h base l) (writable_uint v)) w)"
proof -
  have content: "has_content w d m" using assms by (simp add: has_content_def)
  have hdr: "page_header m h base" using assms(6) by (rule page_tree_header)
  note height = height_word [OF hdr]
  have "unat (word_of_nat h :: obl_uint) = h"
    by (rule unat_of_nat_small) (use assms(7) in simp)
  then have enough: "\<not> (word_of_nat h :: obl_uint) < required_height l"
    using required_height_le [OF assms(8)] by (simp add: word_less_nat_alt)
  have "h < Suc (capacity m)" using hdr assms(7) by (simp add: page_header_def)
  then have assign: "i_assign_in k (Suc (capacity m)) s base l v w =
      Ok () (put_content d (store m (leaf_word m h base l) (writable_uint v)) w)"
    using assign_in_run [of w s r m h base "Suc (capacity m)" l k v] assms content by simp
  show ?thesis
    using assms(1-4,7) content enough page_offset(2) [OF hdr, of 1] assign
    by (simp add: obl_address_assign_def run verify_page_run [OF _ hdr] read_cell_run
        page_offset_1 [OF hdr] height page_bound_run Let_def assms(5) [symmetric]
        del: power_Suc i_assign_in.simps)
qed

text \<open>A database whose address map has one branch page with a leaf below its first entry.\<close>

definition two_level :: memory where
  "two_level = \<lparr>cells = (\<lambda>_. 0)(12 := PAGE_TAG, 13 := writable_uint 1, 14 := writable_uint 300,
                   300 := PAGE_TAG),
                capacity = 1024\<rparr>"

lemma zero_word [simp]: "readable_uint 0 = 0" "writable_uint 0 = 0"
  by (simp_all add: readable_uint_def writable_uint_def ntohl_def htonl_def)

lemma PAGE_TAG_nonzero [simp]: "PAGE_TAG \<noteq> 0" "0 \<noteq> PAGE_TAG"
proof -
  have "readable_uint PAGE_TAG \<noteq> readable_uint 0"
    by (simp add: PAGE_TAG_def uint_codec.rd_wr fixed_addr_def OBL_FIXED_ADDR_MIN_def
        OBL_FIXED_SIZE_def OBL_ADDRESS_MAX_def OBL_UINT_MAX_def)
  then show "PAGE_TAG \<noteq> 0" "0 \<noteq> PAGE_TAG" by auto
qed

lemma two_level_entry: "i < 256 \<Longrightarrow> page_entry two_level 12 i = (if i = 0 then 300 else 0)"
  by (simp add: page_entry_def two_level_def uint_codec.rd_wr)

lemma two_level_tree: "page_tree two_level 1 12" "separated two_level 1 12"
  by (auto simp: two_level_entry page_header_def page_words_def numeral_2_eq_2 [symmetric])
    (simp_all add: two_level_def)

section \<open>Properties\<close>

text \<open>
  C23: A lookup in a well-formed address map of height at most 2 returns what the page tree holds for
  the address, or nothing when the address has more digits than the tree has levels. It ends, and it
  changes nothing.
\<close>

theorem address_lookup_correct:
  assumes "databases w d = Some db" "content db = Some m"
    and "page_tree m h (address_map_addr (root db))" "h \<le> 2"
  shows "obl_address_lookup d l w =
     Ok (if unat l < 256 ^ Suc h then tree_map m h (address_map_addr (root db)) l else 0) w"
  using assms by (intro address_lookup_run) (auto simp: has_content_def)

lemma address_lookup_correct_witness:
  "obl_address_lookup 20 70000 (database_world two_level) = Ok 0 (database_world two_level)"
  using address_lookup_correct [of "database_world two_level" 20 "plain_database two_level"
      two_level 1 70000] two_level_tree(1)
  by (simp add: database_world_def plain_database_def)

text \<open>
  C24: Assigning a physical address along an existing path of pages changes one word of the content.
  Afterwards the map is well-formed and its pages are still apart, the address is found with its new
  value, and every other address is found with the value it had.
\<close>

theorem address_assign_then_lookup:
  assumes "sessions w s = Some r" "ses_database r = d"
    and "databases w d = Some db" "content db = Some m"
    and "base = address_map_addr (root db)" "page_tree m h base" "separated m h base" "h \<le> 2"
    and "unat l < 256 ^ Suc h" "has_path m h base l"
  shows "\<exists>m'. obl_address_assign k s l v w = Ok () (put_content d m' w) \<and>
     page_tree m' h base \<and> separated m' h base \<and> has_path m' h base l \<and>
     (\<forall>l'. obl_address_lookup d l' (put_content d m' w) =
        Ok (if l' = l then v
            else if unat l' < 256 ^ Suc h then tree_map m h base l' else 0) (put_content d m' w))"
proof -
  define m' where "m' = store m (leaf_word m h base l) (writable_uint v)"
  note stored = store_leaf [OF assms(6,7,10) m'_def]
  have assign: "obl_address_assign k s l v w = Ok () (put_content d m' w)"
    using address_assign_run [OF assms(1-6) _ assms(9,10)] assms(8) by (simp add: m'_def)
  have lookup: "obl_address_lookup d l' (put_content d m' w) =
        Ok (if l' = l then v
            else if unat l' < 256 ^ Suc h then tree_map m h base l' else 0) (put_content d m' w)" for l'
  proof -
    have "obl_address_lookup d l' (put_content d m' w) =
        Ok (if unat l' < 256 ^ Suc h then tree_map m' h base l' else 0) (put_content d m' w)"
      using address_lookup_run [of "put_content d m' w" d m' "db\<lparr>content := Some m'\<rparr>" h l']
        stored assms by (simp add: put_content_def has_content_def)
    moreover have "(\<forall>j\<le>h. digit j l' = digit j l) \<longleftrightarrow> l' = l" if "unat l' < 256 ^ Suc h"
      using digits_determine [of "Suc h" l' l] assms(9) that by (auto simp: less_Suc_eq_le)
    ultimately show ?thesis using stored assms(9) by auto
  qed
  show ?thesis using stored assign lookup by blast
qed

lemma address_assign_then_lookup_witness:
  "\<exists>m'. obl_address_assign (knot 0) 21 7 55 (session_world two_level)
       = Ok () (put_content 20 m' (session_world two_level)) \<and>
     obl_address_lookup 20 7 (put_content 20 m' (session_world two_level))
       = Ok 55 (put_content 20 m' (session_world two_level))"
proof -
  have "digit 0 7 = 7" "digit (Suc 0) 7 = 0" by (simp_all add: digit_def)
  then have "has_path two_level 1 12 7"
    by (simp add: two_level_entry)
  note path = this
  have "sessions (session_world two_level) 21 = Some (session_at 20)"
    "ses_database (session_at 20) = 20"
    "databases (session_world two_level) 20 = Some (plain_database two_level)"
    "content (plain_database two_level) = Some two_level"
    "12 = address_map_addr (root (plain_database two_level))"
    by (simp_all add: session_world_def session_at_def database_world_def plain_database_def)
  note assign = address_assign_then_lookup [OF this two_level_tree _ _ path, of "knot 0" 55]
  obtain m' where "obl_address_assign (knot 0) 21 7 55 (session_world two_level)
       = Ok () (put_content 20 m' (session_world two_level))"
    "\<forall>l'. obl_address_lookup 20 l' (put_content 20 m' (session_world two_level)) =
       Ok (if l' = 7 then 55
           else if unat l' < 256 ^ Suc 1 then tree_map two_level 1 12 l' else 0)
         (put_content 20 m' (session_world two_level))"
    using assign by (elim exE conjE meta_impE) simp_all
  then show ?thesis by (intro exI [of _ m']) simp
qed

text \<open>
  C32: The height that an assignment asks for is the least one whose pages cover the address: at most
  \<open>h\<close> exactly for the addresses below \<open>256 ^ (h + 1)\<close>, and never more than 3.
\<close>

theorem required_height_correct:
  "(unat (required_height l) \<le> h \<longleftrightarrow> unat l < 256 ^ Suc h) \<and> unat (required_height l) \<le> 3"
  using required_height_iff required_height_max by blast

text \<open>
  C33: A lookup in an address map of height 3, which the addresses from \<open>2 ^ 24\<close> on ask for, shifts
  by the width of its operand, and the index into a page of that height shifts 255 out of the range
  of a signed integer: the behaviour of the C code is not defined.
\<close>

theorem lookup_height_3_undefined:
  assumes "databases w d = Some db" "content db = Some m"
    and "page_header m 3 (address_map_addr (root db))"
  shows "obl_address_lookup d l w = Fault UndefinedShift \<and>
     i_treepage_index l 3 w = Fault UndefinedShift"
proof -
  have "i_treepage_index l 3 w = Fault UndefinedShift"
    by (simp add: i_treepage_index_def shift_left_def PAGE_SHIFT_def CHUNK_SIZE_def
        CHUNK_SIZE_LOG2_def bindM_run failM_run Let_def)
  moreover have "has_content w d m" using assms by (simp add: has_content_def)
  ultimately show ?thesis
    using assms page_offset(2) [OF assms(3), of 1]
    by (simp add: obl_address_lookup_def run verify_page_run [OF _ assms(3)] read_cell_run
        page_offset_1 [OF assms(3)] height_word [OF assms(3)] shift_left_def Let_def)
qed

lemma lookup_height_3_undefined_witness:
  "obl_address_lookup 20 1
     (database_world \<lparr>cells = (\<lambda>_. 0)(12 := PAGE_TAG, 13 := writable_uint 3), capacity = 1024\<rparr>)
   = Fault UndefinedShift"
  by (rule conjunct1 [OF lookup_height_3_undefined [where m = "\<lparr>cells = (\<lambda>_. 0)(12 := PAGE_TAG,
        13 := writable_uint 3), capacity = 1024\<rparr>"
      and db = "plain_database \<lparr>cells = (\<lambda>_. 0)(12 := PAGE_TAG,
        13 := writable_uint 3), capacity = 1024\<rparr>"]])
    (simp_all add: database_world_def plain_database_def page_header_def)

text \<open>
  C34: When the word at the root of the address map is not the tag of a page, a lookup reports
  \<open>OBL_WRONG_STORAGE\<close> in the database and finds no address.
\<close>

theorem lookup_corrupted_map:
  assumes "d \<noteq> NULL" "databases w d = Some db" "content db = Some m"
    and "unat (address_map_addr (root db)) < capacity m"
    and "cells m (unat (address_map_addr (root db))) \<noteq> PAGE_TAG"
  shows "\<exists>w'. obl_address_lookup d l w = Ok OBL_PHYSICAL_UNASSIGNED w' \<and>
     map_option error_code (databases w' d) = Some OBL_WRONG_STORAGE \<and>
     has_content w' d m \<and> heap w' = heap w \<and> sessions w' = sessions w"
proof -
  have content: "has_content w d m" using assms by (simp add: has_content_def)
  obtain w' where w': "obl_report_error d OBL_WRONG_STORAGE
        (Some (Text ''The address map is corrupted.'')) w = Ok () w'"
    "only_log (w\<lparr>databases := (databases w)(d \<mapsto> db\<lparr>error_message :=
        Some (Text ''The address map is corrupted.''), error_code := OBL_WRONG_STORAGE\<rparr>)\<rparr>) w'"
    using obl_report_error_run [OF assms(1,2), of OBL_WRONG_STORAGE
        "Some (Text ''The address map is corrupted.'')"] by auto
  have "readable_uint (cells m (unat (address_map_addr (root db)))) \<noteq>
      fixed_addr OBL_ADDRTREEPAGE_SHAPE_ADDR"
    using assms(5) by (auto simp: PAGE_TAG_def uint_codec.rd_eq_iff)
  then have "obl_address_lookup d l w = Ok OBL_PHYSICAL_UNASSIGNED w'"
    using assms content w'(1)
    by (simp add: obl_address_lookup_def i_verify_addrtreepage_def run read_cell_run Let_def)
  with only_log_frame [OF w'(2)] assms(3) show ?thesis
    by (simp add: has_content_def)
qed

lemma lookup_corrupted_map_witness:
  "\<exists>w'. obl_address_lookup 20 1 (database_world \<lparr>cells = (\<lambda>_. 0), capacity = 64\<rparr>)
     = Ok OBL_PHYSICAL_UNASSIGNED w'"
  using lookup_corrupted_map [of 20 "database_world \<lparr>cells = (\<lambda>_. 0), capacity = 64\<rparr>"
      "plain_database \<lparr>cells = (\<lambda>_. 0), capacity = 64\<rparr>" "\<lparr>cells = (\<lambda>_. 0), capacity = 64\<rparr>" 1]
  by (auto simp: database_world_def plain_database_def)

end
