(* ===== verification/SessionFacts.thy ===== *)
theory SessionFacts
  imports ValueFacts AddressMapFacts
begin

text \<open>
  Sessions: access by address through the read set, the list of sessions, refused transactions, and
  aborting.
\<close>

section \<open>Loading into the read set\<close>

text \<open>A session nobody waits for, with a valid read set that is keyed by addresses.\<close>

definition open_session :: "world \<Rightarrow> ptr \<Rightarrow> obl_session \<Rightarrow> obl_set \<Rightarrow> bool" where
  "open_session w s r rs \<longleftrightarrow>
     s \<noteq> NULL \<and> sessions w s = Some r \<and> 0 < session_mutex r \<and> read_set r = Some rs \<and>
     set_keyfunction rs = logical_address_keyfunction \<and> rb_valid (set_root rs)"

text \<open>An object that is not a stub in the read set is returned as it is.\<close>

lemma at_address_cached:
  assumes "fixed_ok w" "open_session w s r rs" "\<not> IS_FIXED_ADDR l"
    and "lookup_r (set_root rs) (unat l) = Some q" "q \<noteq> NULL"
    and "heap w q = Some x" "obj_shape x = fixed_ptr w a" "fixed_format a = Some t" "t \<noteq> OBL_STUB"
  shows "i_obl_at_address_depth k s l depth True w = Ok q w"
proof -
  have "storage_type_of (storage_code t) = t"
    using assms(8) by (subst storage_type_of_code) (cases a; auto)
  then have stub: "i_obl_is_stub q w' = Ok False w'"
    if "heap w' = heap w" "fixed_space w' = fixed_space w" for w'
  proof -
    have same: "same_fixed w w'" using that by (simp add: same_fixed_def)
    have "shape_at w' (fixed_ptr w a) (storage_code t)"
      by (rule shape_at_same [OF assms(1) same assms(8)])
    moreover have "fixed_ptr w a \<noteq> nil_ptr w'"
      using fixed_okD(4) [OF assms(1,8)] same_fixed_ptr [OF same] by simp
    ultimately show ?thesis
      using assms(6,7,9) that(1) \<open>storage_type_of (storage_code t) = t\<close>
      by (simp add: i_obl_is_stub_def bindM_run get_run constants_run obl_shape_storagetype_run retM_run)
  qed
  have "(sessions w)(s \<mapsto> r) = sessions w"
    using assms(2) by (simp add: open_session_def fun_upd_idem)
  then show ?thesis
    using assms(2-5)
    by (simp add: open_session_def i_obl_at_address_depth_def wait_session_mutex_def
        post_session_mutex_def obl_set_lookup_def bindM_run thenM_run whenM_run get_run update_run
        the_set_run retM_run stub Let_def)
qed

text \<open>
  Loading an object that the read set does not hold, given what reading it does; \<open>is_top\<close> says whether
  the semaphore of the session is taken here or already held.
\<close>

definition waiting :: "bool \<Rightarrow> obl_session \<Rightarrow> obl_session" where
  "waiting is_top r = (if is_top then r\<lparr>session_mutex := session_mutex r - 1\<rparr> else r)"

definition posted :: "bool \<Rightarrow> obl_session \<Rightarrow> obl_session" where
  "posted is_top r = (if is_top then r\<lparr>session_mutex := session_mutex r + 1\<rparr> else r)"

definition readable_set :: "obl_session \<Rightarrow> obl_set \<Rightarrow> bool" where
  "readable_set r rs \<longleftrightarrow> read_set r = Some rs \<and> set_keyfunction rs = logical_address_keyfunction \<and>
     rb_valid (set_root rs)"

definition with_entry :: "obl_set \<Rightarrow> obl_logical_address \<Rightarrow> ptr \<Rightarrow> obl_set" where
  "with_entry rs l q = rs\<lparr>set_root := fst (set_insert (set_root rs) (unat l) q)\<rparr>"

lemma readable_entry:
  assumes "readable_set r rs"
  shows "readable_set (r\<lparr>read_set := Some (with_entry rs l q)\<rparr>) (with_entry rs l q)"
    and "lookup_r (set_root (with_entry rs l q)) j = (if j = unat l then Some q else lookup_r (set_root rs) j)"
  using assms rb_valid_set_insert [of "set_root rs"] lookup_set_insert [of "set_root rs"]
  by (auto simp: readable_set_def with_entry_def rb_valid_def [of "set_root rs"])

lemma at_address_reads:
  assumes "sessions w s = Some r" "readable_set r rs" "\<not> IS_FIXED_ADDR l" "0 < depth"
    and "lookup_r (set_root rs) (unat l) = None" "is_top \<Longrightarrow> 0 < session_mutex r"
    and "w1 = w\<lparr>sessions := (sessions w)(s \<mapsto> waiting is_top r)\<rparr>"
    and "obl_address_lookup (ses_database r) l w1 = Ok b w1" "b \<noteq> OBL_PHYSICAL_UNASSIGNED"
    and "obl_read_object k s (ses_database r) b depth w1 = Ok q w2" "heap w2 q = Some x"
    and "sessions w2 s = Some r2" "readable_set r2 rs2" "lookup_r (set_root rs2) (unat l) = None"
    and "malloc_budget w2 = None"
  shows "i_obl_at_address_depth k s l depth is_top w = Ok q
     (put_object q (x\<lparr>logical_address := l, obj_session := s\<rparr>) w2
        \<lparr>sessions := (sessions w2)(s \<mapsto> posted is_top (r2\<lparr>read_set := Some (with_entry rs2 l q)\<rparr>))\<rparr>)"
proof -
  let ?x = "x\<lparr>logical_address := l, obj_session := s\<rparr>"
  have ins: "obl_set_insert rs2 q (put_object q ?x w2) = Ok (with_entry rs2 l q) (put_object q ?x w2)"
    using set_insert_same_run [of "put_object q ?x w2" q ?x rs2] assms(13-15)
    by (simp add: readable_set_def with_entry_def)
  show ?thesis
  proof (cases is_top)
    case True
    then show ?thesis
      using assms ins
      by (simp add: i_obl_at_address_depth_def waiting_def posted_def readable_set_def
          wait_session_mutex_def post_session_mutex_def obl_set_lookup_def bindM_run thenM_run whenM_run
          get_run update_run put_object_def the_set_run retM_run Let_def)
  next
    case False
    have "w1 = w" using False assms(1,7) by (simp add: waiting_def fun_upd_idem)
    with False show ?thesis
      using assms ins
      by (simp add: i_obl_at_address_depth_def posted_def readable_set_def obl_set_lookup_def bindM_run
          thenM_run whenM_run get_run update_run put_object_def the_set_run retM_run Let_def)
  qed
qed

text \<open>An object that is not there yet is read, given its address and session, and remembered.\<close>

definition remember :: "ptr \<Rightarrow> obl_session \<Rightarrow> obl_set \<Rightarrow> obl_logical_address \<Rightarrow> ptr \<Rightarrow> world \<Rightarrow> world" where
  "remember s r rs l q w = w\<lparr>sessions := (sessions w)(s \<mapsto> r\<lparr>read_set :=
     Some (rs\<lparr>set_root := fst (set_insert (set_root rs) (unat l) q)\<rparr>)\<rparr>)\<rparr>"

lemma at_address_load:
  assumes "fixed_ok w" "fresh w" "malloc_budget w = None" "open_session w s r rs" "\<not> IS_FIXED_ADDR l"
    and "lookup_r (set_root rs) (unat l) = None" "0 < depth"
    and "has_content w (ses_database r) m" "databases w (ses_database r) = Some db"
    and "page_tree m h (address_map_addr (root db))" "h \<le> 2" "unat l < 256 ^ Suc h"
    and "tree_map m h (address_map_addr (root db)) l = b" "b \<noteq> OBL_PHYSICAL_UNASSIGNED"
    and "leaf a st" "cells m (unat b) = writable_logical (fixed_addr a)" "encodes m (unat b) st"
    and "unat b + leaf_size st \<le> capacity m" "capacity m < 2 ^ 31"
  shows "i_obl_at_address_depth (knot (Suc n)) s l depth True w = Ok (next_ptr w)
     (remember s r rs l (next_ptr w)
       (add_object ((plain_object (fixed_ptr w a) (trimmed st))\<lparr>obj_session := s, logical_address := l,
          physical_address := b\<rparr>) w))"
proof -
  let ?d = "ses_database r"
  let ?w1 = "w\<lparr>sessions := (sessions w)(s \<mapsto> waiting True r)\<rparr>"
  let ?x = "(plain_object (fixed_ptr w a) (trimmed st))\<lparr>physical_address := b\<rparr>"
  have r: "sessions w s = Some r" "0 < session_mutex r" "s \<noteq> NULL" and set: "readable_set r rs"
    using assms(4) by (simp_all add: open_session_def readable_set_def)
  have ok1: "fixed_ok ?w1" "fresh ?w1" "malloc_budget ?w1 = None"
    using assms(1-3) fixed_ok_same [OF assms(1), of ?w1] by (simp_all add: same_fixed_def fresh_def)
  have content: "has_content ?w1 ?d m" using assms(8) by (simp add: has_content_def)
  have look: "obl_address_lookup ?d l ?w1 = Ok b ?w1"
    using address_lookup_run [OF content _ assms(10,11), of l] assms(9,12,13) by simp
  have "obl_read_object (knot (Suc n)) s ?d b depth ?w1 =
      Ok (next_ptr ?w1) (add_object ((plain_object (fixed_ptr ?w1 a) (trimmed st))\<lparr>physical_address := b\<rparr>) ?w1)"
    by (rule read_leaf [OF ok1 _ assms(15) content assms(16-19)]) simp
  then have read: "obl_read_object (knot (Suc n)) s ?d b depth ?w1 = Ok (next_ptr w) (add_object ?x ?w1)"
    by simp
  have set1: "readable_set (waiting True r) rs" using set by (simp add: readable_set_def waiting_def)
  have "posted True ((waiting True r)\<lparr>read_set := Some (with_entry rs l q)\<rparr>) =
      r\<lparr>read_set := Some (with_entry rs l q)\<rparr>" for q
    using r(2) by (cases r) (simp add: posted_def waiting_def)
  with at_address_reads [OF r(1) set assms(5,7,6) r(2) refl look assms(14) read _ _ set1 assms(6)] assms(3)
  have "i_obl_at_address_depth (knot (Suc n)) s l depth True w = Ok (next_ptr w)
     (put_object (next_ptr w) (?x\<lparr>logical_address := l, obj_session := s\<rparr>) (add_object ?x ?w1)
        \<lparr>sessions := (sessions w)(s \<mapsto> r\<lparr>read_set := Some (with_entry rs l (next_ptr w))\<rparr>)\<rparr>)"
    by simp
  then show ?thesis
    by (cases w) (simp add: remember_def with_entry_def add_object_def put_object_def plain_object_def)
qed

section \<open>The session list\<close>

lemma session_list_scan_skip: "s \<notin> set ys \<Longrightarrow> session_list_scan l ys s = l"
  by (induction ys) auto

lemma session_list_scan_hit:
  "s \<notin> set ys \<Longrightarrow> session_list_scan l (xs @ s # ys) s = ys"
  by (induction xs arbitrary: l) (auto simp: session_list_scan_skip)

section \<open>An example process\<close>

text \<open>
  A database whose address map is one leaf at 12 that sends the address 7 to 300, where an integer is
  stored; and its process, in which an idle session is open.
\<close>

definition stored_integer :: memory where
  "stored_integer = \<lparr>cells = (\<lambda>_. 0)(12 := PAGE_TAG, 21 := writable_uint 300,
     300 := writable_logical (fixed_addr OBL_INTEGER_SHAPE_ADDR), 301 := writable_int 42),
     capacity = 1024\<rparr>"

lemma stored_integer:
  "page_tree stored_integer 0 12" "tree_map stored_integer 0 12 7 = 300"
  "cells stored_integer 300 = writable_logical (fixed_addr OBL_INTEGER_SHAPE_ADDR)"
  "encodes stored_integer 300 (Integer_storage \<lparr>integer_value = 42\<rparr>)"
  "capacity stored_integer = 1024"
proof -
  have zero: "writable_uint 0 = 0"
    by (simp add: writable_uint_def htonl_def)
  show "page_tree stored_integer 0 12"
    by (simp add: page_header_def stored_integer_def zero)
  show "tree_map stored_integer 0 12 7 = 300"
    by (simp add: page_entry_def stored_integer_def digit_def uint_codec.rd_wr)
qed (simp_all add: stored_integer_def)

section \<open>Properties\<close>

text \<open>
  C12: Loading the object at a logical address that the read set does not hold yet reads it from where
  the address map puts it, gives it that address and the session, and remembers it: a second access
  to the address returns the same object and changes nothing.
\<close>

theorem at_address_loads_once:
  assumes "world_ok w" "malloc_budget w = None" "open_session w s r rs" "\<not> IS_FIXED_ADDR l"
    and "lookup_r (set_root rs) (unat l) = None" "0 < depth"
    and "databases w (ses_database r) = Some db" "content db = Some m"
    and "page_tree m h (address_map_addr (root db))" "h \<le> 2" "unat l < 256 ^ Suc h"
    and "tree_map m h (address_map_addr (root db)) l = b" "b \<noteq> OBL_PHYSICAL_UNASSIGNED"
    and "leaf a st" "cells m (unat b) = writable_logical (fixed_addr a)" "encodes m (unat b) st"
    and "unat b + leaf_size st \<le> capacity m" "capacity m < 2 ^ 31"
  shows "\<exists>w'. obl_at_address_depth (knot (Suc (Suc n))) s l depth w = Ok (next_ptr w) w' \<and>
     heap w' = (heap w)(next_ptr w \<mapsto> \<lparr>obj_session = s, logical_address = l, physical_address = b,
       obj_shape = fixed_ptr w a, obj_storage = trimmed st\<rparr>) \<and> world_ok w' \<and>
     (\<forall>depth'. obl_at_address_depth (knot (Suc (Suc n))) s l depth' w' = Ok (next_ptr w) w')"
proof -
  have ok: "fixed_ok w" "fresh w" using assms(1) by (simp_all add: world_ok_def)
  have content: "has_content w (ses_database r) m" using assms(7,8) by (simp add: has_content_def)
  let ?q = "next_ptr w"
  let ?x = "(plain_object (fixed_ptr w a) (trimmed st))\<lparr>obj_session := s, logical_address := l, physical_address := b\<rparr>"
  let ?w' = "remember s r rs l ?q (add_object ?x w)"
  let ?r = "r\<lparr>read_set := Some (rs\<lparr>set_root := fst (set_insert (set_root rs) (unat l) ?q)\<rparr>)\<rparr>"
  let ?rs = "rs\<lparr>set_root := fst (set_insert (set_root rs) (unat l) ?q)\<rparr>"
  have load: "obl_at_address_depth (knot (Suc (Suc n))) s l depth w = Ok ?q ?w'"
    using at_address_load [OF ok assms(2-6) content assms(7,9-18), of n]
    by (simp add: obl_at_address_depth_def knot.simps(2))
  have ok': "world_ok ?w'"
    using world_ok_add(1) [OF assms(1)] by (simp add: remember_def)
  have "open_session ?w' s ?r ?rs"
    using assms(3) by (auto simp: open_session_def remember_def rb_valid_set_insert)
  moreover have "lookup_r (set_root ?rs) (unat l) = Some ?q"
    using assms(3) by (simp add: open_session_def lookup_set_insert rb_valid_def)
  moreover obtain t where "fixed_format a = Some t" "t \<noteq> OBL_STUB"
    using assms(14) by (cases "(a, st)" rule: leaf.cases) auto
  moreover have "heap ?w' ?q = Some ?x" "obj_shape ?x = fixed_ptr ?w' a" "?q \<noteq> NULL"
    using ok(2) [unfolded fresh_def] by (simp_all add: remember_def fixed_ptr_def)
  ultimately have "obl_at_address_depth (knot (Suc (Suc n))) s l depth' ?w' = Ok ?q ?w'" for depth'
    using ok' assms(4) at_address_cached [of ?w' s ?r ?rs l ?q ?x a t]
    by (simp add: obl_at_address_depth_def knot.simps(2) world_ok_def)
  moreover have "heap ?w' = (heap w)(?q \<mapsto> \<lparr>obj_session = s, logical_address = l, physical_address = b,
       obj_shape = fixed_ptr w a, obj_storage = trimmed st\<rparr>)"
    by (simp add: remember_def add_object_def plain_object_def)
  ultimately show ?thesis using load ok' by blast
qed

lemma at_address_loads_once_witness:
  "\<exists>q w'. obl_at_address_depth (knot 2) 21 7 4 (example_world stored_integer) = Ok q w' \<and>
     map_option obj_storage (heap w' q) = Some (Integer_storage \<lparr>integer_value = 42\<rparr>) \<and>
     obl_at_address_depth (knot 2) 21 7 4 w' = Ok q w'"
proof -
  let ?w = "example_world stored_integer"
  have "\<exists>w'. obl_at_address_depth (knot (Suc (Suc 0))) 21 7 4 ?w = Ok (next_ptr ?w) w' \<and>
     heap w' = (heap ?w)(next_ptr ?w \<mapsto> \<lparr>obj_session = 21, logical_address = 7, physical_address = 300,
       obj_shape = fixed_ptr ?w OBL_INTEGER_SHAPE_ADDR,
       obj_storage = Integer_storage \<lparr>integer_value = 42\<rparr>\<rparr>) \<and> world_ok w' \<and>
     (\<forall>depth'. obl_at_address_depth (knot (Suc (Suc 0))) 21 7 depth' w' = Ok (next_ptr ?w) w')"
    by (rule at_address_loads_once [where r = "session_at 20" and db = "plain_database stored_integer"
          and m = stored_integer and h = 0 and rs = empty_set
          and st = "Integer_storage \<lparr>integer_value = 42\<rparr>", unfolded trimmed.simps])
      (use stored_integer in \<open>simp_all add: plain_database_def open_session_def session_at_def
          empty_set_def rb_valid_def IS_FIXED_ADDR_def OBL_FIXED_ADDR_MIN_def OBL_ADDRESS_MAX_def
          OBL_UINT_MAX_def OBL_FIXED_SIZE_def\<close>)
  then obtain w' where "obl_at_address_depth (knot 2) 21 7 4 ?w = Ok (next_ptr ?w) w'"
    "map_option obj_storage (heap w' (next_ptr ?w)) = Some (Integer_storage \<lparr>integer_value = 42\<rparr>)"
    "obl_at_address_depth (knot 2) 21 7 4 w' = Ok (next_ptr ?w) w'"
    by (auto simp: numeral_2_eq_2)
  then show ?thesis by blast
qed

text \<open>
  C30: Beginning a transaction on a session that has one reports the error and returns a null pointer,
  and ensuring one returns the current one. Both leave the sessions and transactions as they are.
\<close>

theorem one_transaction_at_a_time:
  assumes "sessions w s = Some r" "s \<noteq> NULL" "0 < session_mutex r" "current_transaction r \<noteq> NULL"
    and "ses_database r \<noteq> NULL" "databases w (ses_database r) = Some db"
  shows "\<exists>w'. obl_begin_transaction s w = Ok NULL w' \<and>
     map_option error_code (databases w' (ses_database r)) = Some OBL_ALREADY_IN_TRANSACTION \<and>
     sessions w' = sessions w \<and> transactions w' = transactions w \<and> heap w' = heap w \<and>
     obl_ensure_transaction s c w = Ok (current_transaction r, False) w"
proof -
  let ?w1 = "w\<lparr>sessions := (sessions w)(s \<mapsto> r\<lparr>session_mutex := session_mutex r - Suc 0\<rparr>)\<rparr>"
  have "databases ?w1 (ses_database r) = Some db" using assms(6) by simp
  from obl_report_error_run [OF assms(5) this, of OBL_ALREADY_IN_TRANSACTION None]
  obtain w2 where w2: "obl_report_error (ses_database r) OBL_ALREADY_IN_TRANSACTION None ?w1 = Ok () w2"
    "only_log (?w1\<lparr>databases := (databases ?w1)(ses_database r \<mapsto> db\<lparr>error_message :=
        Some (Text (error_messages OBL_ALREADY_IN_TRANSACTION)),
        error_code := OBL_ALREADY_IN_TRANSACTION\<rparr>)\<rparr>) w2" by auto
  note frame = only_log_frame [OF w2(2)]
  have unheld: "(sessions w)(s \<mapsto> r) = sessions w" using assms(1) by (simp add: fun_upd_idem)
  have "obl_begin_transaction s w = Ok NULL (w2\<lparr>sessions := sessions w\<rparr>)"
    using assms w2(1) frame unheld
    by (simp add: obl_begin_transaction_def i_allocate_transaction_def wait_session_mutex_def
        post_session_mutex_def bindM_run thenM_run get_run update_run retM_run)
  moreover have "obl_ensure_transaction s c w = Ok (current_transaction r, False) w"
    using assms unheld
    by (simp add: obl_ensure_transaction_def wait_session_mutex_def post_session_mutex_def run)
  ultimately show ?thesis using frame by simp
qed

lemma one_transaction_at_a_time_witness:
  "\<exists>w'. obl_begin_transaction 21 transaction_world = Ok NULL w' \<and>
     obl_ensure_transaction 21 True transaction_world = Ok (22, False) transaction_world"
  using one_transaction_at_a_time [of transaction_world 21 "(session_at 20)\<lparr>current_transaction := 22\<rparr>"
      "plain_database \<lparr>cells = (\<lambda>_. 0), capacity = 64\<rparr>" True] transaction_world(3,5)
  by (auto simp: in_transaction_def session_at_def)

text \<open>
  C22: Removing a session from the list of its database also drops every session in front of it, that
  is every session created later; a session that is not in the list leaves it unchanged.
\<close>

theorem session_list_remove_drops:
  "obl_session_list_remove (xs @ s # filter (\<lambda>e. e \<noteq> s) ys) s = filter (\<lambda>e. e \<noteq> s) ys \<and>
   obl_session_list_remove (filter (\<lambda>e. e \<noteq> s) ys) s = filter (\<lambda>e. e \<noteq> s) ys"
  by (simp add: obl_session_list_remove_def session_list_scan_hit session_list_scan_skip)

text \<open>
  C16: Aborting a transaction ends it when nothing has been changed in it. When its write set holds an
  object the abort never returns: it waits for the session's semaphore, which it holds itself.
\<close>

theorem abort_outcome:
  assumes "in_transaction w s r t tx ws" "session_mutex r = 1"
    and "databases w (ses_database r) = Some db" "0 < content_mutex db"
    and "\<And>p. p \<in> set (map snd (entries (set_root ws))) \<Longrightarrow>
       \<exists>x. heap w p = Some x \<and> obj_session x = s"
  shows "if set_root ws = Tip
     then obl_abort_transaction k t w = Ok () (w\<lparr>sessions := (sessions w)
       (s \<mapsto> r\<lparr>current_transaction := NULL\<rparr>), transactions := (transactions w)(t := None)\<rparr>)
     else obl_abort_transaction k t w = Fault Blocked"
proof (cases "set_root ws")
  case Tip
  show ?thesis
    using assms(1,2) Tip
    by (cases r) (simp add: destroy_set_Tip in_transaction_def obl_abort_transaction_def wait_session_mutex_def
        post_session_mutex_def destroy_set_with_def i_deallocate_transaction_def free_transaction_def
        bindM_run thenM_run get_run update_run the_set_run retM_run modifyM_run Let_def)
next
  case (Node c l key p right)
  let ?w1 = "w\<lparr>sessions := (sessions w)(s \<mapsto> r\<lparr>session_mutex := 0\<rparr>)\<rparr>"
  have objects: "obl_destroy_set freed_blocks_kept (set_root ws) = Inr (p # preorder l @ preorder right)"
    using destroy_set_preorder [of "set_root ws"] Node by (simp add: freed_blocks_kept_def)
  obtain x where x: "heap w p = Some x" "obj_session x = s" using assms(5) [of p] Node by auto
  have "obl_refresh_object k p ?w1 = Fault Blocked"
    using assms(1,3,4) x
    by (simp add: obl_refresh_object_def wait_content_mutex_def wait_session_mutex_def bindM_run
        thenM_run get_run update_run failM_run Let_def)
  then show ?thesis
    using assms(1,2) Node objects
    by (simp add: in_transaction_def obl_abort_transaction_def wait_session_mutex_def
        destroy_set_with_def bindM_run thenM_run get_run update_run the_set_run Let_def)
qed


text \<open>The same transaction after the integer has been marked as changed.\<close>

definition dirty_world :: world where
  "dirty_world = marked (next_ptr started_world) (integer_object transaction_world) 22
     \<lparr>tx_session = 21, write_set = Some empty_set\<rparr> empty_set transaction_world"

lemma abort_outcome_witness:
  "obl_abort_transaction (knot 0) 22 dirty_world = Fault Blocked"
proof -
  let ?p = "next_ptr started_world"
  let ?ws = "empty_set\<lparr>set_root := fst (set_insert (set_root empty_set)
     (unat (logical_address (integer_object transaction_world))) ?p)\<rparr>"
  have root: "set_root ?ws = Node BLACK Tip 7 ?p Tip"
    by (simp add: empty_set_def set_insert_def)
  have "in_transaction dirty_world 21 ((session_at 20)\<lparr>current_transaction := 22\<rparr>) 22
     \<lparr>tx_session = 21, write_set = Some ?ws\<rparr> ?ws"
    using in_transaction_marked [OF transaction_world(3), of ?p "integer_object transaction_world"]
    by (simp add: dirty_world_def)
  note abort = abort_outcome [OF this, of "plain_database \<lparr>cells = (\<lambda>_. 0), capacity = 64\<rparr>" "knot 0"]
  have "if set_root ?ws = Tip
     then obl_abort_transaction (knot 0) 22 dirty_world = Ok () (dirty_world\<lparr>sessions := (sessions dirty_world)
       (21 \<mapsto> (session_at 20)\<lparr>current_transaction := 22\<rparr>\<lparr>current_transaction := NULL\<rparr>),
       transactions := (transactions dirty_world)(22 := None)\<rparr>)
     else obl_abort_transaction (knot 0) 22 dirty_world = Fault Blocked"
    by (rule abort) (use transaction_world(4,5) root in
        \<open>simp_all add: session_at_def plain_database_def dirty_world_def\<close>)
  with root show ?thesis by simp
qed

end
