(* ===== verification/CommitFacts.thy ===== *)
theory CommitFacts
  imports SessionFacts
begin

text \<open>
  Committing: a commit writes every object of the write set and ends the transaction, when the objects
  are integers, strings or pages that have their addresses.
\<close>

section \<open>Objects that have their place in the database\<close>

definition persistent :: "world \<Rightarrow> ptr \<Rightarrow> nat \<Rightarrow> ptr \<Rightarrow> bool" where
  "persistent w s n p \<longleftrightarrow> (\<exists>x a. heap w p = Some x \<and> obj_session x = s \<and>
     logical_address x \<noteq> OBL_LOGICAL_UNASSIGNED \<and> physical_address x \<noteq> OBL_PHYSICAL_UNASSIGNED \<and>
     obj_shape x = fixed_ptr w a \<and> leaf a (obj_storage x) \<and>
     unat (physical_address x) + leaf_size (obj_storage x) \<le> n)"

text \<open>The words of an object, and that a memory holds it.\<close>

definition object_words :: "world \<Rightarrow> ptr \<Rightarrow> nat set" where
  "object_words w p = (case heap w p of None \<Rightarrow> {}
     | Some x \<Rightarrow> {unat (physical_address x)..<unat (physical_address x) + leaf_size (obj_storage x)})"

definition holds_object :: "memory \<Rightarrow> world \<Rightarrow> ptr \<Rightarrow> bool" where
  "holds_object m w p \<longleftrightarrow> (\<exists>x a. heap w p = Some x \<and> obj_shape x = fixed_ptr w a \<and>
     cells m (unat (physical_address x)) = writable_logical (fixed_addr a) \<and>
     encodes m (unat (physical_address x)) (obj_storage x))"

lemma encodes_cong:
  assumes "\<And>j. b \<le> j \<Longrightarrow> j < b + leaf_size st \<Longrightarrow> cells m' j = cells m j"
  shows "encodes m b st \<Longrightarrow> encodes m' b st"
proof (cases st)
  case (String_storage s)
  let ?n = "unat (string_length s)"
  have "half_at m' ((b + 2) * 2 + i) = half_at m ((b + 2) * 2 + i)" if "i < ?n" for i
  proof -
    have "((b + 2) * 2 + i) div 2 = b + 2 + i div 2" "i div 2 < (?n + 1) div 2"
      using that by simp_all
    then show ?thesis
      using assms [of "b + 2 + i div 2"] String_storage by (simp add: half_at_def)
  qed
  then show "encodes m b st \<Longrightarrow> encodes m' b st"
    using String_storage assms [of "b + 1"] by simp
qed (use assms [of "b + 1"] assms in simp_all)

lemma holds_object_cong:
  assumes "\<And>j. j \<in> object_words w p \<Longrightarrow> cells m' j = cells m j" "holds_object m w p"
  shows "holds_object m' w p"
proof -
  from assms(2) obtain x a where x: "heap w p = Some x" "obj_shape x = fixed_ptr w a"
    "cells m (unat (physical_address x)) = writable_logical (fixed_addr a)"
    "encodes m (unat (physical_address x)) (obj_storage x)"
    by (auto simp: holds_object_def)
  have words: "cells m' j = cells m j"
    if "unat (physical_address x) \<le> j" "j < unat (physical_address x) + leaf_size (obj_storage x)" for j
    using assms(1) [of j] x(1) that by (simp add: object_words_def)
  have "0 < leaf_size (obj_storage x)" by (cases "obj_storage x") simp_all
  then have "cells m' (unat (physical_address x)) = writable_logical (fixed_addr a)"
    using words [of "unat (physical_address x)"] x(3) by simp
  moreover have "encodes m' (unat (physical_address x)) (obj_storage x)"
    by (rule encodes_cong [OF words x(4)])
  ultimately show ?thesis using x by (auto simp: holds_object_def)
qed

section \<open>Writing the objects of a write set\<close>

lemma write_one:
  assumes "fixed_ok w" "persistent w s (capacity m) p" "s \<noteq> NULL" "sessions w s = Some r"
    and "has_content w (ses_database r) m" "capacity m < 2 ^ 31"
  shows "\<exists>m'. i_obl_write k p w = Ok () (put_content (ses_database r) m' w) \<and>
     capacity m' = capacity m \<and> holds_object m' w p \<and>
     (\<forall>j. j \<notin> object_words w p \<longrightarrow> cells m' j = cells m j)"
proof -
  from assms(2) obtain x a where x: "heap w p = Some x" "obj_session x = s"
    "obj_shape x = fixed_ptr w a" "leaf a (obj_storage x)"
    "unat (physical_address x) + leaf_size (obj_storage x) \<le> capacity m"
    by (auto simp: persistent_def)
  from write_leaf [OF assms(1) x(1,3,4) assms(5) x(5) assms(6), of k] obtain m' where
    m': "obl_write_object k p (ses_database r) w = Ok () (put_content (ses_database r) m' w)"
    "cells m' (unat (physical_address x)) = writable_logical (fixed_addr a)"
    "encodes m' (unat (physical_address x)) (obj_storage x)"
    "outside m m' (unat (physical_address x)) (leaf_size (obj_storage x))" by blast
  have "i_obl_write k p w = Ok () (put_content (ses_database r) m' w)"
    using assms(3-5) x(1,2) m'(1)
    by (auto simp: i_obl_write_def has_content_def bindM_run get_run Let_def)
  moreover have "holds_object m' w p" using m' x by (auto simp: holds_object_def)
  ultimately show ?thesis
    using m'(4) x(1) by (auto simp: outside_def object_words_def)
qed

lemma persistent_content [simp]: "persistent (put_content d m w) s n p = persistent w s n p"
  "holds_object m' (put_content d m w) p = holds_object m' w p"
  "object_words (put_content d m w) p = object_words w p"
  by (simp_all add: persistent_def holds_object_def object_words_def)

lemma write_all:
  assumes "fixed_ok w" "\<forall>p\<in>set ps. persistent w s (capacity m) p" "s \<noteq> NULL" "sessions w s = Some r"
    and "has_content w (ses_database r) m" "capacity m < 2 ^ 31"
    and "sorted_wrt (\<lambda>p q. object_words w p \<inter> object_words w q = {}) ps"
  shows "\<exists>m'. forM ps (i_obl_write k) w = Ok () (put_content (ses_database r) m' w) \<and>
     capacity m' = capacity m \<and> (\<forall>p\<in>set ps. holds_object m' w p) \<and>
     (\<forall>j. (\<forall>p\<in>set ps. j \<notin> object_words w p) \<longrightarrow> cells m' j = cells m j)"
  using assms
proof (induction ps arbitrary: m w)
  case Nil
  then show ?case by (intro exI [of _ m]) (simp add: retM_run)
next
  case (Cons p ps)
  let ?d = "ses_database r"
  from write_one [OF Cons.prems(1) _ Cons.prems(3-6), of p k] Cons.prems(2) obtain m1 where
    m1: "i_obl_write k p w = Ok () (put_content ?d m1 w)" "capacity m1 = capacity m"
    "holds_object m1 w p" "\<forall>j. j \<notin> object_words w p \<longrightarrow> cells m1 j = cells m j" by auto
  have "\<exists>m'. forM ps (i_obl_write k) (put_content ?d m1 w) =
        Ok () (put_content ?d m' (put_content ?d m1 w)) \<and>
     capacity m' = capacity m1 \<and> (\<forall>p\<in>set ps. holds_object m' (put_content ?d m1 w) p) \<and>
     (\<forall>j. (\<forall>p\<in>set ps. j \<notin> object_words (put_content ?d m1 w) p) \<longrightarrow> cells m' j = cells m1 j)"
    by (rule Cons.IH) (use Cons.prems m1(2) in simp_all)
  then obtain m' where m': "forM ps (i_obl_write k) (put_content ?d m1 w) = Ok () (put_content ?d m' w)"
    "capacity m' = capacity m" "\<forall>p\<in>set ps. holds_object m' w p"
    "\<forall>j. (\<forall>p\<in>set ps. j \<notin> object_words w p) \<longrightarrow> cells m' j = cells m1 j"
    using m1(2) by auto
  have "holds_object m' w p"
    by (rule holds_object_cong [OF _ m1(3)]) (use m'(4) Cons.prems(7) in auto)
  moreover have "\<forall>j. (\<forall>q\<in>set (p # ps). j \<notin> object_words w q) \<longrightarrow> cells m' j = cells m j"
    using m'(4) m1(4) by simp
  moreover have "forM (p # ps) (i_obl_write k) w = Ok () (put_content ?d m' w)"
    using m1(1) m'(1) by (simp add: thenM_run)
  ultimately show ?case using m'(2,3) by (intro exI [of _ m']) simp
qed

section \<open>Nothing to adopt\<close>

lemma visit_persistent:
  assumes "fixed_ok w" "persistent w s n p" "s \<noteq> NULL" "sessions w s = Some r"
  shows "i_visit_transitive_closure k (Suc f) s p adopted w = Ok adopted w"
proof -
  from assms(2) obtain x a where x: "heap w p = Some x" "obj_session x = s"
    "logical_address x \<noteq> 0" "physical_address x \<noteq> 0" "obj_shape x = fixed_ptr w a"
    "leaf a (obj_storage x)"
    by (auto simp: persistent_def)
  have "i_obl_children k p w = Ok [] w"
  proof (cases "(a, obj_storage x)" rule: leaf.cases)
    case (1 st)
    then show ?thesis using storage_of_instance [OF assms(1) x(1,5), of OBL_INTEGER]
      by (simp add: i_obl_children_def bindM_run retM_run)
  next
    case (2 st)
    then show ?thesis using storage_of_instance [OF assms(1) x(1,5), of OBL_STRING]
      by (simp add: i_obl_children_def bindM_run retM_run)
  next
    case (3 st)
    then show ?thesis using storage_of_instance [OF assms(1) x(1,5), of OBL_ADDRTREEPAGE]
      by (simp add: i_obl_children_def bindM_run retM_run)
  qed (use x(6) in simp_all)
  then show ?thesis
    using assms(3,4) x
    by (simp add: i_obl_assign_addresses_def bindM_run thenM_run get_run retM_run Let_def)
qed

lemma visit_all:
  assumes "fixed_ok w" "\<forall>p\<in>set ps. persistent w s n p" "s \<noteq> NULL" "sessions w s = Some r"
  shows "foldM (i_visit_transitive_closure k (Suc f) s) ps adopted w = Ok adopted w"
proof -
  have "i_visit_transitive_closure k (Suc f) s p adopted w = Ok adopted w" if "p \<in> set ps" for p
    using visit_persistent [OF assms(1) _ assms(3,4)] assms(2) that by blast
  then show ?thesis
    by (induction ps) (simp_all add: retM_run bindM_run del: i_visit_transitive_closure.simps)
qed

lemma set_objects_run: "set_objects os w = Ok (map snd (entries (set_root os))) w"
  by (simp add: set_objects_def iterate_inorder_all retM_run del: iterate.simps)


section \<open>The semaphores\<close>

text \<open>A log call on an open database, with the log it leaves.\<close>

definition logged :: "obl_database \<Rightarrow> obl_log_level \<Rightarrow> message \<Rightarrow> world \<Rightarrow> world" where
  "logged db level msg w = (if level_rank (log_level (configuration db)) > level_rank level then w
     else w\<lparr>log_lines := log_lines w @ [(filename (configuration db), level, msg)]\<rparr>)"

lemma logged_simps [simp]:
  "heap (logged db l msg w) = heap w" "sessions (logged db l msg w) = sessions w"
  "transactions (logged db l msg w) = transactions w" "databases (logged db l msg w) = databases w"
  "next_ptr (logged db l msg w) = next_ptr w" "fixed_space (logged db l msg w) = fixed_space w"
  "malloc_budget (logged db l msg w) = malloc_budget w" "fixed_ptr (logged db l msg w) = fixed_ptr w"
  by (simp_all add: logged_def fixed_ptr_def fun_eq_iff)

lemma log_database_run:
  assumes "d \<noteq> NULL" "databases w d = Some db"
  shows "obl_log_database d l msg w = Ok () (logged db l msg w)"
  using assms by (simp add: obl_log_database_def OBL_CONFIG_FROM_def logged_def run obl_log_run)

section \<open>The other sessions\<close>

lemma forM_unchanged: "(\<And>x. x \<in> set xs \<Longrightarrow> f x s = Ok () s) \<Longrightarrow> forM xs f s = Ok () s"
  by (induction xs) (simp_all add: retM_run thenM_run)

text \<open>A session nobody waits for, without a copy of any of the objects.\<close>

definition without_copies :: "world \<Rightarrow> ptr list \<Rightarrow> ptr \<Rightarrow> bool" where
  "without_copies w ps other \<longleftrightarrow> (\<exists>r rs. sessions w other = Some r \<and> 0 < session_mutex r \<and>
     read_set r = Some rs \<and>
     (\<forall>p\<in>set ps. \<exists>x. heap w p = Some x \<and> lookup_r (set_root rs) (unat (logical_address x)) = None))"

lemma update_objects_idle:
  assumes "without_copies w (map snd (entries (set_root ws))) other"
  shows "i_obl_update_objects k other (Some ws) w = Ok () w"
proof -
  let ?ps = "map snd (entries (set_root ws))"
  from assms obtain r rs where r: "sessions w other = Some r" "0 < session_mutex r"
    "read_set r = Some rs"
    "\<And>p. p \<in> set ?ps \<Longrightarrow> \<exists>x. heap w p = Some x \<and> lookup_r (set_root rs) (unat (logical_address x)) = None"
    by (auto simp: without_copies_def)
  let ?w1 = "w\<lparr>sessions := (sessions w)(other \<mapsto> r\<lparr>session_mutex := session_mutex r - Suc 0\<rparr>)\<rparr>"
  let ?step = "\<lambda>current. bindM (get_session other) (\<lambda>r.
            bindM (the_set (read_set r)) (\<lambda>rs.
            bindM (get_object current) (\<lambda>x.
              let mine = obl_set_lookup rs (unat (logical_address x)) in
              if mine \<noteq> NULL then obl_refresh_object k mine else retM ())))"
  have "?step p ?w1 = Ok () ?w1" if "p \<in> set ?ps" for p
    using r(3) r(4) [OF that]
    by (auto simp: obl_set_lookup_def bindM_run get_run the_set_run retM_run Let_def)
  then have "forM ?ps ?step ?w1 = Ok () ?w1" by (rule forM_unchanged)
  moreover have "(sessions w)(other \<mapsto> r) = sessions w" using r(1) by (simp add: fun_upd_idem)
  ultimately show ?thesis
    using r(1,2)
    by (simp add: i_obl_update_objects_def wait_session_mutex_def post_session_mutex_def bindM_run
        thenM_run the_set_run set_objects_run get_run update_run)
qed


section \<open>A whole commit\<close>

lemma persistent_cong:
  assumes "heap w' = heap w" "fixed_space w' = fixed_space w"
  shows "persistent w' s n p = persistent w s n p" "holds_object m w' p = holds_object m w p"
    "object_words w' p = object_words w p"
  using assms by (simp_all add: persistent_def holds_object_def object_words_def fixed_ptr_def)

text \<open>A write set of objects with their own places in the database.\<close>

definition writable_set :: "world \<Rightarrow> ptr \<Rightarrow> nat \<Rightarrow> ptr list \<Rightarrow> bool" where
  "writable_set w s n ps \<longleftrightarrow> (\<forall>p\<in>set ps. persistent w s n p) \<and>
     sorted_wrt (\<lambda>p q. object_words w p \<inter> object_words w q = {}) ps"

text \<open>What the memory of the database is after the commit.\<close>

definition written_to :: "world \<Rightarrow> ptr list \<Rightarrow> memory \<Rightarrow> memory \<Rightarrow> bool" where
  "written_to w ps m m' \<longleftrightarrow> capacity m' = capacity m \<and> (\<forall>p\<in>set ps. holds_object m' w p) \<and>
     (\<forall>j. (\<forall>p\<in>set ps. j \<notin> object_words w p) \<longrightarrow> cells m' j = cells m j)"

lemma writable_set_cong:
  assumes "heap w' = heap w" "fixed_space w' = fixed_space w"
  shows "writable_set w' s n ps = writable_set w s n ps" "written_to w' ps m m' = written_to w ps m m'"
  by (simp_all add: writable_set_def written_to_def persistent_cong [OF assms])

lemma commit_changes_run:
  assumes "fixed_ok w" "transactions w t = Some tx" "t \<noteq> NULL" "tx_session tx = s" "write_set tx = Some ws"
    and "s \<noteq> NULL" "sessions w s = Some r" "has_content w (ses_database r) m" "capacity m < 2 ^ 31"
    and "writable_set w s (capacity m) (map snd (entries (set_root ws)))"
  shows "\<exists>m'. commit_changes k t s w =
      Ok (Some ws, length (entries (set_root ws)), 0) ((put_content (ses_database r) m' w)
        \<lparr>sessions := (sessions w)(s \<mapsto> r\<lparr>current_transaction := NULL\<rparr>),
         transactions := (transactions w)(t := None)\<rparr>) \<and>
     written_to w (map snd (entries (set_root ws))) m m'"
proof -
  let ?ps = "map snd (entries (set_root ws))"
  have persistent: "\<forall>p\<in>set ?ps. persistent w s (capacity m) p"
    and disjoint: "sorted_wrt (\<lambda>p q. object_words w p \<inter> object_words w q = {}) ?ps"
    using assms(10) by (auto simp: writable_set_def)
  obtain m' where m': "forM ?ps (i_obl_write k) w = Ok () (put_content (ses_database r) m' w)"
    "written_to w ?ps m m'"
    using write_all [OF assms(1) persistent assms(6-9) disjoint, of k] by (auto simp: written_to_def)
  have "foldM (i_visit_transitive_closure k (Suc (next_ptr w)) s) ?ps [] w = Ok [] w"
    by (rule visit_all [OF assms(1) persistent assms(6,7)])
  then have "commit_changes k t s w =
      Ok (Some ws, length (entries (set_root ws)), 0) ((put_content (ses_database r) m' w)
        \<lparr>sessions := (sessions w)(s \<mapsto> r\<lparr>current_transaction := NULL\<rparr>),
         transactions := (transactions w)(t := None)\<rparr>)"
    using assms(2-7) m'(1)
    by (simp add: commit_changes_def i_deallocate_transaction_def free_transaction_def set_objects_run
        bindM_run thenM_run get_run update_run the_set_run retM_run getsM_run modifyM_run
        del: i_visit_transitive_closure.simps)
  with m'(2) show ?thesis by blast
qed


lemma notify_idle:
  assumes "databases w d = Some db" "0 < session_list_mutex db"
    and "\<And>other. other \<in> set (session_list db) \<Longrightarrow> other \<noteq> s \<Longrightarrow>
       without_copies w (map snd (entries (set_root ws))) other"
  shows "notify_sessions k d s (Some ws) w = Ok () w"
proof -
  let ?w1 = "w\<lparr>databases := (databases w)(d \<mapsto> db\<lparr>session_list_mutex := session_list_mutex db - Suc 0\<rparr>)\<rparr>"
  have "forM (session_list db) (\<lambda>other. if other \<noteq> s then i_obl_update_objects k other (Some ws)
      else retM ()) ?w1 = Ok () ?w1"
  proof (rule forM_unchanged)
    fix other assume "other \<in> set (session_list db)"
    then have "without_copies ?w1 (map snd (entries (set_root ws))) other" if "other \<noteq> s"
      using assms(3) that by (simp add: without_copies_def)
    then show "(if other \<noteq> s then i_obl_update_objects k other (Some ws) else retM ()) ?w1 = Ok () ?w1"
      using update_objects_idle by (simp add: retM_run)
  qed
  moreover have "(databases w)(d \<mapsto> db) = databases w" using assms(1) by (simp add: fun_upd_idem)
  moreover have "db\<lparr>session_list_mutex := Suc (session_list_mutex db - Suc 0)\<rparr> = db"
    using assms(2) by (cases db) simp
  ultimately show ?thesis
    using assms(1,2)
    by (simp add: notify_sessions_def wait_session_list_mutex_def post_session_list_mutex_def bindM_run
        thenM_run get_run update_run)
qed

lemma destroy_set_idle: "destroy_set_with (Some ws) (\<lambda>_. retM ()) w = Ok () w"
proof -
  have "forM (preorder (set_root ws)) (\<lambda>_. retM ()) w = Ok () w"
    by (rule forM_unchanged) (simp add: retM_run)
  then show ?thesis
    by (simp add: destroy_set_with_def bindM_run [of "the_set _"] the_set_run
        freed_blocks_kept_def destroy_set_preorder)
qed

text \<open>The state after a commit, up to the log.\<close>

definition after_commit :: "world \<Rightarrow> ptr \<Rightarrow> obl_session \<Rightarrow> ptr \<Rightarrow> obl_database \<Rightarrow> memory \<Rightarrow> world \<Rightarrow> bool" where
  "after_commit w s r t db m' w' \<longleftrightarrow>
     sessions w' = (sessions w)(s \<mapsto> r\<lparr>current_transaction := NULL\<rparr>) \<and>
     transactions w' = (transactions w)(t := None) \<and>
     databases w' = (databases w)(ses_database r \<mapsto> db\<lparr>content := Some m'\<rparr>) \<and>
     heap w' = heap w \<and> fixed_space w' = fixed_space w \<and> next_ptr w' = next_ptr w \<and>
     malloc_budget w' = malloc_budget w"

lemma commit_until_notify:
  assumes "fixed_ok w" "in_transaction w s r t tx ws"
    and "databases w (ses_database r) = Some db" "ses_database r \<noteq> NULL"
    and "0 < content_mutex db" "0 < session_list_mutex db" "content db = Some m" "capacity m < 2 ^ 31"
    and "writable_set w s (capacity m) (map snd (entries (set_root ws)))"
  shows "\<exists>m' w4. after_commit w s r t db m' w4 \<and>
     written_to w (map snd (entries (set_root ws))) m m' \<and>
     obl_commit_transaction k t w =
       thenM (notify_sessions k (ses_database r) s (Some ws))
       (thenM (destroy_set_with (Some ws) (\<lambda>_. retM ()))
       (thenM (obl_log_database (ses_database r) L_DEBUG (Formatted
                 ''Successful commit of %lu objects, %lu previously unpersisted.''
                 [Num (int (length (entries (set_root ws)))), Num (int 0)]))
         (retM 0))) w4"
proof -
  let ?d = "ses_database r"
  let ?ps = "map snd (entries (set_root ws))"
  let ?w0 = "logged db L_DEBUG (Text ''Beginning commit.'') w"
  let ?db1 = "db\<lparr>content_mutex := content_mutex db - Suc 0\<rparr>"
  let ?r1 = "r\<lparr>session_mutex := session_mutex r - Suc 0\<rparr>"
  let ?w2 = "?w0\<lparr>databases := (databases w)(?d \<mapsto> ?db1), sessions := (sessions w)(s \<mapsto> ?r1)\<rparr>"
  have tr: "s \<noteq> NULL" "sessions w s = Some r" "0 < session_mutex r" "t \<noteq> NULL"
    "current_transaction r = t" "transactions w t = Some tx" "tx_session tx = s" "write_set tx = Some ws"
    using assms(2) by (simp_all add: in_transaction_def)
  have ok: "fixed_ok ?w2"
    by (rule fixed_ok_same [OF assms(1)]) (simp add: same_fixed_def)
  have "has_content ?w2 (ses_database ?r1) m" using assms(7) by (simp add: has_content_def)
  moreover have "writable_set ?w2 s (capacity m) ?ps"
    using assms(9) writable_set_cong [of ?w2 w] by simp
  ultimately obtain m' where m': "commit_changes k t s ?w2 =
      Ok (Some ws, length (entries (set_root ws)), 0) ((put_content ?d m' ?w2)
        \<lparr>sessions := (sessions w)(s \<mapsto> ?r1\<lparr>current_transaction := NULL\<rparr>),
         transactions := (transactions w)(t := None)\<rparr>)"
    "written_to w ?ps m m'"
    using commit_changes_run [OF ok _ tr(4,7,8,1) _ _ assms(8), of ?r1 k] tr
      writable_set_cong(2) [of ?w2 w] by auto
  let ?S = "(sessions w)(s \<mapsto> r\<lparr>current_transaction := NULL\<rparr>)"
  let ?T = "(transactions w)(t := None)"
  let ?w3 = "?w0\<lparr>sessions := (sessions w)(s \<mapsto> ?r1\<lparr>current_transaction := NULL\<rparr>),
     transactions := ?T, databases := (databases w)(?d \<mapsto> ?db1\<lparr>content := Some m'\<rparr>)\<rparr>"
  let ?w4 = "?w0\<lparr>sessions := ?S, transactions := ?T,
     databases := (databases w)(?d \<mapsto> db\<lparr>content := Some m'\<rparr>)\<rparr>"
  have wait: "wait_content_mutex ?d ?w0 = Ok () (?w0\<lparr>databases := (databases w)(?d \<mapsto> ?db1)\<rparr>)"
    "wait_session_mutex s (?w0\<lparr>databases := (databases w)(?d \<mapsto> ?db1)\<rparr>) = Ok () ?w2"
    using assms(3,5) tr by (simp_all add: wait_content_mutex_def wait_session_mutex_def bindM_run
        get_run update_run)
  have changes: "commit_changes k t s ?w2 = Ok (Some ws, length (entries (set_root ws)), 0) ?w3"
    unfolding m'(1) by (simp add: put_content_def)
  have post: "post_session_mutex s ?w3 = Ok () (?w3\<lparr>sessions := ?S\<rparr>)"
    "post_content_mutex ?d (?w3\<lparr>sessions := ?S\<rparr>) = Ok () ?w4"
    using tr(3) assms(5) by (cases r; cases db;
        simp add: post_session_mutex_def post_content_mutex_def update_run)+
  have log: "obl_log_database ?d L_DEBUG (Text ''Beginning commit.'') w = Ok () ?w0"
    by (rule log_database_run [OF assms(4,3)])
  have "after_commit w s r t db m' ?w4" by (simp add: after_commit_def)
  moreover have "obl_commit_transaction k t w =
       thenM (notify_sessions k (ses_database r) s (Some ws))
       (thenM (destroy_set_with (Some ws) (\<lambda>_. retM ()))
       (thenM (obl_log_database (ses_database r) L_DEBUG (Formatted
                 ''Successful commit of %lu objects, %lu previously unpersisted.''
                 [Num (int (length (entries (set_root ws)))), Num (int 0)]))
         (retM 0))) ?w4"
    using tr wait changes post log
    by (simp only: obl_commit_transaction_def bindM_run [of "get_transaction _"]
        bindM_run [of "get_session _"] bindM_run [of "commit_changes _ _ _"]
        thenM_run [of "obl_log_database _ _ (Text _)"] thenM_run [of "wait_content_mutex _"]
        thenM_run [of "wait_session_mutex _"] thenM_run [of "post_content_mutex _"]
        thenM_run [of "post_session_mutex _"]
        get_run Let_def option.case result.case prod.case)
  ultimately show ?thesis using m'(2) by blast
qed

lemma after_commitD:
  assumes "after_commit w s r t db m' w'" "other \<noteq> s"
  shows "databases w' (ses_database r) = Some (db\<lparr>content := Some m'\<rparr>)"
    "sessions w' other = sessions w other" "heap w' = heap w"
  using assms by (simp_all add: after_commit_def)

lemma commit_run:
  assumes "fixed_ok w" "in_transaction w s r t tx ws"
    and "databases w (ses_database r) = Some db" "ses_database r \<noteq> NULL"
    and "0 < content_mutex db" "0 < session_list_mutex db" "content db = Some m" "capacity m < 2 ^ 31"
    and "writable_set w s (capacity m) (map snd (entries (set_root ws)))"
    and "\<And>other. other \<in> set (session_list db) \<Longrightarrow> other \<noteq> s \<Longrightarrow>
       without_copies w (map snd (entries (set_root ws))) other"
  shows "\<exists>m' w'. obl_commit_transaction k t w = Ok 0 w' \<and> after_commit w s r t db m' w' \<and>
     written_to w (map snd (entries (set_root ws))) m m'"
proof -
  let ?d = "ses_database r"
  let ?msg = "Formatted ''Successful commit of %lu objects, %lu previously unpersisted.''
      [Num (int (length (entries (set_root ws)))), Num (int 0)]"
  obtain m' w4 where w4: "after_commit w s r t db m' w4"
    "written_to w (map snd (entries (set_root ws))) m m'"
    "obl_commit_transaction k t w =
       thenM (notify_sessions k ?d s (Some ws))
       (thenM (destroy_set_with (Some ws) (\<lambda>_. retM ()))
       (thenM (obl_log_database ?d L_DEBUG ?msg) (retM 0))) w4"
    using commit_until_notify [OF assms(1-9), of k] by blast
  have db: "databases w4 ?d = Some (db\<lparr>content := Some m'\<rparr>)"
    using w4(1) by (simp add: after_commit_def)
  have "notify_sessions k ?d s (Some ws) w4 = Ok () w4"
  proof (rule notify_idle [OF db])
    fix other assume "other \<in> set (session_list (db\<lparr>content := Some m'\<rparr>))" "other \<noteq> s"
    then show "without_copies w4 (map snd (entries (set_root ws))) other"
      using assms(10) after_commitD [OF w4(1)] by (simp add: without_copies_def)
  qed (use assms(6) in simp)
  moreover have "obl_log_database ?d L_DEBUG ?msg w4 =
      Ok () (logged (db\<lparr>content := Some m'\<rparr>) L_DEBUG ?msg w4)"
    by (rule log_database_run [OF assms(4) db])
  ultimately have "obl_commit_transaction k t w =
      Ok 0 (logged (db\<lparr>content := Some m'\<rparr>) L_DEBUG ?msg w4)"
    by (simp only: w4(3) thenM_run destroy_set_idle retM_run result.case)
  moreover have "after_commit w s r t db m' (logged (db\<lparr>content := Some m'\<rparr>) L_DEBUG ?msg w4)"
    using w4(1) by (simp add: after_commit_def)
  ultimately show ?thesis using w4(2) by blast
qed

section \<open>Example processes\<close>

text \<open>A set that holds one object at the address 7.\<close>

definition one_object :: "ptr \<Rightarrow> obl_set" where
  "one_object p = \<lparr>set_root = Node BLACK Tip 7 p Tip, set_keyfunction = logical_address_keyfunction\<rparr>"

lemma entries_one_object [simp]: "entries (set_root (one_object p)) = [(7, p)]"
  by (simp add: one_object_def)

lemma dirty_world:
  "world_ok dirty_world" "in_transaction dirty_world 21 ((session_at 20)\<lparr>current_transaction := 22\<rparr>) 22
     \<lparr>tx_session = 21, write_set = Some (one_object (next_ptr started_world))\<rparr>
     (one_object (next_ptr started_world))"
  "databases dirty_world = [20 \<mapsto> plain_database \<lparr>cells = (\<lambda>_. 0), capacity = 64\<rparr>]"
  "heap dirty_world (next_ptr started_world) = Some (integer_object dirty_world)"
  "writable_set dirty_world 21 64 [next_ptr started_world]"
  "object_words dirty_world (next_ptr started_world) = {9..<11}"
proof -
  show "world_ok dirty_world" using transaction_world(1) by (simp add: dirty_world_def)
  have root: "empty_set\<lparr>set_root := fst (set_insert (set_root empty_set)
      (unat (logical_address (integer_object transaction_world))) p)\<rparr> = one_object p" for p
    by (simp add: empty_set_def one_object_def set_insert_def)
  show "in_transaction dirty_world 21 ((session_at 20)\<lparr>current_transaction := 22\<rparr>) 22
     \<lparr>tx_session = 21, write_set = Some (one_object (next_ptr started_world))\<rparr>
     (one_object (next_ptr started_world))"
    using in_transaction_marked [OF transaction_world(3), of "next_ptr started_world"
        "integer_object transaction_world"]
    unfolding root by (simp add: dirty_world_def)
  show "databases dirty_world = [20 \<mapsto> plain_database \<lparr>cells = (\<lambda>_. 0), capacity = 64\<rparr>]"
    using transaction_world(5) by (simp add: dirty_world_def)
  have ptr: "fixed_ptr dirty_world = fixed_ptr transaction_world"
    by (simp add: dirty_world_def fixed_ptr_def fun_eq_iff)
  then show at: "heap dirty_world (next_ptr started_world) = Some (integer_object dirty_world)"
    using transaction_world(4) by (simp add: dirty_world_def integer_object_def)
  show "writable_set dirty_world 21 64 [next_ptr started_world]"
    using at by (auto simp: writable_set_def persistent_def)
  show "object_words dirty_world (next_ptr started_world) = {9..<11}"
    using at by (simp add: object_words_def)
qed

section \<open>Properties\<close>

text \<open>
  C6: Committing a transaction whose write set holds integers, strings and pages with their places in
  the database, when no other session has a copy of one of them: the commit succeeds, the database
  holds every object of the write set, no other word of it has changed, the transaction is over, and
  everything else but the log is as it was.
\<close>

theorem commit_persists:
  assumes "world_ok w" "in_transaction w s r t tx ws"
    and "databases w (ses_database r) = Some db" "ses_database r \<noteq> NULL"
    and "0 < content_mutex db" "0 < session_list_mutex db" "content db = Some m" "capacity m < 2 ^ 31"
    and "writable_set w s (capacity m) (map snd (entries (set_root ws)))"
    and "\<And>other. other \<in> set (session_list db) \<Longrightarrow> other \<noteq> s \<Longrightarrow>
       without_copies w (map snd (entries (set_root ws))) other"
  shows "\<exists>m' w'. obl_commit_transaction k t w = Ok 0 w' \<and>
     (\<forall>p\<in>set (map snd (entries (set_root ws))). holds_object m' w p) \<and>
     (\<forall>j. (\<forall>p\<in>set (map snd (entries (set_root ws))). j \<notin> object_words w p) \<longrightarrow>
        cells m' j = cells m j) \<and> capacity m' = capacity m \<and>
     sessions w' = (sessions w)(s \<mapsto> r\<lparr>current_transaction := NULL\<rparr>) \<and>
     transactions w' = (transactions w)(t := None) \<and>
     databases w' = (databases w)(ses_database r \<mapsto> db\<lparr>content := Some m'\<rparr>) \<and>
     heap w' = heap w \<and> world_ok w'"
proof -
  have "fixed_ok w" using assms(1) by (simp add: world_ok_def)
  from commit_run [OF this assms(2-10), of k] obtain m' w' where
    "obl_commit_transaction k t w = Ok 0 w'" "after_commit w s r t db m' w'"
    "written_to w (map snd (entries (set_root ws))) m m'" by blast
  moreover from this have "world_ok w'"
    using assms(1) world_ok_cong [of w' w] by (simp add: after_commit_def)
  ultimately show ?thesis unfolding after_commit_def written_to_def by blast
qed

lemma commit_persists_witness:
  "\<exists>m' w'. obl_commit_transaction (knot 0) 22 dirty_world = Ok 0 w' \<and>
     cells m' 9 = writable_logical (fixed_addr OBL_INTEGER_SHAPE_ADDR) \<and> cells m' 10 = writable_int 1 \<and>
     map_option content (databases w' 20) = Some (Some m') \<and> transactions w' 22 = None"
proof -
  let ?p = "next_ptr started_world"
  let ?r = "(session_at 20)\<lparr>current_transaction := 22\<rparr>"
  let ?m = "\<lparr>cells = (\<lambda>_. 0), capacity = 64\<rparr> :: memory"
  have "\<exists>m' w'. obl_commit_transaction (knot 0) 22 dirty_world = Ok 0 w' \<and>
     (\<forall>p\<in>set (map snd (entries (set_root (one_object ?p)))). holds_object m' dirty_world p) \<and>
     (\<forall>j. (\<forall>p\<in>set (map snd (entries (set_root (one_object ?p)))). j \<notin> object_words dirty_world p) \<longrightarrow>
        cells m' j = cells ?m j) \<and> capacity m' = capacity ?m \<and>
     sessions w' = (sessions dirty_world)(21 \<mapsto> ?r\<lparr>current_transaction := NULL\<rparr>) \<and>
     transactions w' = (transactions dirty_world)(22 := None) \<and>
     databases w' = (databases dirty_world)(ses_database ?r \<mapsto> (plain_database ?m)\<lparr>content := Some m'\<rparr>) \<and>
     heap w' = heap dirty_world \<and> world_ok w'"
    by (rule commit_persists [OF dirty_world(1,2)])
      (use dirty_world(3,5) in \<open>simp_all add: session_at_def plain_database_def\<close>)
  then obtain m' w' where w': "obl_commit_transaction (knot 0) 22 dirty_world = Ok 0 w'"
    "holds_object m' dirty_world ?p" "transactions w' 22 = None"
    "map_option content (databases w' 20) = Some (Some m')" by (auto simp: session_at_def)
  have "fixed_ptr dirty_world OBL_INTEGER_SHAPE_ADDR = fixed_ptr dirty_world a \<longleftrightarrow>
      OBL_INTEGER_SHAPE_ADDR = a" for a
    using fixed_ptr_inj dirty_world(1) by (simp add: world_ok_def)
  with w'(2) dirty_world(4) have "cells m' 9 = writable_logical (fixed_addr OBL_INTEGER_SHAPE_ADDR)"
    "cells m' 10 = writable_int 1"
    by (auto simp: holds_object_def)
  with w' show ?thesis by blast
qed

end
