(* ===== verification/SlottedFacts.thy ===== *)
theory SlottedFacts
  imports ValueFacts
begin

text \<open>
  Slots by name: what looking up a slot of a shape by its name returns, and slotted objects as records
  whose fields are the names of their shape.
\<close>

section \<open>Resolving references\<close>

lemma resolve_typed:
  assumes "typed_at w p t" "t \<noteq> OBL_STUB"
  shows "i_obl_resolve_stub k p w = Ok p w"
proof -
  obtain x where x: "heap w p = Some x"
    "if obj_shape x = nil_ptr w then t = OBL_SHAPE
     else \<exists>f. shape_at w (obj_shape x) f \<and> storage_type_of f = t"
    using assms(1) by (auto simp: typed_at_def)
  have "i_obl_is_stub p w = Ok False w"
    using x assms(2) obl_shape_storagetype_run [of w "obj_shape x"]
    by (auto simp: i_obl_is_stub_def bindM_run get_run constants_run retM_run split: if_split_asm)
  then show ?thesis
    by (simp add: i_obl_resolve_stub_def bindM_run retM_run)
qed

lemma fixed_at_run:
  assumes "fixed_collection w p c elems" "i < length elems" "typed_at w (elems ! i) t" "t \<noteq> OBL_STUB"
  shows "obl_fixed_at k p (of_nat i) w = Ok (elems ! i) w"
proof -
  have small: "unat (of_nat i :: obl_uint) = i" "unat (of_nat (length elems) :: obl_uint) = length elems"
    using assms by (simp_all add: fixed_collection_def)
  then have "\<not> (of_nat (length elems) :: obl_uint) \<le> of_nat i"
    using assms(2) by (simp add: word_le_nat_alt)
  moreover have "obl_storage_of p w = Ok OBL_FIXED w" "heap w p = Some c"
    "obj_storage c = Fixed_storage \<lparr>fixed_length = of_nat (length elems), fixed_contents = elems\<rparr>"
    using assms(1) by (simp_all add: fixed_collection_def obl_storage_of_run)
  ultimately show ?thesis
    using small assms(2) fixed_size_run [OF assms(1)] resolve_typed [OF assms(3,4)]
    by (simp add: obl_fixed_at_def bindM_run fixed_storage_of_def get_run retM_run nth_exec_run)
qed

section \<open>Slots of a shape\<close>

text \<open>The parts of a shape with slots.\<close>

lemma slots_shape:
  assumes "shape_with_slots u w s names"
  shows "\<exists>x st c elems. heap w s = Some x \<and> obj_storage x = Shape_storage st \<and>
    fixed_collection w (shape_slot_names st) c elems \<and> length elems = length names \<and>
    (\<forall>i<length names. string_at w (elems ! i) (converted u (names ! i)))"
  using assms unfolding shape_with_slots_def list_all2_conv_all_nth by metis

lemma slots_typed:
  assumes "shape_with_slots u w s names"
  shows "shape_at w s 1" "typed_at w s OBL_SHAPE" "s \<noteq> nil_ptr w"
  using assms by (auto simp: shape_with_slots_def shape_at_def typed_at_def)

lemmas slots_storage = obl_storage_of_run [OF slots_typed(2)]

lemma length_slots: "shape_with_slots u w s names \<Longrightarrow> length names < 2 ^ 31"
  using slots_shape by (fastforce simp: fixed_collection_def)

lemma slotnames_run:
  assumes "shape_with_slots u w s names"
  shows "\<exists>q c elems. obl_shape_slotnames k s w = Ok q w \<and> fixed_collection w q c elems \<and>
     length elems = length names \<and>
     (\<forall>i<length names. string_at w (elems ! i) (converted u (names ! i)))"
proof -
  obtain x st c elems where x: "heap w s = Some x" "obj_storage x = Shape_storage st"
    "fixed_collection w (shape_slot_names st) c elems" "length elems = length names"
    "\<forall>i<length names. string_at w (elems ! i) (converted u (names ! i))"
    using slots_shape [OF assms] by blast
  have "typed_at w (shape_slot_names st) OBL_FIXED" using x(3) by (simp add: fixed_collection_def)
  then have "obl_shape_slotnames k s w = Ok (shape_slot_names st) w"
    using x(1,2) slots_storage [OF assms] resolve_typed
    by (simp add: obl_shape_slotnames_def bindM_run shape_storage_of_def get_run retM_run)
  with x show ?thesis by blast
qed

lemma slotcount_run:
  assumes "shape_with_slots u w s names"
  shows "obl_shape_slotcount k s w = Ok (of_nat (length names)) w"
proof -
  obtain q c elems where "obl_shape_slotnames k s w = Ok q w" "fixed_collection w q c elems"
    "length elems = length names" using slotnames_run [OF assms] by blast
  then show ?thesis
    using slots_storage [OF assms] fixed_size_run [of w q c elems] by (simp add: obl_shape_slotcount_def bindM_run)
qed

text \<open>The search finds the first slot whose name is equal, or nothing.\<close>

lemma slot_search_run:
  assumes "fixed_collection w q c elems" "string_at w name us"
    and "length elems = length units" "\<And>i. i < length units \<Longrightarrow> string_at w (elems ! i) (units ! i)"
  shows "\<lbrakk>i \<le> length units; length units - i < n\<rbrakk> \<Longrightarrow>
     slot_search k q name n (of_nat i) w =
       Ok (case List.find (\<lambda>j. units ! j = us) [i..<length units] of
             Some j \<Rightarrow> of_nat j | None \<Rightarrow> OBL_SENTINEL) w"
proof (induction "length units - i" arbitrary: i n)
  case 0
  then obtain n' where "n = Suc n'" "i = length units" by (cases n) auto
  then show ?case
    using fixed_size_run [OF assms(1)] assms(3) by (simp add: bindM_run retM_run)
next
  case (Suc d)
  then obtain n' where n: "n = Suc n'" and i: "i < length units" by (cases n) auto
  have small: "length units < 2 ^ 31" using assms(1,3) by (simp add: fixed_collection_def)
  then have "(of_nat i :: obl_uint) < of_nat (length units)"
    using i by (simp add: word_less_nat_alt)
  moreover have "typed_at w (elems ! i) OBL_STRING"
    using assms(4) [OF i] string_at_typed by blast
  then have "obl_fixed_at k q (of_nat i) w = Ok (elems ! i) w"
    using fixed_at_run [OF assms(1)] i assms(3) by simp
  moreover obtain e where "obl_string_cmp (elems ! i) name w = Ok e w" "e = 0 \<longleftrightarrow> units ! i = us"
    using string_cmp_zero_iff [OF assms(4) [OF i] assms(2)] by blast
  moreover have "slot_search k q name n' (of_nat (Suc i)) w =
      Ok (case List.find (\<lambda>j. units ! j = us) [Suc i..<length units] of
             Some j \<Rightarrow> of_nat j | None \<Rightarrow> OBL_SENTINEL) w"
    by (rule Suc.hyps(1)) (use Suc.hyps(2) Suc.prems n in auto)
  moreover have "[i..<length units] = i # [Suc i..<length units]"
    using i by (rule upt_conv_Cons)
  ultimately show ?case
    using n fixed_size_run [OF assms(1)] assms(3)
    by (simp add: bindM_run retM_run add.commute del: upt_Suc)
qed

text \<open>The position of the first slot whose name converts to the same units.\<close>

definition slot_position :: "icu \<Rightarrow> string list \<Rightarrow> string \<Rightarrow> nat option" where
  "slot_position u names name =
     List.find (\<lambda>j. converted u (names ! j) = converted u name) [0..<length names]"

lemma slotnamed_run:
  assumes "shape_with_slots u w s names" "string_at w q (converted u name)"
  shows "obl_shape_slotnamed k s q w =
     Ok (case slot_position u names name of Some i \<Rightarrow> of_nat i | None \<Rightarrow> OBL_SENTINEL) w"
proof -
  obtain p c elems where p: "obl_shape_slotnames k s w = Ok p w" "fixed_collection w p c elems"
    "length elems = length names"
    "\<forall>i<length names. string_at w (elems ! i) (converted u (names ! i))"
    using slotnames_run [OF assms(1)] by blast
  have "slot_search k p q (Suc (length names)) (of_nat 0) w =
      Ok (case List.find (\<lambda>j. map (converted u) names ! j = converted u name)
            [0..<length (map (converted u) names)] of
          Some j \<Rightarrow> of_nat j | None \<Rightarrow> OBL_SENTINEL) w"
    by (rule slot_search_run [OF p(2) assms(2)]) (use p(3,4) in simp_all)
  moreover have "List.find (\<lambda>j. map (converted u) names ! j = converted u name)
            [0..<length (map (converted u) names)] = slot_position u names name"
    unfolding slot_position_def by (intro find_cong) simp_all
  moreover have "unat (of_nat (length names) :: obl_uint) = length names"
    using length_slots [OF assms(1)] by simp
  ultimately show ?thesis
    using p(1,3) fixed_size_run [OF p(2)] slots_storage [OF assms(1)]
    by (simp add: obl_shape_slotnamed_def bindM_run del: slot_search.simps)
qed

lemma free_new_object:
  assumes "fresh w"
  shows "free_object (next_ptr w) (add_object x w) = Ok () (w\<lparr>next_ptr := Suc (next_ptr w)\<rparr>)"
proof -
  have "next_ptr w \<noteq> NULL" "heap w (next_ptr w) = None" using assms by (simp_all add: fresh_def)
  then show ?thesis
    by (simp add: free_object_def run add_object_def fun_upd_idem)
qed

lemma destroy_new_string:
  assumes "fresh w" "string_at (add_object x w) (next_ptr w) us" "obj_session x = NULL"
  shows "obl_destroy_object (next_ptr w) (add_object x w) = Ok () (w\<lparr>next_ptr := Suc (next_ptr w)\<rparr>)"
proof -
  obtain rest where "string_block (add_object x w) (next_ptr w) us rest"
    using assms(2) by (auto simp: string_at_def)
  note string_block_run [OF this]
  then show ?thesis
    using assms free_new_object [OF assms(1)]
    by (simp add: obl_destroy_object_def i_obl_database_release_def i_obl_session_release_def
      i_obl_deallocate_object_def i_obl_string_deallocate_def bindM_run thenM_run get_run retM_run)
qed

text \<open>
  Looking a slot up by a C string makes a string object for the comparison and destroys it again. Only
  its pointer has been used up.
\<close>

lemma slotcnamed_run:
  assumes "good_icu u" "world_ok w" "malloc_budget w = None" "shape_with_slots u w s names"
    and "length name < 2 ^ 30"
  shows "obl_shape_slotcnamed u k s name w =
     Ok (case slot_position u names name of Some i \<Rightarrow> of_nat i | None \<Rightarrow> OBL_SENTINEL)
       (w\<lparr>next_ptr := Suc (next_ptr w)\<rparr>)"
proof -
  let ?x = "string_object u (fixed_ptr w OBL_STRING_SHAPE_ADDR) name"
  let ?w = "add_object ?x w"
  have ok: "fixed_ok w" "fresh w" using assms(2) by (simp_all add: world_ok_def)
  have keeps: "keeps w ?w" using ok(2) by (intro keeps_add) simp
  have "cstring_object u name w = Ok (next_ptr w) ?w"
    using cstring_object_run [OF assms(1,3), of name] assms(5) ok(2) by (simp add: fresh_def)
  moreover have temporary: "string_at ?w (next_ptr w) (converted u name)"
  proof -
    have "fixed_ok ?w" using world_ok_add [OF assms(2)] by (simp add: world_ok_def)
    then have "typed_at ?w (next_ptr w) OBL_STRING"
      by (rule typed_instance [of _ _ ?x OBL_STRING_SHAPE_ADDR]) (simp_all add: string_object_def)
    then show ?thesis
      by (rule string_object_at [OF assms(1) _ _ assms(5)]) simp
  qed
  moreover have "obl_shape_slotnamed k s (next_ptr w) ?w =
      Ok (case slot_position u names name of Some i \<Rightarrow> of_nat i | None \<Rightarrow> OBL_SENTINEL) ?w"
    by (rule slotnamed_run [OF keeps_slots [OF keeps assms(4)] temporary])
  moreover have "obl_destroy_object (next_ptr w) ?w = Ok () (w\<lparr>next_ptr := Suc (next_ptr w)\<rparr>)"
    by (rule destroy_new_string [OF ok(2) temporary]) (simp add: string_object_def)
  moreover have "next_ptr w \<noteq> NULL" using ok(2) by (simp add: fresh_def)
  ultimately show ?thesis
    using slots_storage [OF assms(4)]
    by (simp add: obl_shape_slotcnamed_def bindM_run thenM_run retM_run)
qed

section \<open>Slotted objects\<close>

text \<open>An object with a value for each slot of its shape.\<close>

definition slotted_object ::
    "icu \<Rightarrow> world \<Rightarrow> ptr \<Rightarrow> obl_object \<Rightarrow> string list \<Rightarrow> ptr list \<Rightarrow> bool" where
  "slotted_object u w p x names vals \<longleftrightarrow> heap w p = Some x \<and>
     obj_storage x = Slotted_storage \<lparr>slots = vals\<rparr> \<and> length vals = length names \<and>
     shape_with_slots u w (obj_shape x) names"

lemma slotted_typed:
  assumes "slotted_object u w p x names vals"
  shows "typed_at w p OBL_SLOTTED"
  using assms slots_typed [of u w "obj_shape x" names]
  by (auto simp: slotted_object_def typed_at_def intro!: exI [of _ 1])

lemma slotted_run:
  assumes "slotted_object u w p x names vals"
  shows "obl_storage_of p w = Ok OBL_SLOTTED w" "get_object p w = Ok x w"
    "obl_object_shape p w = Ok (obj_shape x) w"
    "slotted_storage_of p w = Ok \<lparr>slots = vals\<rparr> w"
    "obl_shape_slotcount k (obj_shape x) w = Ok (of_nat (length vals)) w"
proof -
  show "obl_storage_of p w = Ok OBL_SLOTTED w"
    by (rule obl_storage_of_run [OF slotted_typed [OF assms]])
  have x: "heap w p = Some x" "obj_storage x = Slotted_storage \<lparr>slots = vals\<rparr>"
    "length vals = length names" "shape_with_slots u w (obj_shape x) names"
    using assms by (simp_all add: slotted_object_def)
  then show "get_object p w = Ok x w" "obl_object_shape p w = Ok (obj_shape x) w"
    "slotted_storage_of p w = Ok \<lparr>slots = vals\<rparr> w"
    by (simp_all add: obl_object_shape_def slotted_storage_of_def bindM_run get_run retM_run)
  show "obl_shape_slotcount k (obj_shape x) w = Ok (of_nat (length vals)) w"
    using slotcount_run [OF x(4)] x(3) by simp
qed

lemma slot_index:
  assumes "slotted_object u w p x names vals" "i < length vals"
  shows "unat (of_nat i :: obl_uint) = i" "\<not> (of_nat (length vals) :: obl_uint) \<le> of_nat i"
proof -
  have "length vals < 2 ^ 31"
    using assms(1) length_slots by (auto simp: slotted_object_def)
  with assms(2) show "unat (of_nat i :: obl_uint) = i"
    "\<not> (of_nat (length vals) :: obl_uint) \<le> of_nat i"
    by (simp_all add: word_le_nat_alt)
qed

lemma slotted_at_run:
  assumes "slotted_object u w p x names vals" "i < length vals"
    and "typed_at w (vals ! i) t" "t \<noteq> OBL_STUB"
  shows "obl_slotted_at k p (of_nat i) w = Ok (vals ! i) w"
  using slotted_run [OF assms(1)] slot_index [OF assms(1,2)] assms(2) resolve_typed [OF assms(3,4)]
  by (simp add: obl_slotted_at_def bindM_run nth_exec_run)

abbreviation with_slots :: "obl_object \<Rightarrow> ptr list \<Rightarrow> obl_object" where
  "with_slots x vals \<equiv> x\<lparr>obj_storage := Slotted_storage \<lparr>slots = vals\<rparr>\<rparr>"

lemma slotted_at_put_run:
  assumes "slotted_object u w p x names vals" "i < length vals" "obj_session x = NULL"
  shows "obl_slotted_at_put k p (of_nat i) v w =
     Ok () (put_object p (with_slots x (vals[i := v])) w)"
proof -
  have "heap w p = Some x" using assms(1) by (simp add: slotted_object_def)
  then show ?thesis
    using slotted_run [OF assms(1)] slot_index [OF assms(1,2)] assms(2,3)
    by (simp add: obl_slotted_at_put_def bindM_run thenM_run modify_without_session set_slot_def
        nth_exec_run update_object_run)
qed

text \<open>A shape with slots keeps them when an object of another kind changes.\<close>

lemma slots_put:
  assumes "typed_at w p t" "t \<notin> {OBL_SHAPE, OBL_FIXED, OBL_STRING}" "heap w p = Some x"
    and "obj_shape y = obj_shape x" "shape_with_slots u w s names"
  shows "shape_with_slots u (put_object p y w) s names"
proof -
  let ?w = "put_object p y w"
  have typed: "typed_at ?w q t'" if "typed_at w q t'" for q t'
    using typed_at_put_other [OF assms(1) _ assms(3,4) that] assms(2) by simp
  have other: "heap ?w q = heap w q" if "typed_at w q t'" "t' \<noteq> t" for q t'
    using typed_at_unique [OF assms(1)] that by auto
  have string: "string_at ?w q us" if "string_at w q us" for q us
  proof -
    have "typed_at w q OBL_STRING" using that string_at_typed by blast
    with other [of q OBL_STRING] typed assms(2) that show ?thesis
      unfolding string_at_def string_block_def by auto
  qed
  obtain z st c elems where z: "heap w s = Some z" "obj_shape z = nil_ptr w"
    "obj_storage z = Shape_storage st" "shape_storage_format st = storage_code OBL_SLOTTED"
    "s \<noteq> nil_ptr w" "fixed_collection w (shape_slot_names st) c elems"
    "list_all2 (\<lambda>e name. string_at w e (converted u name)) elems names"
    using assms(5) unfolding shape_with_slots_def by blast
  have "fixed_collection ?w (shape_slot_names st) c elems"
    using z(6) typed other [of "shape_slot_names st" OBL_FIXED] assms(2)
    by (auto simp: fixed_collection_def)
  moreover have "heap ?w s = Some z"
    using other [OF slots_typed(2) [OF assms(5)]] assms(2) z(1) by auto
  moreover have "list_all2 (\<lambda>e name. string_at ?w e (converted u name)) elems names"
    using z(7) string by (rule list_all2_mono)
  ultimately show ?thesis
    using z unfolding shape_with_slots_def by (intro exI [of _ z] exI [of _ st] exI [of _ c]) auto
qed

lemma slotted_put:
  assumes "slotted_object u w p x names vals" "length vals' = length vals"
  shows "slotted_object u (put_object p (with_slots x vals') w) p (with_slots x vals') names vals'"
  using assms slots_put [OF slotted_typed [OF assms(1)], of x "with_slots x vals'" u "obj_shape x" names]
  by (simp add: slotted_object_def)

lemma world_ok_slotted:
  assumes "slotted_object u w p x names vals" "world_ok w"
  shows "world_ok (put_object p y w)"
proof -
  have "p \<noteq> fixed_ptr w a" for a
    by (rule typed_not_fixed [OF _ slotted_typed [OF assms(1)]])
      (use assms(2) in \<open>simp_all add: world_ok_def\<close>)
  then show ?thesis
    using assms by (intro world_ok_put [of _ _ x]) (simp_all add: slotted_object_def)
qed

lemma slotted_cong:
  assumes "slotted_object u w p x names vals" "heap w' = heap w" "fixed_space w' = fixed_space w"
  shows "slotted_object u w' p x names vals"
proof -
  have "keeps w w'" using assms(2,3) by (intro keeps_frame) (simp_all add: fixed_ptr_def)
  then show ?thesis
    using assms keeps_slots [of w w'] by (auto simp: slotted_object_def)
qed

text \<open>Creating a slotted object: every slot holds nil.\<close>

lemma plain_object_updates:
  "(plain_object s' st)\<lparr>obj_shape := s\<rparr> = plain_object s st"
  "(plain_object s st')\<lparr>obj_storage := st\<rparr> = plain_object s st"
  by (simp_all add: plain_object_def)

lemma create_slotted_run:
  assumes "malloc_budget w = None" "fresh w" "shape_with_slots u w s names" "heap w s = Some sx"
    and "obj_session sx = NULL"
  shows "obl_create_slotted k s w = Ok (next_ptr w) (add_object (plain_object s
     (Slotted_storage \<lparr>slots = replicate (length names) (nil_ptr w)\<rparr>)) w)"
proof -
  let ?x = "\<lambda>st. plain_object s st"
  let ?w = "add_object (?x Unset) w"
  have "next_ptr w \<noteq> NULL" "heap w (next_ptr w) = None" using assms(2) by (simp_all add: fresh_def)
  then have "s \<noteq> next_ptr w" using assms(4) by auto
  have "keeps w ?w" using \<open>heap w (next_ptr w) = None\<close> by (rule keeps_add)
  note count = slotcount_run [OF keeps_slots [OF this assms(3)], of k]
  show ?thesis
    using assms(1,4,5) slots_storage [OF assms(3)] count \<open>next_ptr w \<noteq> NULL\<close> \<open>s \<noteq> next_ptr w\<close>
      length_slots [OF assms(3)]
    by (simp add: obl_create_slotted_def bindM_run thenM_run allocate_object_run obl_database_of_def
        get_run retM_run with_storage_block_run update_object_run constants_run plain_object_updates)
qed

text \<open>The world after one temporary object has come and gone.\<close>

abbreviation used_pointer :: "world \<Rightarrow> world" where
  "used_pointer w \<equiv> w\<lparr>next_ptr := Suc (next_ptr w)\<rparr>"

lemma world_ok_used [simp]: "world_ok w \<Longrightarrow> world_ok (used_pointer w)"
  by (simp add: world_ok_def fresh_def fixed_ok_def fixed_object_def fixed_content_def fixed_ptr_def
      cong: option.case_cong)

lemma slotted_used:
  "slotted_object u w p x names vals \<Longrightarrow> slotted_object u (used_pointer w) p x names vals"
  by (erule slotted_cong) simp_all

lemma keeps_used [simp]: "keeps w (used_pointer w)"
  by (rule keeps_frame) simp_all

lemma slot_position_less: "slot_position u names name = Some i \<Longrightarrow> i < length names"
  by (auto simp: slot_position_def find_Some_iff)

lemma slotted_atcnamed_put_run:
  assumes "good_icu u" "world_ok w" "malloc_budget w = None" "slotted_object u w p x names vals"
    and "obj_session x = NULL" "length name < 2 ^ 30" "slot_position u names name = Some i"
  shows "obl_slotted_atcnamed_put u k p name v w =
     Ok () (put_object p (with_slots x (vals[i := v])) (used_pointer w))"
proof -
  have x: "shape_with_slots u w (obj_shape x) names" "length vals = length names"
    using assms(4) by (simp_all add: slotted_object_def)
  show ?thesis
    using slotted_run [OF assms(4)] slotcnamed_run [OF assms(1-3) x(1) assms(6)]
      slotted_at_put_run [OF slotted_used [OF assms(4)] _ assms(5)] slot_position_less [OF assms(7)]
      assms(7) x(2)
    by (simp add: obl_slotted_atcnamed_put_def bindM_run)
qed

lemma slotted_atcnamed_run:
  assumes "good_icu u" "world_ok w" "malloc_budget w = None" "slotted_object u w p x names vals"
    and "length name < 2 ^ 30" "slot_position u names name = Some i"
    and "typed_at w (vals ! i) t" "t \<noteq> OBL_STUB"
  shows "obl_slotted_atcnamed u k p name w = Ok (vals ! i) (used_pointer w)"
proof -
  have x: "shape_with_slots u w (obj_shape x) names" "length vals = length names"
    using assms(4) by (simp_all add: slotted_object_def)
  have "typed_at (used_pointer w) (vals ! i) t"
    by (rule keeps_typed_at [OF keeps_used assms(7)])
  then show ?thesis
    using slotted_run [OF assms(4)] slotcnamed_run [OF assms(1-3) x(1) assms(5)]
      slotted_at_run [OF slotted_used [OF assms(4)]] slot_position_less [OF assms(6)]
      assms(6,8) x(2)
    by (simp add: obl_slotted_atcnamed_def bindM_run)
qed

lemma slotted_wordsize_run:
  assumes "slotted_object u w p x names vals"
  shows "obl_object_wordsize k p w = Ok (1 + of_nat (length names)) w"
  using slotted_run [OF assms] assms
  by (simp add: obl_object_wordsize_def bindM_run retM_run slotted_object_def)

text \<open>Writing a slotted object stores the addresses of its values behind its shape word.\<close>

lemma slotted_write_run:
  assumes "slotted_object u w p x names vals" "has_content w d m"
    and "unat (physical_address x) + (1 + length vals) \<le> capacity m" "capacity m < 2 ^ 31"
    and "\<And>i. i < length vals \<Longrightarrow> heap w (vals ! i) = Some (ys ! i)" "length ys = length vals"
  shows "obl_slotted_write k p d w = Ok () (put_content d
     (store_words m (unat (physical_address x) + 1)
        (map (\<lambda>y. writable_uint (logical_address y)) ys)) w)"
proof -
  let ?b = "physical_address x + 1"
  have base: "unat ?b = unat (physical_address x) + 1"
    using unat_offset [of "physical_address x" 1] assms(3,4) by simp
  have "length vals < 2 ^ 31"
    using assms(1) length_slots by (auto simp: slotted_object_def)
  then have len: "unat (of_nat (length vals) :: obl_uint) = length vals" by simp
  have keeps: "keeps w (put_content d m' w)" for m'
    by (rule keeps_frame) simp_all
  have slotted: "slotted_object u (put_content d m' w) p x names vals" for m'
    using assms(1) by (rule slotted_cong) simp_all
  have "forM [0..<length vals] (\<lambda>i.
         bindM (slotted_storage_of p) (\<lambda>st.
         bindM (nth_exec (slots st) i) (\<lambda>linked.
         bindM (address_word linked) (\<lambda>v. write_cell d (?b + of_nat i) v)))) w =
      Ok () (put_content d (store_words m (unat ?b)
        (map (\<lambda>i. writable_uint (logical_address (ys ! i))) [0..<length vals])) w)"
    by (rule write_block_run [OF assms(2)])
      (use assms(3-5) base slotted_run(4) [OF slotted] in
        \<open>simp_all add: bindM_run nth_exec_run address_word_def get_run retM_run\<close>)
  moreover have "map (\<lambda>i. writable_uint (logical_address (ys ! i))) [0..<length vals] =
      map (\<lambda>y. writable_uint (logical_address y)) ys"
    using assms(6) by (intro nth_equalityI) simp_all
  ultimately show ?thesis
    using slotted_run [OF assms(1)] len base
    by (simp add: obl_slotted_write_def bindM_run)
qed

section \<open>The allocator of an example process\<close>

lemma allocator_positions:
  "converted u ''next_logical'' \<noteq> converted u ''next_physical'' \<Longrightarrow>
     slot_position u allocator_slots ''next_logical'' = Some 0 \<and>
     slot_position u allocator_slots ''next_physical'' = Some 1"
  by (auto simp: slot_position_def upt_conv_Cons)

lemma ascii_slots: "converted ascii_icu ''next_logical'' \<noteq> converted ascii_icu ''next_physical''"
  by (simp add: ascii_converted)

definition allocator_world :: world where
  "allocator_world = add_object (plain_object (fixed_ptr started_world OBL_ALLOCATOR_SHAPE_ADDR)
     (Slotted_storage \<lparr>slots = [nil_ptr started_world, nil_ptr started_world]\<rparr>)) started_world"

lemma allocator_world:
  "world_ok allocator_world" "malloc_budget allocator_world = None"
  "slotted_object ascii_icu allocator_world (next_ptr started_world)
     (plain_object (fixed_ptr started_world OBL_ALLOCATOR_SHAPE_ADDR)
       (Slotted_storage \<lparr>slots = [nil_ptr started_world, nil_ptr started_world]\<rparr>))
     allocator_slots [nil_ptr started_world, nil_ptr started_world]"
  "typed_at allocator_world (nil_ptr started_world) OBL_NIL"
proof -
  show ok: "world_ok allocator_world"
    unfolding allocator_world_def by (rule world_ok_add) (rule started_world_ok)
  show "malloc_budget allocator_world = None"
    by (simp add: allocator_world_def started_world_ok)
  have "fresh started_world" using started_world_ok(1) by (simp add: world_ok_def)
  then have "keeps started_world allocator_world"
    unfolding allocator_world_def by (intro keeps_add) simp
  from keeps_slots [OF this started_world_ok(3)]
  show "slotted_object ascii_icu allocator_world (next_ptr started_world)
     (plain_object (fixed_ptr started_world OBL_ALLOCATOR_SHAPE_ADDR)
       (Slotted_storage \<lparr>slots = [nil_ptr started_world, nil_ptr started_world]\<rparr>))
     allocator_slots [nil_ptr started_world, nil_ptr started_world]"
    by (simp add: slotted_object_def allocator_world_def)
  have "fixed_ok allocator_world" using ok by (simp add: world_ok_def)
  from fixed_object_typed(1) [OF this]
  show "typed_at allocator_world (nil_ptr started_world) OBL_NIL"
    by (simp add: allocator_world_def)
qed

section \<open>Properties\<close>

text \<open>
  C20: In an object without a session, storing a value under the name of a slot and then reading the
  slot by that name gives the value, and every other slot still holds what it held. Nothing but the
  object changes, and the invariant is kept.
\<close>

theorem slots_by_name:
  assumes "good_icu u" "world_ok w" "malloc_budget w = None" "slotted_object u w p x names vals"
    and "obj_session x = NULL" "length name < 2 ^ 30" "slot_position u names name = Some i"
    and "typed_at w v t" "t \<noteq> OBL_STUB"
  shows "\<exists>w1. obl_slotted_atcnamed_put u k p name v w = Ok () w1 \<and> world_ok w1 \<and>
     slotted_object u w1 p (with_slots x (vals[i := v])) names (vals[i := v]) \<and>
     (\<forall>q. q \<noteq> p \<longrightarrow> heap w1 q = heap w q) \<and>
     obl_slotted_atcnamed u k p name w1 = Ok v (used_pointer w1) \<and>
     (\<forall>other j t'. slot_position u names other = Some j \<and> j \<noteq> i \<and> length other < 2 ^ 30 \<and>
        typed_at w (vals ! j) t' \<and> t' \<noteq> OBL_STUB \<longrightarrow>
        obl_slotted_atcnamed u k p other w1 = Ok (vals ! j) (used_pointer w1))"
proof -
  let ?x = "with_slots x (vals[i := v])"
  let ?w1 = "put_object p ?x (used_pointer w)"
  have x: "heap w p = Some x" "length vals = length names"
    using assms(4) by (simp_all add: slotted_object_def)
  have put: "obl_slotted_atcnamed_put u k p name v w = Ok () ?w1"
    by (rule slotted_atcnamed_put_run [OF assms(1-7)])
  have slotted: "slotted_object u ?w1 p ?x names (vals[i := v])"
    by (rule slotted_put [OF slotted_used [OF assms(4)]]) simp
  have ok: "world_ok ?w1"
    by (rule world_ok_slotted [OF slotted_used [OF assms(4)] world_ok_used [OF assms(2)]])
  have typed: "typed_at ?w1 q t'" if "typed_at w q t'" for q t'
    by (rule typed_at_put_other [OF slotted_typed [OF slotted_used [OF assms(4)]]])
      (use x that keeps_typed_at [OF keeps_used] in simp_all)
  have "obl_slotted_atcnamed u k p name ?w1 = Ok v (used_pointer ?w1)"
    using slotted_atcnamed_run [OF assms(1) ok _ slotted assms(6,7)] typed [OF assms(8)] assms(3,9)
      slot_position_less [OF assms(7)] x(2) by simp
  moreover have "obl_slotted_atcnamed u k p other ?w1 = Ok (vals ! j) (used_pointer ?w1)"
    if "slot_position u names other = Some j" "j \<noteq> i" "length other < 2 ^ 30"
      "typed_at w (vals ! j) t'" "t' \<noteq> OBL_STUB" for other j t'
    using slotted_atcnamed_run [OF assms(1) ok _ slotted that(3,1)] typed [OF that(4)] that(2,5) assms(3)
    by simp
  ultimately show ?thesis using put ok slotted by (intro exI [of _ ?w1]) auto
qed

lemma slots_by_name_witness:
  "\<exists>w1. obl_slotted_atcnamed_put ascii_icu (knot 0) (next_ptr started_world) ''next_physical''
       (nil_ptr started_world) allocator_world = Ok () w1 \<and>
     obl_slotted_atcnamed ascii_icu (knot 0) (next_ptr started_world) ''next_physical'' w1 =
       Ok (nil_ptr started_world) (used_pointer w1)"
proof -
  have "length ''next_physical'' < 2 ^ 30" "OBL_NIL \<noteq> OBL_STUB"
    "slot_position ascii_icu allocator_slots ''next_physical'' = Some 1"
    using allocator_positions [OF ascii_slots] by simp_all
  then show ?thesis
    using slots_by_name [OF good_ascii allocator_world(1-3) _ _ _ allocator_world(4), of "''next_physical''" 1 "knot 0"]
    by (simp only: plain_object_simps) blast
qed

end
