(* ===== verification/AutoCommit.thy ===== *)
theory AutoCommit
  imports CommitFacts SlottedFacts
begin

text \<open>
  Setters outside of a transaction: they open one for the change and commit it at once.
\<close>

section \<open>Changing an object\<close>

text \<open>The transaction that a setter opens for itself.\<close>

definition opened :: "ptr \<Rightarrow> obl_session \<Rightarrow> world \<Rightarrow> world" where
  "opened s r w = w
     \<lparr>sessions := (sessions w)(s \<mapsto> r\<lparr>current_transaction := next_ptr w\<rparr>),
      transactions := (transactions w)(next_ptr w \<mapsto> \<lparr>tx_session = s, write_set = Some empty_set\<rparr>),
      next_ptr := Suc (next_ptr w)\<rparr>"

lemma opened_simps [simp]:
  "heap (opened s r w) = heap w" "databases (opened s r w) = databases w"
  "sessions (opened s r w) = (sessions w)(s \<mapsto> r\<lparr>current_transaction := next_ptr w\<rparr>)"
  "transactions (opened s r w) =
     (transactions w)(next_ptr w \<mapsto> \<lparr>tx_session = s, write_set = Some empty_set\<rparr>)"
  "fixed_space (opened s r w) = fixed_space w" "malloc_budget (opened s r w) = malloc_budget w"
  "next_ptr (opened s r w) = Suc (next_ptr w)" "fixed_ptr (opened s r w) a = fixed_ptr w a"
  by (simp_all add: opened_def fixed_ptr_def)

lemma world_ok_opened: "world_ok w \<Longrightarrow> world_ok (opened s r w)"
  using world_ok_used [of w] by (subst world_ok_cong [of _ "used_pointer w"]) simp_all

definition idle_session :: "world \<Rightarrow> ptr \<Rightarrow> obl_session \<Rightarrow> bool" where
  "idle_session w s r \<longleftrightarrow> s \<noteq> NULL \<and> sessions w s = Some r \<and> 0 < session_mutex r \<and>
     current_transaction r = NULL"

lemma ensure_opens:
  assumes "malloc_budget w = None" "0 < next_ptr w" "idle_session w s r"
  shows "obl_ensure_transaction s c w = Ok (next_ptr w, True) (opened s r w)"
proof -
  have "r\<lparr>session_mutex := session_mutex r - Suc 0, current_transaction := t,
      session_mutex := Suc (session_mutex r - Suc 0)\<rparr> = r\<lparr>current_transaction := t\<rparr>" for t
    using assms(3) by (cases r) (simp add: idle_session_def)
  then show ?thesis
    using assms
    by (simp add: idle_session_def obl_ensure_transaction_def i_allocate_transaction_def
        wait_session_mutex_def post_session_mutex_def bindM_run thenM_run get_run update_run retM_run
        malloc_run obl_create_set_def new_run opened_def empty_set_def)
qed

lemma in_transaction_opened:
  assumes "0 < next_ptr w" "idle_session w s r"
  shows "in_transaction (opened s r w) s (r\<lparr>current_transaction := next_ptr w\<rparr>) (next_ptr w)
     \<lparr>tx_session = s, write_set = Some empty_set\<rparr> empty_set"
  using assms by (simp add: in_transaction_def idle_session_def empty_set_def rb_valid_def)

text \<open>What the change runs on: the transaction with the object in its write set.\<close>

definition one_dirty :: "obl_object \<Rightarrow> ptr \<Rightarrow> obl_set" where
  "one_dirty x p = \<lparr>set_root = Node BLACK Tip (unat (logical_address x)) p Tip,
     set_keyfunction = logical_address_keyfunction\<rparr>"

lemma modify_opens:
  assumes "malloc_budget w = None" "0 < next_ptr w" "idle_session w s r" "heap w p = Some x"
    and "obj_session x = s"
    and "w1 = marked p x (next_ptr w) \<lparr>tx_session = s, write_set = Some empty_set\<rparr> empty_set (opened s r w)"
    and "change w1 = Ok () w2"
  shows "modify_in_transaction k p change w =
     bindM (call_commit_transaction k (next_ptr w)) (\<lambda>_. retM ()) w2"
    and "in_transaction w1 s (r\<lparr>current_transaction := next_ptr w\<rparr>) (next_ptr w)
       \<lparr>tx_session = s, write_set = Some (one_dirty x p)\<rparr> (one_dirty x p)"
proof -
  note tr = in_transaction_opened [OF assms(2,3)]
  have "obl_mark_dirty p (opened s r w) = Ok () w1"
    unfolding assms(6) by (rule mark_dirty_run [OF _ tr]) (use assms in \<open>simp_all add: empty_set_def\<close>)
  then show "modify_in_transaction k p change w =
     bindM (call_commit_transaction k (next_ptr w)) (\<lambda>_. retM ()) w2"
    using ensure_opens [OF assms(1-3)] assms(4,5,7)
    by (simp add: modify_in_transaction_def bindM_run thenM_run get_run)
  show "in_transaction w1 s (r\<lparr>current_transaction := next_ptr w\<rparr>) (next_ptr w)
       \<lparr>tx_session = s, write_set = Some (one_dirty x p)\<rparr> (one_dirty x p)"
    using in_transaction_marked [OF tr, of p x]
    by (simp add: assms(6) one_dirty_def empty_set_def set_insert_def)
qed

text \<open>A database that a commit of its only copy of some objects can write to.\<close>

definition commits_to :: "world \<Rightarrow> ptr \<Rightarrow> obl_session \<Rightarrow> obl_database \<Rightarrow> memory \<Rightarrow> bool" where
  "commits_to w s r db m \<longleftrightarrow> databases w (ses_database r) = Some db \<and> ses_database r \<noteq> NULL \<and>
     0 < content_mutex db \<and> 0 < session_list_mutex db \<and> content db = Some m \<and> capacity m < 2 ^ 31 \<and>
     set (session_list db) \<subseteq> {s}"

text \<open>An integer of a session that has its place in the database.\<close>

definition stored_number :: "world \<Rightarrow> ptr \<Rightarrow> nat \<Rightarrow> ptr \<Rightarrow> obl_object \<Rightarrow> obl_int \<Rightarrow> bool" where
  "stored_number w s n p x v \<longleftrightarrow> heap w p = Some x \<and> obj_session x = s \<and>
     logical_address x \<noteq> OBL_LOGICAL_UNASSIGNED \<and> physical_address x \<noteq> OBL_PHYSICAL_UNASSIGNED \<and>
     obj_shape x = fixed_ptr w OBL_INTEGER_SHAPE_ADDR \<and>
     obj_storage x = Integer_storage \<lparr>integer_value = v\<rparr> \<and> unat (physical_address x) + 2 \<le> n"

abbreviation integer_words :: "obl_int \<Rightarrow> obl_uint list" where
  "integer_words v \<equiv> [writable_logical (fixed_addr OBL_INTEGER_SHAPE_ADDR), writable_int v]"

definition number_set ::
    "world \<Rightarrow> obl_session \<Rightarrow> obl_database \<Rightarrow> memory \<Rightarrow> ptr \<Rightarrow> obl_object \<Rightarrow> obl_int \<Rightarrow> world \<Rightarrow> bool" where
  "number_set w r db m p x v w' \<longleftrightarrow>
     heap w' = (heap w)(p \<mapsto> x\<lparr>obj_storage := Integer_storage \<lparr>integer_value = v\<rparr>\<rparr>) \<and>
     databases w' = (databases w)(ses_database r \<mapsto> db\<lparr>content :=
       Some (store_words m (unat (physical_address x)) (integer_words v))\<rparr>) \<and>
     sessions w' = sessions w \<and> transactions w' = (transactions w)(next_ptr w := None) \<and>
     next_ptr w' = Suc (next_ptr w) \<and> fixed_space w' = fixed_space w \<and>
     malloc_budget w' = malloc_budget w"

lemma written_number:
  assumes "fixed_ok w" "stored_number w s (capacity m) p x v" "written_to w [p] m m'"
  shows "m' = store_words m (unat (physical_address x)) (integer_words v)"
proof -
  let ?b = "unat (physical_address x)"
  have x: "heap w p = Some x" "obj_shape x = fixed_ptr w OBL_INTEGER_SHAPE_ADDR"
    "obj_storage x = Integer_storage \<lparr>integer_value = v\<rparr>"
    using assms(2) by (simp_all add: stored_number_def)
  have "holds_object m' w p" using assms(3) by (simp add: written_to_def)
  then obtain a where "fixed_ptr w OBL_INTEGER_SHAPE_ADDR = fixed_ptr w a"
    "cells m' ?b = writable_logical (fixed_addr a)" "cells m' (?b + 1) = writable_int v"
    using x by (auto simp: holds_object_def)
  then have "cells m' ?b = writable_logical (fixed_addr OBL_INTEGER_SHAPE_ADDR)"
    "cells m' (Suc ?b) = writable_int v"
    using fixed_ptr_inj [OF assms(1)] by auto
  moreover have "cells m' j = cells m j" if "j < ?b \<or> Suc ?b < j" for j
    using assms(3) x that by (auto simp: written_to_def object_words_def)
  moreover have "capacity m' = capacity m" using assms(3) by (simp add: written_to_def)
  ultimately show ?thesis
    by (intro memory_eqI) (auto simp: nth_Cons' less_Suc_eq)
qed

lemma number_writable:
  assumes "stored_number w s n p x v"
  shows "writable_set w s n [p]"
  using assms by (auto simp: stored_number_def writable_set_def persistent_def
      intro!: exI [of _ OBL_INTEGER_SHAPE_ADDR])

lemma commit_number_run:
  assumes "fixed_ok w" "in_transaction w s (r\<lparr>current_transaction := t\<rparr>) t tx (one_dirty x' p)"
    and "commits_to w s r db m" "stored_number w s (capacity m) p x v"
  shows "\<exists>w'. obl_commit_transaction k t w = Ok 0 w' \<and> after_commit w s (r\<lparr>current_transaction := t\<rparr>) t db
     (store_words m (unat (physical_address x)) (integer_words v)) w'"
proof -
  let ?r = "r\<lparr>current_transaction := t\<rparr>"
  have one: "map snd (entries (set_root (one_dirty x' p))) = [p]" by (simp add: one_dirty_def)
  have c: "databases w (ses_database ?r) = Some db" "ses_database ?r \<noteq> NULL" "0 < content_mutex db"
    "0 < session_list_mutex db" "content db = Some m" "capacity m < 2 ^ 31"
    "\<And>other. other \<in> set (session_list db) \<Longrightarrow> other \<noteq> s \<Longrightarrow>
       without_copies w (map snd (entries (set_root (one_dirty x' p)))) other"
    using assms(3) by (auto simp: commits_to_def)
  from commit_run [OF assms(1,2) c(1-6) _ c(7), of k] obtain m' w' where
    "obl_commit_transaction k t w = Ok 0 w'" "after_commit w s ?r t db m' w'" "written_to w [p] m m'"
    using number_writable [OF assms(4)] unfolding one by blast
  with written_number [OF assms(1,4)] show ?thesis by blast
qed

lemma integer_set_commits_run:
  assumes "world_ok w" "malloc_budget w = None" "idle_session w s r" "commits_to w s r db m"
    and "stored_number w s (capacity m) p x i"
  shows "\<exists>w'. obl_integer_set (knot (Suc n)) p v w = Ok () w' \<and> number_set w r db m p x v w'"
proof -
  let ?t = "next_ptr w"
  let ?r = "r\<lparr>current_transaction := ?t\<rparr>"
  let ?x = "x\<lparr>obj_storage := Integer_storage \<lparr>integer_value = v\<rparr>\<rparr>"
  have ok: "fixed_ok w" "0 < ?t" using assms(1) by (simp_all add: world_ok_def fresh_def)
  have x: "heap w p = Some x" "obj_session x = s" "obj_shape x = fixed_ptr w OBL_INTEGER_SHAPE_ADDR"
    "obj_storage x = Integer_storage \<lparr>integer_value = i\<rparr>"
    using assms(5) by (simp_all add: stored_number_def)
  define w1 where "w1 = marked p x ?t \<lparr>tx_session = s, write_set = Some empty_set\<rparr> empty_set (opened s r w)"
  let ?w2 = "put_object p ?x w1"
  let ?change = "bindM (integer_storage_of p) (\<lambda>st. update_object p
       (\<lambda>x. x\<lparr>obj_storage := Integer_storage (st\<lparr>integer_value := v\<rparr>)\<rparr>))"
  have f1: "heap w1 = heap w" "fixed_space w1 = fixed_space w" "databases w1 = databases w"
    "fixed_ptr w1 a = fixed_ptr w a" "next_ptr w1 = Suc ?t" for a
    by (simp_all add: w1_def fixed_ptr_def)
  have change: "?change w1 = Ok () ?w2"
    using x by (simp add: f1 bindM_run integer_storage_of_def get_run retM_run update_object_run)
  note modify = modify_opens [where change = ?change, OF assms(2) ok(2) assms(3) x(1,2) w1_def change]
  have "p \<noteq> fixed_ptr w a" for a
    using typed_not_fixed [OF ok(1) typed_instance [OF ok(1) x(1,3)]] by simp
  then have "world_ok ?w2"
    using world_ok_opened [OF assms(1)] x(1) f1 by (intro world_ok_put) (simp_all add: w1_def)
  then have ok2: "fixed_ok ?w2" by (simp add: world_ok_def)
  have "in_transaction ?w2 s ?r ?t \<lparr>tx_session = s, write_set = Some (one_dirty x p)\<rparr> (one_dirty x p)"
    using modify(2) by (simp add: in_transaction_def)
  moreover have "commits_to ?w2 s r db m" using assms(4) by (simp add: commits_to_def f1)
  moreover have "stored_number ?w2 s (capacity m) p ?x v"
    using assms(5) by (simp add: stored_number_def f1)
  ultimately obtain w' where w': "obl_commit_transaction (knot n) ?t ?w2 = Ok 0 w'"
    "after_commit ?w2 s ?r ?t db (store_words m (unat (physical_address x)) (integer_words v)) w'"
    using commit_number_run [OF ok2, where x = ?x and v = v and k = "knot n"] by fastforce
  have run: "obl_integer_set (knot (Suc n)) p v w = Ok () w'"
    using storage_of_instance [OF ok(1) x(1,3)] modify(1) w'(1)
    by (simp add: obl_integer_set_def bindM_run retM_run knot.simps(2))
  have "heap ?w2 = (heap w)(p \<mapsto> ?x)" by (simp add: put_object_def f1)
  moreover have "(sessions w1)(s \<mapsto> r\<lparr>current_transaction := NULL\<rparr>) = sessions w"
    using assms(3) by (cases r) (simp add: w1_def idle_session_def fun_upd_idem)
  moreover have "(transactions w1)(?t := None) = (transactions w)(?t := None)"
    "malloc_budget w1 = malloc_budget w"
    by (simp_all add: w1_def marked_def)
  ultimately have "number_set w r db m p x v w'"
    using w'(2) by (simp add: number_set_def after_commit_def f1)
  with run show ?thesis by blast
qed

lemma number_typed:
  assumes "fixed_ok w" "stored_number w s n p x v"
  shows "typed_at w p OBL_INTEGER"
  using assms typed_instance [OF assms(1), of p x OBL_INTEGER_SHAPE_ADDR] by (simp add: stored_number_def)

lemma number_set_world_ok:
  assumes "world_ok w" "stored_number w s n p x i" "number_set w r db m p x v w'"
  shows "world_ok w'"
proof -
  let ?w1 = "put_object p (x\<lparr>obj_storage := Integer_storage \<lparr>integer_value = v\<rparr>\<rparr>) w"
  have ok: "fixed_ok w" using assms(1) by (simp add: world_ok_def)
  have "p \<noteq> fixed_ptr w b" for b using typed_not_fixed [OF ok number_typed [OF ok assms(2)]] by simp
  moreover have "heap w p = Some x" using assms(2) by (simp add: stored_number_def)
  ultimately have "world_ok (used_pointer ?w1)" by (intro world_ok_used world_ok_put(1) [OF assms(1)])
  then show ?thesis
    using assms(3) by (subst world_ok_cong [of _ "used_pointer ?w1"]) (simp_all add: number_set_def put_object_def)
qed

section \<open>Properties\<close>

text \<open>
  C9: Setting an integer outside of a transaction, when the object has its place in the database and no
  other session is open: the object and its two words in the database get the value, every other object
  and word stays as it is, and the transaction that was opened for the change is gone again.
\<close>

theorem integer_set_commits:
  assumes "world_ok w" "malloc_budget w = None" "idle_session w s r" "commits_to w s r db m"
    and "stored_number w s (capacity m) p x i"
  shows "\<exists>w'. obl_integer_set (knot (Suc n)) p v w = Ok () w' \<and>
     heap w' = (heap w)(p \<mapsto> x\<lparr>obj_storage := Integer_storage \<lparr>integer_value = v\<rparr>\<rparr>) \<and>
     databases w' = (databases w)(ses_database r \<mapsto> db\<lparr>content :=
       Some (store_words m (unat (physical_address x)) (integer_words v))\<rparr>) \<and>
     sessions w' = sessions w \<and> transactions w' = (transactions w)(next_ptr w := None) \<and> world_ok w'"
proof -
  obtain w' where w': "obl_integer_set (knot (Suc n)) p v w = Ok () w'" "number_set w r db m p x v w'"
    using integer_set_commits_run [OF assms] by blast
  with number_set_world_ok [OF assms(1,5)] show ?thesis by (auto simp: number_set_def)
qed

lemma integer_set_commits_witness:
  "\<exists>w'. obl_integer_set (knot 1) (next_ptr started_world) 42
       (add_object (integer_object started_world) (example_world \<lparr>cells = (\<lambda>_. 0), capacity = 64\<rparr>)) = Ok () w' \<and>
     (\<exists>m. has_content w' 20 m \<and> cells m 10 = writable_int 42) \<and> sessions w' 21 = Some (session_at 20)"
proof -
  let ?m = "\<lparr>cells = (\<lambda>_. 0), capacity = 64\<rparr> :: memory"
  let ?w = "example_world ?m" and ?x = "integer_object started_world"
  let ?w1 = "add_object ?x ?w"
  have ptr: "next_ptr started_world = next_ptr ?w" "fixed_ptr ?w1 = fixed_ptr started_world"
    by (simp_all add: example_world_def fixed_ptr_def fun_eq_iff)
  have "world_ok ?w1" by (rule world_ok_add) simp
  moreover have "idle_session ?w1 21 (session_at 20)"
    by (simp add: idle_session_def session_at_def)
  moreover have "commits_to ?w1 21 (session_at 20) (plain_database ?m) ?m"
    by (simp add: commits_to_def session_at_def plain_database_def)
  moreover have "stored_number ?w1 21 (capacity ?m) (next_ptr ?w) ?x 1"
    by (simp add: stored_number_def ptr)
  ultimately obtain w' where "obl_integer_set (knot (Suc 0)) (next_ptr ?w) 42 ?w1 = Ok () w'"
    "databases w' = (databases ?w1)(ses_database (session_at 20) \<mapsto> (plain_database ?m)\<lparr>content :=
       Some (store_words ?m (unat (physical_address ?x)) (integer_words 42))\<rparr>)"
    "sessions w' = sessions ?w1"
    using integer_set_commits [of ?w1 21 "session_at 20" "plain_database ?m" ?m "next_ptr ?w" ?x 1 0 42] by auto
  then show ?thesis
    by (auto simp: ptr has_content_def session_at_def)
qed

end
