(* ===== verification/ExtentFacts.thy ===== *)
theory ExtentFacts
  imports Database StoreFacts
begin

text \<open>
  What mapping, growing, closing and opening again do to the words of a database, and the root in its
  first words.
\<close>

section \<open>Mapped files\<close>

definition page_words_of :: "nat \<Rightarrow> nat" where
  "page_words_of len = (len + PAGE_SIZE - 1) div PAGE_SIZE * PAGE_SIZE div 4"

lemma content_updates:
  "db\<lparr>content_size := n, content := c\<rparr> = db\<lparr>content := c, content_size := n\<rparr>"
  by (cases db) simp

lemma capacity_update: "m\<lparr>capacity := n\<rparr> = \<lparr>cells = cells m, capacity = n\<rparr>"
  by (cases m) simp

lemma map_database_run:
  assumes "databases w d = Some db" "filename (configuration db) = Some path"
    and "files w path = Some f" "\<And>call. \<not> refused w call path" "file_bytes f < 2 ^ 32"
  shows "i_obl_map_database d w = Ok False (w\<lparr>databases := (databases w)(d \<mapsto>
     db\<lparr>content := Some \<lparr>cells = file_words f, capacity = page_words_of (file_bytes f div 4)\<rparr>,
        content_size := word_of_nat (file_bytes f div 4)\<rparr>)\<rparr>)"
proof -
  have small: "unat (word_of_nat (file_bytes f div 4) :: obl_uint) = file_bytes f div 4"
    using assms(5) by simp
  show ?thesis
    using assms(1-4) small
    by (simp add: i_obl_map_database_def open_file_def stat_file_def map_file_def page_words_of_def
        bindM_run thenM_run get_run update_run getsM_run retM_run Let_def content_updates)
qed

lemma read_mapped:
  assumes "databases w d = Some db" "content db = Some \<lparr>cells = g, capacity = n\<rparr>"
  shows "read_cell d i w = (if unat i < n then Ok (g (unat i)) w else Fault OutOfBounds)"
  using read_cell_run [of w d "\<lparr>cells = g, capacity = n\<rparr>" i] assms by (simp add: has_content_def)


lemma page_words_of_eq: "page_words_of n = 1024 * ((n + 4095) div 4096)"
  by (simp add: page_words_of_def PAGE_SIZE_def)

lemma page_words_of_mono: "m \<le> n \<Longrightarrow> page_words_of m \<le> page_words_of n"
  by (simp add: page_words_of_eq div_le_mono)

lemma page_words_of_short: "1024 < n \<Longrightarrow> page_words_of n < n"
proof -
  assume "1024 < n"
  have "4096 * ((n + 4095) div 4096) \<le> n + 4095" by (rule times_div_less_eq_dividend)
  moreover have "(n + 4095) div 4096 = 1" if "n \<le> 4096"
    using that \<open>1024 < n\<close> by (intro div_nat_eqI) simp_all
  ultimately show ?thesis using \<open>1024 < n\<close> by (cases "n \<le> 4096") (simp_all add: page_words_of_eq)
qed

lemma page_words_of_one: "\<lbrakk>0 < n; n \<le> 4096\<rbrakk> \<Longrightarrow> page_words_of n = 1024"
proof -
  assume "0 < n" "n \<le> 4096"
  then have "(n + 4095) div 4096 = 1" by (intro div_nat_eqI) simp_all
  then show ?thesis by (simp add: page_words_of_eq)
qed

text \<open>The length that \<open>munmap\<close> is given reaches behind the mapping exactly from 1025 words on.\<close>

lemma unmapped_pages:
  assumes "0 < n"
  shows "4 * page_words_of n < (4 * n + PAGE_SIZE - 1) div PAGE_SIZE * PAGE_SIZE \<longleftrightarrow> 1024 < n"
proof (cases "n \<le> 1024")
  case True
  then have "(4 * n + 4095) div 4096 = 1" using assms by (intro div_nat_eqI) simp_all
  then show ?thesis using True page_words_of_one [of n] assms by (simp add: PAGE_SIZE_def)
next
  case False
  have "n + 4095 + 1 * 4096 \<le> 4 * n + 4095" if "4096 < n" using that by simp
  then have "(n + 4095) div 4096 + 1 \<le> (4 * n + 4095) div 4096" if "4096 < n"
    using that div_le_mono [of "n + 4095 + 1 * 4096" "4 * n + 4095" 4096] by simp
  moreover have "2 \<le> (4 * n + 4095) div 4096"
    using False div_le_mono [of 8192 "4 * n + 4095" 4096] by simp
  moreover have "(n + 4095) div 4096 = 1" if "n \<le> 4096"
    using that False by (intro div_nat_eqI) simp_all
  ultimately have "(n + 4095) div 4096 < (4 * n + 4095) div 4096"
    by (cases "n \<le> 4096") simp_all
  then show ?thesis using False by (simp add: page_words_of_eq PAGE_SIZE_def)
qed

definition written_back :: "memory \<Rightarrow> disk_file \<Rightarrow> disk_file" where
  "written_back m f = f\<lparr>file_words := (\<lambda>i. if i < capacity m
     then take_bit (8 * (file_bytes f - 4 * i)) (cells m i) else file_words f i)\<rparr>"

lemma unmap_database_run:
  assumes "databases w d = Some db" "filename (configuration db) = Some path"
    and "content db = Some m" "files w path = Some f"
    and "content_size db = word_of_nat n" "n < 2 ^ 30" "capacity m = page_words_of n"
  shows "i_obl_unmap_database d w = (if n \<le> 1024
     then Ok () (w\<lparr>databases := (databases w)(d \<mapsto> db\<lparr>content := None, content_size := 0\<rparr>),
       files := (files w)(path \<mapsto> written_back m f)\<rparr>)
     else Fault OutOfBounds)"
proof (cases "n = 0")
  case True
  then have "capacity m = 0" using assms(7) by (simp add: page_words_of_eq)
  moreover from this have "written_back m f = f" by (simp add: written_back_def)
  moreover have "(files w)(path \<mapsto> f) = files w" using assms(4) by (simp add: fun_upd_idem)
  ultimately show ?thesis
    using assms True
    by (simp add: i_obl_unmap_database_def unmap_file_def bindM_run thenM_run get_run update_run
        retM_run)
next
  case False
  then have "unat (content_size db) = n" "capacity m \<noteq> 0"
    "4 * page_words_of n < (n * 4 + PAGE_SIZE - Suc 0) div PAGE_SIZE * PAGE_SIZE \<longleftrightarrow> 1024 < n"
    using assms(5-7) unmapped_pages [of n] by (simp_all add: page_words_of_eq mult.commute)
  then show ?thesis
    using assms(1-4,7) False
    by (simp add: i_obl_unmap_database_def unmap_file_def bindM_run thenM_run get_run update_run
        modifyM_run failM_run written_back_def)
qed

text \<open>Writing the root.\<close>

definition root_words :: "obl_root \<Rightarrow> memory \<Rightarrow> memory" where
  "root_words r m = store (store (store (store m 1 (writable_physical (address_map_addr r)))
      2 (writable_logical (allocator_addr r))) 3 (writable_logical (shape_map_addr r)))
      4 (writable_logical (name_map_addr r))"

lemma write_root_run:
  assumes "databases w d = Some db" "content db = Some m" "4 < capacity m"
  shows "i_write_root d w = Ok () (w\<lparr>databases := (databases w)(d \<mapsto>
     db\<lparr>content := Some (root_words (root db) m), root := (root db)\<lparr>dirty := False\<rparr>\<rparr>)\<rparr>)"
proof -
  let ?w = "put_content d (root_words (root db) m) w"
  have "has_content w d m" using assms(1,2) by (simp add: has_content_def)
  moreover have w: "databases ?w d = Some (db\<lparr>content := Some (root_words (root db) m)\<rparr>)"
    using assms(1) by (simp add: put_content_def)
  ultimately have "i_write_root d w = Ok () (?w\<lparr>databases := (databases ?w)(d \<mapsto>
      db\<lparr>content := Some (root_words (root db) m), root := (root db)\<lparr>dirty := False\<rparr>\<rparr>)\<rparr>)"
    using assms
    by (simp add: i_write_root_def bindM_run thenM_run get_run update_run write_cell_run
        ADDRMAP_ADDR_def ALLOCATOR_ADDR_def NAMEMAP_ADDR_def SHAPEMAP_ADDR_def Let_def
        root_words_def)
  then show ?thesis by (simp add: put_content_def)
qed

text \<open>Reading it back: the two maps change places.\<close>

lemma read_root_run:
  assumes "databases w d = Some db" "content db = Some m" "4 < capacity m"
  shows "i_read_root d w = Ok () (w\<lparr>databases := (databases w)(d \<mapsto> db\<lparr>root :=
     \<lparr>address_map_addr = readable_physical (cells m 1), allocator_addr = readable_logical (cells m 2),
      shape_map_addr = readable_logical (cells m 4), name_map_addr = readable_logical (cells m 3),
      dirty = False\<rparr>\<rparr>)\<rparr>)"
proof -
  have "has_content w d m" using assms(1,2) by (simp add: has_content_def)
  then show ?thesis
    using assms
    by (simp add: i_read_root_def bindM_run update_run read_cell_run
        ADDRMAP_ADDR_def ALLOCATOR_ADDR_def NAMEMAP_ADDR_def SHAPEMAP_ADDR_def)
qed

section \<open>Properties\<close>

text \<open>
  C36: Mapping a file of n words makes n the size of the database, but maps only the pages of its
  first n bytes: exactly the words below 1024 times the number of these pages can be accessed, fewer
  than there are as soon as the file has more than 1024 words.
\<close>

theorem mapped_words:
  assumes "databases w d = Some db" "filename (configuration db) = Some path"
    and "files w path = Some f" "\<And>call. \<not> refused w call path"
    and "file_bytes f = 4 * n" "n < 2 ^ 30"
  shows "\<exists>w'. i_obl_map_database d w = Ok False w' \<and>
     map_option content_size (databases w' d) = Some (word_of_nat n) \<and>
     (\<forall>i. read_cell d i w' = (if unat i < 1024 * ((n + 4095) div 4096)
        then Ok (file_words f (unat i)) w' else Fault OutOfBounds)) \<and>
     (1024 < n \<longrightarrow> 1024 * ((n + 4095) div 4096) < n)"
proof -
  let ?db = "db\<lparr>content := Some \<lparr>cells = file_words f, capacity = page_words_of n\<rparr>,
     content_size := word_of_nat n\<rparr>"
  let ?w = "w\<lparr>databases := (databases w)(d \<mapsto> ?db)\<rparr>"
  have "i_obl_map_database d w = Ok False ?w"
    using map_database_run [OF assms(1-4)] assms(5,6) by simp
  moreover have "read_cell d i ?w = (if unat i < page_words_of n then Ok (file_words f (unat i)) ?w
      else Fault OutOfBounds)" for i
    by (rule read_mapped [of _ _ ?db]) simp_all
  moreover have "1024 < n \<longrightarrow> page_words_of n < n" using page_words_of_short by blast
  ultimately show ?thesis unfolding page_words_of_eq [symmetric] by (intro exI [of _ ?w]) simp
qed

definition file_database :: obl_database where
  "file_database = (let db = plain_database \<lparr>cells = (\<lambda>_. 0), capacity = 0\<rparr>
     in db\<lparr>configuration := (configuration db)\<lparr>filename := Some ''db''\<rparr>\<rparr>)"

definition file_world :: world where
  "file_world = initial_world\<lparr>databases := [20 \<mapsto> file_database],
     files := [''db'' \<mapsto> \<lparr>file_bytes = 8192, file_words = (\<lambda>i. word_of_nat i)\<rparr>]\<rparr>"

text \<open>The same with a file of n words whose first page is mapped and changed.\<close>

definition mapped_file_world :: "nat \<Rightarrow> world" where
  "mapped_file_world n = initial_world\<lparr>databases := [20 \<mapsto> file_database\<lparr>content :=
     Some \<lparr>cells = (\<lambda>_. 99), capacity = 1024\<rparr>, content_size := word_of_nat n\<rparr>],
     files := [''db'' \<mapsto> \<lparr>file_bytes = 4 * n, file_words = (\<lambda>i. word_of_nat i)\<rparr>]\<rparr>"

text \<open>An in-memory database with a name map at address 7.\<close>

definition swapped_world :: world where
  "swapped_world = (let db = plain_database \<lparr>cells = (\<lambda>_. 0), capacity = 64\<rparr>
     in initial_world\<lparr>databases := [20 \<mapsto> db\<lparr>root := (root db)\<lparr>name_map_addr := 7\<rparr>\<rparr>]\<rparr>)"

lemma mapped_words_witness:
  "\<exists>w'. i_obl_map_database 20 file_world = Ok False w' \<and> read_cell 20 1023 w' = Ok 1023 w' \<and>
     read_cell 20 1024 w' = Fault OutOfBounds"
proof -
  let ?m = "\<lparr>cells = (\<lambda>_. 0), capacity = 0\<rparr> :: memory"
  let ?f = "\<lparr>file_bytes = 8192, file_words = (\<lambda>i. word_of_nat i)\<rparr> :: disk_file"
  have "\<exists>w'. i_obl_map_database 20 file_world = Ok False w' \<and>
     map_option content_size (databases w' 20) = Some (word_of_nat 2048) \<and>
     (\<forall>i. read_cell 20 i w' = (if unat i < 1024 * ((2048 + 4095) div 4096)
        then Ok (file_words ?f (unat i)) w' else Fault OutOfBounds)) \<and>
     (1024 < (2048 :: nat) \<longrightarrow> 1024 * ((2048 + 4095) div 4096) < (2048 :: nat))"
    by (rule mapped_words [where path = "''db''" and db = file_database])
      (simp_all add: file_world_def initial_world_def file_database_def plain_database_def)
  then show ?thesis by auto
qed

text \<open>
  C37: Growing an in-memory database adds the growth size to the number of its words, but \<open>realloc\<close>
  takes this number as bytes: only a quarter of the words can be accessed afterwards. Those that
  could be accessed before have what they held, the others are indeterminate, and all words from the
  quarter on are lost.
\<close>

theorem grown_memory:
  assumes "databases w d = Some db" "filename (configuration db) = None" "content db = Some m"
    and "0 < content_mutex db" "malloc_budget w = None"
  shows "\<exists>w' s m'. i_grow_database d w = Ok () w' \<and>
     s = content_size db + word_of_int (growth_size (configuration db)) \<and>
     databases w' = (databases w)(d \<mapsto> db\<lparr>content := Some m', content_size := s\<rparr>) \<and>
     capacity m' = unat s div 4 \<and>
     (\<forall>i. read_cell d i w' =
        (if unat i < unat s div 4
         then Ok (if unat i < capacity m then cells m (unat i) else fresh_words w (unat i)) w'
         else Fault OutOfBounds))"
proof -
  let ?s = "content_size db + word_of_int (growth_size (configuration db))"
  let ?m = "reallocated (Some m) (unat ?s) (fresh_words w)"
  let ?db = "db\<lparr>content := Some ?m, content_size := ?s\<rparr>"
  let ?w = "w\<lparr>databases := (databases w)(d \<mapsto> ?db)\<rparr>"
  have "db\<lparr>content := c, content_size := n, content_mutex := Suc (content_mutex db - Suc 0)\<rparr> =
      db\<lparr>content := c, content_size := n\<rparr>" for c n
    using assms(4) by (cases db) simp
  then have "i_grow_database d w = Ok () ?w"
    using assms
    by (simp add: i_grow_database_def wait_content_mutex_def post_content_mutex_def bindM_run
        thenM_run get_run getsM_run update_run malloc_run Let_def content_updates)
  moreover have "read_cell d i ?w = (if unat i < unat ?s div 4
      then Ok (if unat i < capacity m then cells m (unat i) else fresh_words w (unat i)) ?w
      else Fault OutOfBounds)" for i
    using read_mapped [of ?w d ?db "cells ?m" "capacity ?m" i] by (simp add: reallocated_def)
  moreover have "capacity ?m = unat ?s div 4" by (simp add: reallocated_def)
  ultimately show ?thesis by (intro exI [of _ ?w] exI [of _ ?s] exI [of _ ?m]) simp
qed

lemma grown_memory_witness:
  "\<exists>w'. i_grow_database 20 (database_world \<lparr>cells = (\<lambda>i. word_of_nat i), capacity = 4096\<rparr>) = Ok () w' \<and>
     read_cell 20 2047 w' = Ok 2047 w' \<and> read_cell 20 2048 w' = Fault OutOfBounds"
proof -
  let ?m = "\<lparr>cells = (\<lambda>i. word_of_nat i), capacity = 4096\<rparr> :: memory"
  let ?db = "plain_database ?m"
  have "databases (database_world ?m) 20 = Some ?db" "filename (configuration ?db) = None"
    "content ?db = Some ?m" "0 < content_mutex ?db" "malloc_budget (database_world ?m) = None"
    by (simp_all add: database_world_def plain_database_def initial_world_def)
  from grown_memory [OF this] show ?thesis by (auto simp: plain_database_def)
qed

text \<open>
  C35: Growing a file-backed database whose file is mapped. Up to 1024 words, the file gets longer by
  the growth size, the number of words is that of the longer file, and every word of the old file
  still has its value, also those that were changed since the file was mapped. With more than 1024
  words it does not come to this: \<open>munmap\<close> is given the number of words times four, \<open>mmap\<close> was given the
  number of words, so pages behind the mapping are unmapped.
\<close>

theorem grown_file:
  assumes "databases w d = Some db" "filename (configuration db) = Some path" "content db = Some m"
    and "0 < content_mutex db" "files w path = Some f" "\<And>call. \<not> refused w call path"
    and "content_size db = word_of_nat (file_bytes f div 4)"
    and "capacity m = 1024 * ((file_bytes f div 4 + 4095) div 4096)"
    and "0 < growth_size (configuration db)"
    and "new_bytes = file_bytes f + nat (growth_size (configuration db))" "new_bytes < 2 ^ 32"
  shows "if file_bytes f div 4 \<le> 1024
     then \<exists>w'. i_grow_database d w = Ok () w' \<and>
       map_option file_bytes (files w' path) = Some new_bytes \<and>
       map_option content_size (databases w' d) = Some (word_of_nat (new_bytes div 4)) \<and>
       (\<forall>i. unat i < file_bytes f div 4 \<longrightarrow> read_cell d i w' = Ok (cells m (unat i)) w')
     else i_grow_database d w = Fault OutOfBounds"
proof -
  let ?g = "growth_size (configuration db)"
  let ?n = "file_bytes f div 4"
  let ?db0 = "db\<lparr>content_mutex := content_mutex db - Suc 0\<rparr>"
  let ?w0 = "w\<lparr>databases := (databases w)(d \<mapsto> ?db0)\<rparr>"
  have wait: "wait_content_mutex d w = Ok () ?w0"
    using assms(1,4) by (simp add: wait_content_mutex_def bindM_run get_run update_run)
  have "content_size ?db0 = word_of_nat ?n" "?n < 2 ^ 30" "capacity m = page_words_of ?n"
    using assms(7,8,10,11) by (simp_all add: page_words_of_eq)
  note unmap = unmap_database_run [of ?w0 d ?db0 path m f, OF _ _ _ _ this]
  show ?thesis
  proof (cases "?n \<le> 1024")
    case False
    then show ?thesis using wait unmap assms(1-3,5)
      by (simp add: i_grow_database_def bindM_run thenM_run get_run)
  next
    case True
    let ?db1 = "?db0\<lparr>content := None, content_size := 0\<rparr>"
    let ?f1 = "written_back m f"
    let ?at = "new_bytes - 1"
    let ?f2 = "\<lparr>file_bytes = new_bytes, file_words = (file_words ?f1)(?at div 4 :=
       file_words ?f1 (?at div 4) AND NOT (push_bit (8 * (?at mod 4)) 0xFF))\<rparr>"
    let ?w1 = "w\<lparr>databases := (databases w)(d \<mapsto> ?db1), files := (files w)(path \<mapsto> ?f1)\<rparr>"
    let ?w2 = "w\<lparr>databases := (databases w)(d \<mapsto> ?db1), files := (files w)(path \<mapsto> ?f2)\<rparr>"
    let ?db2 = "?db1\<lparr>content := Some \<lparr>cells = file_words ?f2, capacity = page_words_of (new_bytes div 4)\<rparr>,
       content_size := word_of_nat (new_bytes div 4)\<rparr>"
    have at: "\<not> int (file_bytes f) + (?g - 1) < 0" "max (file_bytes f) (Suc (new_bytes - Suc 0)) = new_bytes"
      "nat (int (file_bytes f) + (?g - 1)) = new_bytes - Suc 0"
      using assms(9,10) by auto
    have unmap: "i_obl_unmap_database d ?w0 = Ok () ?w1"
      using unmap assms(2,3,5) True by simp
    have extend: "extend_file path (?g - 1) ?w1 = Ok () ?w2"
      using assms(6) at
      by (simp add: extend_file_def bindM_run getsM_run modifyM_run Let_def written_back_def)
    have map: "i_obl_map_database d ?w2 = Ok False (?w2\<lparr>databases := (databases w)(d \<mapsto> ?db2)\<rparr>)"
      using map_database_run [of ?w2 d ?db1 path ?f2] assms(2,6,11) by simp
    let ?w' = "?w2\<lparr>databases := (databases w)(d \<mapsto> ?db2\<lparr>content_mutex := content_mutex db\<rparr>)\<rparr>"
    have "i_grow_database d w = Ok () ?w'"
      using wait unmap extend map assms(1-4)
      by (simp add: i_grow_database_def post_content_mutex_def bindM_run thenM_run get_run update_run)
    moreover have "read_cell d i ?w' = Ok (cells m (unat i)) ?w'" if i: "unat i < ?n" for i
    proof -
      have "unat i < capacity m" using page_words_of_one [of ?n] True i assms(8)
        by (simp flip: page_words_of_eq)
      moreover have "unat i < page_words_of (new_bytes div 4)"
        using calculation assms(8,10) page_words_of_mono [of ?n "new_bytes div 4"]
        by (simp add: page_words_of_eq [symmetric] div_le_mono)
      moreover have "?at div 4 \<noteq> unat i" using i assms(9,10) by auto
      moreover have "take_bit (8 * (file_bytes f - 4 * unat i)) (cells m (unat i)) = cells m (unat i)"
        using i by (intro take_bit_word_eq_self) simp
      ultimately show ?thesis
        using read_mapped [of ?w' d "?db2\<lparr>content_mutex := content_mutex db\<rparr>"]
        by (simp add: written_back_def)
    qed
    ultimately show ?thesis using True by (auto intro!: exI [of _ ?w'])
  qed
qed

text \<open>
  C38: The root of a database does not survive a round trip: what is read after writing it has the
  addresses of the name map and of the shape map exchanged.
\<close>

theorem root_round_trip:
  assumes "databases w d = Some db" "content db = Some m" "4 < capacity m"
  shows "\<exists>w1 w2. i_write_root d w = Ok () w1 \<and> i_read_root d w1 = Ok () w2 \<and>
     map_option root (databases w2 d) = Some \<lparr>address_map_addr = address_map_addr (root db),
       allocator_addr = allocator_addr (root db), shape_map_addr = name_map_addr (root db),
       name_map_addr = shape_map_addr (root db), dirty = False\<rparr>"
proof -
  let ?m = "root_words (root db) m"
  let ?db = "db\<lparr>content := Some ?m, root := (root db)\<lparr>dirty := False\<rparr>\<rparr>"
  let ?w1 = "w\<lparr>databases := (databases w)(d \<mapsto> ?db)\<rparr>"
  have "i_write_root d w = Ok () ?w1" by (rule write_root_run [OF assms])
  moreover have "databases ?w1 d = Some ?db" "content ?db = Some ?m" "4 < capacity ?m"
    using assms(3) by (simp_all add: root_words_def)
  note read_root_run [OF this]
  ultimately show ?thesis by (simp add: root_words_def codec_simps)
qed

lemma grown_file_witness:
  "(\<exists>w'. i_grow_database 20 (mapped_file_world 512) = Ok () w' \<and> read_cell 20 5 w' = Ok 99 w' \<and>
     map_option file_bytes (files w' ''db'') = Some 6144) \<and>
   i_grow_database 20 (mapped_file_world 2048) = Fault OutOfBounds"
proof -
  let ?m = "\<lparr>cells = (\<lambda>_. 99), capacity = 1024\<rparr> :: memory"
  let ?f = "\<lambda>n. \<lparr>file_bytes = 4 * n, file_words = (\<lambda>i. word_of_nat i)\<rparr> :: disk_file"
  let ?db = "\<lambda>n. file_database\<lparr>content := Some ?m, content_size := word_of_nat n\<rparr>"
  have world: "databases (mapped_file_world n) 20 = Some (?db n)"
    "filename (configuration (?db n)) = Some ''db''" "content (?db n) = Some ?m"
    "0 < content_mutex (?db n)" "files (mapped_file_world n) ''db'' = Some (?f n)"
    "\<not> refused (mapped_file_world n) call ''db''"
    "content_size (?db n) = word_of_nat (file_bytes (?f n) div 4)"
    "growth_size (configuration file_database) = 4096" for n call
    by (simp_all add: mapped_file_world_def initial_world_def file_database_def plain_database_def)
  have 1: "if file_bytes (?f n) div 4 \<le> 1024
     then \<exists>w'. i_grow_database 20 (mapped_file_world n) = Ok () w' \<and>
       map_option file_bytes (files w' ''db'') = Some (file_bytes (?f n) + 4096) \<and>
       map_option content_size (databases w' 20) = Some (word_of_nat ((file_bytes (?f n) + 4096) div 4)) \<and>
       (\<forall>i. unat i < file_bytes (?f n) div 4 \<longrightarrow> read_cell 20 i w' = Ok (cells ?m (unat i)) w')
     else i_grow_database 20 (mapped_file_world n) = Fault OutOfBounds" if "n = 512 \<or> n = 2048" for n
    by (rule grown_file [OF world(1-7)]) (use that in \<open>auto simp: world(8)\<close>)
  from 1 [of 512] obtain w' where "i_grow_database 20 (mapped_file_world 512) = Ok () w'"
    "map_option file_bytes (files w' ''db'') = Some 6144"
    "\<forall>i. unat i < 512 \<longrightarrow> read_cell 20 i w' = Ok 99 w'" by auto
  moreover from this(3) have "read_cell 20 5 w' = Ok 99 w'" by (auto dest: spec [of _ 5])
  ultimately show ?thesis using 1 [of 2048] by auto
qed

lemma root_round_trip_witness:
  "\<exists>w1 w2. i_write_root 20 swapped_world = Ok () w1 \<and> i_read_root 20 w1 = Ok () w2 \<and>
     map_option (name_map_addr \<circ> root) (databases swapped_world 20) = Some 7 \<and>
     map_option (name_map_addr \<circ> root) (databases w2 20) = Some 0"
proof -
  let ?db = "plain_database \<lparr>cells = (\<lambda>_. 0), capacity = 64\<rparr>"
  have "databases swapped_world 20 = Some (?db\<lparr>root := (root ?db)\<lparr>name_map_addr := 7\<rparr>\<rparr>)"
    by (simp add: swapped_world_def Let_def)
  from root_round_trip [OF this] obtain w1 w2 where "i_write_root 20 swapped_world = Ok () w1"
    "i_read_root 20 w1 = Ok () w2" "map_option root (databases w2 20) =
      Some \<lparr>address_map_addr = 12, allocator_addr = 1, shape_map_addr = 7, name_map_addr = 0, dirty = False\<rparr>"
    by (auto simp: plain_database_def)
  moreover from this have "map_option (name_map_addr \<circ> root) (databases w2 20) = Some 0"
    by (cases "databases w2 20") simp_all
  ultimately show ?thesis by (simp add: swapped_world_def Let_def)
qed

end
