(* ===== verification/Bootstrap.thy ===== *)
theory Bootstrap
  imports SlottedFacts CommitFacts ExtentFacts
begin

text \<open>
  Bootstrapping an empty in-memory database: the objects that are made for it, the words that they
  leave in the content, and what becomes of them when their session is destroyed.
\<close>

section \<open>Creating and destroying a session\<close>

definition new_session_on :: "ptr \<Rightarrow> obl_session" where
  "new_session_on d = \<lparr>ses_database = d, current_transaction = NULL,
     read_set = Some \<lparr>set_root = Tip, set_keyfunction = logical_address_keyfunction\<rparr>,
     session_mutex = 1\<rparr>"

lemma create_session_run:
  assumes "d \<noteq> NULL" "malloc_budget w = None" "databases w d = Some db" "0 < session_list_mutex db"
  shows "obl_create_session d w = Ok (next_ptr w)
     (w\<lparr>sessions := (sessions w)(next_ptr w \<mapsto> new_session_on d), next_ptr := Suc (next_ptr w),
        databases := (databases w)(d \<mapsto> db\<lparr>session_list := next_ptr w # session_list db\<rparr>)\<rparr>)"
proof -
  have "db\<lparr>session_list_mutex := session_list_mutex db - 1,
      session_list := l, session_list_mutex := Suc (session_list_mutex db - 1)\<rparr> =
      db\<lparr>session_list := l\<rparr>" for l
    using assms(4) by (cases db) simp
  then show ?thesis
    using assms
    by (simp add: obl_create_session_def bindM_run thenM_run malloc_run obl_create_set_def retM_run
        new_run wait_session_list_mutex_def post_session_list_mutex_def get_run update_run
        new_session_on_def obl_session_list_append_def)
qed

section \<open>The objects of an empty database\<close>

text \<open>An object without a session at two addresses.\<close>

definition placed :: "obl_logical_address \<Rightarrow> obl_physical_address \<Rightarrow> ptr \<Rightarrow> obl_storage \<Rightarrow> obl_object" where
  "placed l a shape st = \<lparr>obj_session = NULL, logical_address = l, physical_address = a,
     obj_shape = shape, obj_storage = st\<rparr>"

lemma placed_simps [simp]:
  "obj_session (placed l a s st) = NULL" "logical_address (placed l a s st) = l"
  "physical_address (placed l a s st) = a" "obj_shape (placed l a s st) = s"
  "obj_storage (placed l a s st) = st"
  "(plain_object s st)\<lparr>logical_address := l, physical_address := a\<rparr> = placed l a s st"
  "(plain_object s st)\<lparr>physical_address := a\<rparr> = placed 0 a s st"
  "(placed l a s st)\<lparr>obj_storage := st'\<rparr> = placed l a s st'"
  by (simp_all add: placed_def plain_object_def)

abbreviation placed_integer :: "world \<Rightarrow> obl_logical_address \<Rightarrow> obl_physical_address \<Rightarrow> obl_int \<Rightarrow> obl_object" where
  "placed_integer w l a i \<equiv>
     placed l a (fixed_ptr w OBL_INTEGER_SHAPE_ADDR) (Integer_storage \<lparr>integer_value = i\<rparr>)"

lemma integer_storage_run:
  assumes "fixed_ok w" "heap w p = Some (placed_integer w l a i)"
  shows "obl_storage_of p w = Ok OBL_INTEGER w"
  using storage_of_instance [OF assms, of OBL_INTEGER_SHAPE_ADDR] by simp

text \<open>One counter: the integer, at its addresses, and in its slot.\<close>

lemma bootstrap_counter_run:
  assumes "good_icu u" "world_ok w" "malloc_budget w = None" "slotted_object u w p x names vals"
    and "obj_session x = NULL" "length name < 2 ^ 30" "slot_position u names name = Some i"
    and "w' = put_object p (with_slots x (vals[i := next_ptr w]))
           (used_pointer (add_object (placed_integer w l a 0) w))"
  shows "bootstrap_counter u k p name l a w = Ok (next_ptr w, a + 2) w'"
    and "world_ok w'"
    and "slotted_object u w' p (with_slots x (vals[i := next_ptr w])) names (vals[i := next_ptr w])"
proof -
  let ?y = "placed_integer w l a 0"
  let ?w1 = "add_object ?y w"
  let ?x = "with_slots x (vals[i := next_ptr w])"
  have fresh: "fresh w" "0 < next_ptr w" "heap w (next_ptr w) = None"
    using assms(2) by (simp_all add: world_ok_def fresh_def)
  have x: "heap w p = Some x" "shape_with_slots u w (obj_shape x) names"
    using assms(4) by (simp_all add: slotted_object_def)
  have other: "p \<noteq> next_ptr w" using x(1) fresh(3) by auto
  have ok1: "world_ok ?w1" by (rule world_ok_add [OF assms(2)])
  have slotted1: "slotted_object u ?w1 p x names vals"
    using assms(4) keeps_slots [OF keeps_add [OF fresh(3)] x(2)] other
    by (simp add: slotted_object_def)
  have create: "obl_create_integer 0 w = Ok (next_ptr w) (add_object (plain_object
      (fixed_ptr w OBL_INTEGER_SHAPE_ADDR) (Integer_storage \<lparr>integer_value = 0\<rparr>)) w)"
    by (rule create_integer_run [OF assms(3) fresh(2)])
  have put: "obl_slotted_atcnamed_put u k p name (next_ptr w) ?w1 = Ok () w'"
    using slotted_atcnamed_put_run [OF assms(1) ok1 _ slotted1 assms(5,6,7), of k "next_ptr w"]
      assms(3,8) by simp
  show slotted: "slotted_object u w' p ?x names (vals[i := next_ptr w])"
    unfolding assms(8) by (rule slotted_put [OF slotted_used [OF slotted1]]) simp
  show ok: "world_ok w'"
    unfolding assms(8) by (rule world_ok_slotted [OF slotted_used [OF slotted1] world_ok_used [OF ok1]])
  have "obl_storage_of (next_ptr w) w' = Ok OBL_INTEGER w'"
    by (rule integer_storage_run [of _ _ l a 0])
      (use ok other in \<open>simp_all add: world_ok_def assms(8)\<close>)
  then have "obl_object_wordsize k (next_ptr w) w' = Ok 2 w'"
    by (simp add: obl_object_wordsize_def bindM_run retM_run)
  moreover have "set_addresses (next_ptr w) l a (add_object (plain_object
      (fixed_ptr w OBL_INTEGER_SHAPE_ADDR) (Integer_storage \<lparr>integer_value = 0\<rparr>)) w) = Ok () ?w1"
    by (simp add: set_addresses_def update_object_run)
  ultimately show "bootstrap_counter u k p name l a w = Ok (next_ptr w, a + 2) w'"
    using create put by (simp add: bootstrap_counter_def bindM_run thenM_run retM_run)
qed

text \<open>All objects: the allocator with its two counters, and the first page of the address map.\<close>

definition empty_page :: obl_storage where
  "empty_page = Addrtreepage_storage \<lparr>page_height = 0,
     page_contents = replicate CHUNK_SIZE OBL_PHYSICAL_UNASSIGNED\<rparr>"

definition bootstrapped :: "world \<Rightarrow> world" where
  "bootstrapped w =
     (let n = next_ptr w in
      w\<lparr>heap := (heap w)
         (n \<mapsto> placed 1 5 (fixed_ptr w OBL_ALLOCATOR_SHAPE_ADDR) (Slotted_storage \<lparr>slots = [n + 3, n + 1]\<rparr>),
          n + 1 \<mapsto> placed_integer w 2 8 0, n + 3 \<mapsto> placed_integer w 3 10 0,
          n + 5 \<mapsto> placed 0 12 (fixed_ptr w OBL_ADDRTREEPAGE_SHAPE_ADDR) empty_page),
        next_ptr := n + 6\<rparr>)"

abbreviation (input) allocator_with :: "world \<Rightarrow> ptr list \<Rightarrow> obl_object" where
  "allocator_with w vals \<equiv>
     placed 1 5 (fixed_ptr w OBL_ALLOCATOR_SHAPE_ADDR) (Slotted_storage \<lparr>slots = vals\<rparr>)"

lemma bootstrapped_eq:
  fixes w :: world
  defines "n \<equiv> next_ptr w"
  shows "add_object (placed 0 12 (fixed_ptr w OBL_ADDRTREEPAGE_SHAPE_ADDR) empty_page)
     (put_object n (allocator_with w [n + 3, n + 1]) (used_pointer (add_object (placed_integer w 3 10 0)
       (put_object n (allocator_with w [nil_ptr w, n + 1]) (used_pointer (add_object (placed_integer w 2 8 0)
         (add_object (allocator_with w [nil_ptr w, nil_ptr w]) w))))))) = bootstrapped w"
    (is "?w = _")
proof (rule world.equality)
  show "heap ?w = heap (bootstrapped w)"
    by (rule ext) (simp add: bootstrapped_def n_def Let_def eval_nat_numeral)
qed (simp_all add: bootstrapped_def n_def put_object_def add_object_def Let_def)

lemma bootstrap_allocator_run:
  assumes "world_ok w" "malloc_budget w = None"
    and "shape_with_slots u w (fixed_ptr w OBL_ALLOCATOR_SHAPE_ADDR) allocator_slots"
    and "w' = add_object (allocator_with w [nil_ptr w, nil_ptr w]) w"
  shows "\<exists>w1. obl_create_slotted k (fixed_ptr w OBL_ALLOCATOR_SHAPE_ADDR) w = Ok (next_ptr w) w1 \<and>
     set_addresses (next_ptr w) 1 5 w1 = Ok () w'"
    and "world_ok w'"
    and "slotted_object u w' (next_ptr w) (allocator_with w [nil_ptr w, nil_ptr w]) allocator_slots
       [nil_ptr w, nil_ptr w]"
proof -
  let ?s = "fixed_ptr w OBL_ALLOCATOR_SHAPE_ADDR"
  have fresh: "fresh w" "heap w (next_ptr w) = None"
    using assms(1) by (simp_all add: world_ok_def fresh_def)
  obtain sx where sx: "heap w ?s = Some sx" "obj_session sx = NULL"
    using assms(1) unfolding world_ok_def fixed_ok_def fixed_object_def fixed_content_def by blast
  show "\<exists>w1. obl_create_slotted k ?s w = Ok (next_ptr w) w1 \<and>
     set_addresses (next_ptr w) 1 5 w1 = Ok () w'"
    using create_slotted_run [OF assms(2) fresh(1) assms(3) sx, of k]
    by (simp add: numeral_2_eq_2 set_addresses_def update_object_run assms(4))
  show "world_ok w'" unfolding assms(4) by (rule world_ok_add [OF assms(1)])
  show "slotted_object u w' (next_ptr w) (allocator_with w [nil_ptr w, nil_ptr w]) allocator_slots
       [nil_ptr w, nil_ptr w]"
    using keeps_slots [OF keeps_add [OF fresh(2)] assms(3)] by (simp add: slotted_object_def assms(4))
qed

lemma bootstrap_objects_run:
  assumes "good_icu u" "world_ok w" "malloc_budget w = None"
    and "sessions w s = Some r" "databases w (ses_database r) = Some db"
    and "shape_with_slots u w (fixed_ptr w OBL_ALLOCATOR_SHAPE_ADDR) allocator_slots"
    and "converted u ''next_logical'' \<noteq> converted u ''next_physical''"
  shows "bootstrap_objects u (knot (Suc i)) s w =
     Ok (next_ptr w, next_ptr w + 1, next_ptr w + 3, next_ptr w + 5, 270) (bootstrapped w)"
    and "world_ok (bootstrapped w)"
    and "slotted_object u (bootstrapped w) (next_ptr w)
       (allocator_with w [next_ptr w + 3, next_ptr w + 1]) allocator_slots
       [next_ptr w + 3, next_ptr w + 1]"
proof -
  let ?k = "knot (Suc i)" and ?n = "next_ptr w" and ?nil = "nil_ptr w"
  let ?x = "allocator_with w"
  note pos = allocator_positions [OF assms(7)]
  define w1 where "w1 = add_object (?x [?nil, ?nil]) w"
  note w1 = bootstrap_allocator_run [OF assms(2,3,6) w1_def]
  have frame1: "malloc_budget w1 = None" "next_ptr w1 = ?n + 1" "fixed_space w1 = fixed_space w"
    by (simp_all add: w1_def assms(3))
  define w2 where "w2 = put_object ?n (with_slots (?x [?nil, ?nil]) ([?nil, ?nil][1 := next_ptr w1]))
      (used_pointer (add_object (placed_integer w1 2 8 0) w1))"
  have "obj_session (?x [?nil, ?nil]) = NULL" "length ''next_physical'' < 2 ^ 30" by simp_all
  note w2 = bootstrap_counter_run [OF assms(1) w1(2) frame1(1) w1(3) this pos [THEN conjunct2] w2_def]
  have frame2: "malloc_budget w2 = None" "next_ptr w2 = ?n + 3" "fixed_space w2 = fixed_space w"
    by (simp_all add: w2_def frame1)
  have slotted2: "slotted_object u w2 ?n (?x [?nil, ?n + 1]) allocator_slots [?nil, ?n + 1]"
    using w2(3) by (simp add: frame1)
  define w3 where "w3 = put_object ?n (with_slots (?x [?nil, ?n + 1]) ([?nil, ?n + 1][0 := next_ptr w2]))
      (used_pointer (add_object (placed_integer w2 3 10 0) w2))"
  have "obj_session (?x [?nil, ?n + 1]) = NULL" "length ''next_logical'' < 2 ^ 30" by simp_all
  note w3 = bootstrap_counter_run [OF assms(1) w2(2) frame2(1) slotted2 this pos [THEN conjunct1] w3_def]
  have frame3: "malloc_budget w3 = None" "next_ptr w3 = ?n + 5" "fixed_space w3 = fixed_space w"
    by (simp_all add: w3_def frame2)
  let ?y = "placed 0 12 (fixed_ptr w3 OBL_ADDRTREEPAGE_SHAPE_ADDR) empty_page"
  let ?w4 = "add_object ?y w3"
  have ok4: "world_ok ?w4" by (rule world_ok_add [OF w3(2)])
  have page: "obl_create_addrtreepage 0 w3 = Ok (?n + 5)
      (add_object (plain_object (fixed_ptr w3 OBL_ADDRTREEPAGE_SHAPE_ADDR) empty_page) w3)"
    using create_addrtreepage_run [OF frame3(1), of 0] by (simp add: frame3 empty_page_def)
  have "obl_storage_of (?n + 5) ?w4 = Ok OBL_ADDRTREEPAGE ?w4"
    by (rule storage_of_instance [of _ _ ?y OBL_ADDRTREEPAGE_SHAPE_ADDR])
      (use ok4 in \<open>simp_all add: world_ok_def frame3\<close>)
  then have size4: "obl_object_wordsize ?k (?n + 5) ?w4 = Ok 258 ?w4"
    by (simp add: obl_object_wordsize_def bindM_run retM_run CHUNK_SIZE_def)
  have ptr: "fixed_ptr w1 a = fixed_ptr w a" "fixed_ptr w2 a = fixed_ptr w a"
    "fixed_ptr w3 a = fixed_ptr w a" for a
    by (simp_all add: fixed_ptr_def frame1 frame2 frame3)
  have final: "?w4 = bootstrapped w"
    using bootstrapped_eq [of w] by (simp add: w3_def w2_def w1_def frame2 ptr eval_nat_numeral)
  show "world_ok (bootstrapped w)" unfolding final [symmetric] by (rule ok4)
  have "heap w3 (?n + 5) = None" using w3(2) frame3(2) by (simp add: world_ok_def fresh_def)
  then have "keeps w3 ?w4" by (intro keeps_add) (simp add: frame3)
  then show "slotted_object u (bootstrapped w) ?n (?x [?n + 3, ?n + 1]) allocator_slots [?n + 3, ?n + 1]"
    unfolding final [symmetric]
    using w3(3) keeps_slots by (auto simp: slotted_object_def frame2 frame3)
  obtain v where "obl_create_slotted ?k (fixed_ptr w OBL_ALLOCATOR_SHAPE_ADDR) w = Ok ?n v"
    "set_addresses ?n 1 5 v = Ok () w1" using w1(1) by blast
  moreover have "obl_object_wordsize ?k ?n w1 = Ok 3 w1"
    using slotted_wordsize_run [OF w1(3)] by simp
  moreover have "update_object (?n + 5) (\<lambda>x. x\<lparr>physical_address := 12\<rparr>)
      (add_object (plain_object (fixed_ptr w3 OBL_ADDRTREEPAGE_SHAPE_ADDR) empty_page) w3) = Ok () ?w4"
    using put_object_add [of w3] by (simp add: update_object_run frame3)
  moreover have "obl_at_address ?k s (fixed_addr OBL_ALLOCATOR_SHAPE_ADDR) w =
      Ok (fixed_ptr w OBL_ALLOCATOR_SHAPE_ADDR) w"
    using fixed_call [OF assms(4)] assms(4,5)
    by (simp add: obl_at_address_def obl_at_address_depth_def bindM_run get_run)
  ultimately show "bootstrap_objects u ?k s w = Ok (?n, ?n + 1, ?n + 3, ?n + 5, 270) (bootstrapped w)"
    using w2(1) w3(1) page size4
    by (simp add: bootstrap_objects_def bindM_run thenM_run retM_run frame1 frame2 final)
qed

section \<open>Writing them\<close>

lemma integer_set_placed:
  assumes "fixed_ok w" "heap w p = Some (placed_integer w l a i)"
  shows "obl_integer_set k p v w = Ok () (put_object p (placed_integer w l a v) w)"
  using integer_storage_run [OF assms] assms(2)
  by (simp add: obl_integer_set_def bindM_run modify_without_session integer_storage_of_def get_run
      retM_run update_object_run)

text \<open>Changing an integer keeps the invariant and the slotted objects.\<close>

lemma integer_put_keeps:
  assumes "heap w p = Some (placed_integer w l a i)" "p \<noteq> q"
    and "world_ok w" "slotted_object u w q x names vals"
  shows "world_ok (put_object p (placed_integer w l a v) w)"
    and "slotted_object u (put_object p (placed_integer w l a v) w) q x names vals"
proof -
  have ok: "fixed_ok w" using assms(3) by (simp add: world_ok_def)
  have typed: "typed_at w p OBL_INTEGER"
    by (rule typed_instance [OF ok assms(1), of OBL_INTEGER_SHAPE_ADDR]) simp_all
  have "p \<noteq> fixed_ptr w b" for b by (rule typed_not_fixed [OF ok typed]) simp
  then show "world_ok (put_object p (placed_integer w l a v) w)"
    by (rule world_ok_put(1) [OF assms(3,1)])
  show "slotted_object u (put_object p (placed_integer w l a v) w) q x names vals"
    using assms(2,4) slots_put [OF typed _ assms(1), of "placed_integer w l a v" u "obj_shape x" names]
    by (simp add: slotted_object_def)
qed

lemma writable_forms:
  "writable_logical = writable_uint" "writable_physical = writable_uint" "writable_int = writable_uint"
  by (auto simp: writable_logical_def writable_physical_def writable_int_def writable_uint_def)

lemma store_then_words: "store_words (store m b v) (Suc b) vs = store_words m b (v # vs)"
  using store_words_append [of m b "[v]" vs] by (simp add: store_words_one)

lemma store_words_next:
  "c = b + length us \<Longrightarrow> store_words (store_words m b us) c vs = store_words m b (us @ vs)"
  by (simp add: store_words_append)

lemma write_integer_object:
  assumes "fixed_ok w" "heap w p = Some (placed_integer w l a i)" "has_content w d m"
    and "unat a + 2 \<le> capacity m" "capacity m < 2 ^ 31"
  shows "obl_write_object k p d w = Ok () (put_content d (store_words m (unat a)
     [writable_uint (fixed_addr OBL_INTEGER_SHAPE_ADDR), writable_uint i]) w)"
proof -
  let ?m = "store m (unat a) (writable_logical (fixed_addr OBL_INTEGER_SHAPE_ADDR))"
  let ?w = "put_content d ?m w"
  have "obl_integer_write p d ?w = Ok () (put_content d (store ?m (unat a + 1) (writable_int i)) ?w)"
    using write_integer [of ?w p "placed_integer w l a i" "\<lparr>integer_value = i\<rparr>" d ?m] assms by simp
  then show ?thesis
    using write_object_run [OF assms(1,2), of OBL_INTEGER_SHAPE_ADDR OBL_INTEGER d m k] assms(3-5)
    by (simp add: writable_forms store_words_one [of _ "Suc _"] store_then_words)
qed

lemma write_page_object:
  assumes "fixed_ok w" "heap w p = Some (placed l a (fixed_ptr w OBL_ADDRTREEPAGE_SHAPE_ADDR) empty_page)"
    and "has_content w d m" "unat a + 258 \<le> capacity m" "capacity m < 2 ^ 31"
  shows "obl_write_object k p d w = Ok () (put_content d (store_words m (unat a)
     (writable_uint (fixed_addr OBL_ADDRTREEPAGE_SHAPE_ADDR) # 0 # replicate 256 0)) w)"
proof -
  let ?st = "\<lparr>page_height = 0, page_contents = replicate 256 0\<rparr> :: obl_addrtreepage_storage"
  let ?x = "placed l a (fixed_ptr w OBL_ADDRTREEPAGE_SHAPE_ADDR) empty_page"
  let ?m = "store m (unat a) (writable_logical (fixed_addr OBL_ADDRTREEPAGE_SHAPE_ADDR))"
  let ?w = "put_content d ?m w"
  have zeros: "map (\<lambda>i. writable_uint (page_contents ?st ! i)) [0..<256] = replicate 256 0"
    by (rule nth_equalityI) simp_all
  have "obl_addrtreepage_write p d ?w = Ok () (put_content d
      (store_words (store ?m (unat a + 1) (writable_uint 0)) (unat a + 2)
        (map (\<lambda>i. writable_uint (page_contents ?st ! i)) [0..<CHUNK_SIZE])) ?w)"
    using write_page [of ?w p ?x ?st d ?m] assms by (simp add: empty_page_def)
  then show ?thesis
    using write_object_run [OF assms(1,2), of OBL_ADDRTREEPAGE_SHAPE_ADDR OBL_ADDRTREEPAGE d m k] assms(3-5)
      zeros store_then_words [of "store m (unat a) v" "unat a + 1" 0 "replicate 256 0" for v]
    by (simp add: writable_forms store_then_words)
qed

lemma write_slotted_object:
  assumes "fixed_ok w" "slotted_object u w p x names vals" "has_content w d m"
    and "obj_shape x = fixed_ptr w OBL_ALLOCATOR_SHAPE_ADDR"
    and "unat (physical_address x) + (1 + length vals) \<le> capacity m" "capacity m < 2 ^ 31"
    and "\<And>i. i < length vals \<Longrightarrow> heap w (vals ! i) = Some (ys ! i)" "length ys = length vals"
  shows "obl_write_object k p d w = Ok () (put_content d (store_words m (unat (physical_address x))
     (writable_uint (fixed_addr OBL_ALLOCATOR_SHAPE_ADDR) #
      map (\<lambda>y. writable_uint (logical_address y)) ys)) w)"
proof -
  let ?m = "store m (unat (physical_address x)) (writable_logical (fixed_addr OBL_ALLOCATOR_SHAPE_ADDR))"
  let ?w = "put_content d ?m w"
  have x: "heap w p = Some x" using assms(2) by (simp add: slotted_object_def)
  have "slotted_object u ?w p x names vals" using assms(2) by (rule slotted_cong) simp_all
  from slotted_write_run [OF this, of d ?m ys k]
  have "obl_slotted_write k p d ?w = Ok () (put_content d (store_words ?m (unat (physical_address x) + 1)
       (map (\<lambda>y. writable_uint (logical_address y)) ys)) ?w)"
    using assms(5-8) by simp
  then show ?thesis
    using write_object_run [OF assms(1) x assms(4), of OBL_SLOTTED d m k] assms(3,5,6)
    by (simp add: writable_forms store_then_words)
qed

text \<open>The words of the root and of the objects, from address 1 on; the page of the address map is empty.\<close>

definition unmapped_words :: "obl_uint list" where
  "unmapped_words = map writable_uint [12, 1, 0, 0, fixed_addr OBL_ALLOCATOR_SHAPE_ADDR, 3, 2,
     fixed_addr OBL_INTEGER_SHAPE_ADDR, 270, fixed_addr OBL_INTEGER_SHAPE_ADDR, 4,
     fixed_addr OBL_ADDRTREEPAGE_SHAPE_ADDR] @ 0 # replicate 256 0"

text \<open>The four objects of an empty database, at their places, with the counters at the given values.\<close>

definition bootstrap_heap :: "icu \<Rightarrow> world \<Rightarrow> ptr list \<Rightarrow> obl_int \<Rightarrow> obl_int \<Rightarrow> bool" where
  "bootstrap_heap u w ps i j \<longleftrightarrow> world_ok w \<and> distinct ps \<and>
     (case ps of [a, np, nl, page] \<Rightarrow>
        slotted_object u w a (allocator_with w [nl, np]) allocator_slots [nl, np] \<and>
        heap w np = Some (placed_integer w 2 8 i) \<and> heap w nl = Some (placed_integer w 3 10 j) \<and>
        heap w page = Some (placed 0 12 (fixed_ptr w OBL_ADDRTREEPAGE_SHAPE_ADDR) empty_page)
      | _ \<Rightarrow> False)"

lemma bootstrap_heap_cong:
  assumes "bootstrap_heap u w ps i j" "heap w' = heap w" "next_ptr w' = next_ptr w"
    and "fixed_space w' = fixed_space w"
  shows "bootstrap_heap u w' ps i j"
proof -
  have "fixed_ptr w' a = fixed_ptr w a" for a using assms(4) by (simp add: fixed_ptr_def)
  moreover have "world_ok w' = world_ok w" using assms(2-4) by (rule world_ok_cong)
  ultimately show ?thesis
    using assms(1,2) slotted_cong [OF _ assms(2,4)]
    by (auto simp: bootstrap_heap_def split: list.splits)
qed

lemma bootstrap_write_all:
  assumes "bootstrap_heap u w [a, np, nl, page] 270 4" "has_content w d m"
    and "270 \<le> capacity m" "capacity m < 2 ^ 31"
    and "m = root_words \<lparr>address_map_addr = 12, allocator_addr = 1, shape_map_addr = 0,
       name_map_addr = 0, dirty = b\<rparr> m0"
  shows "forM [a, np, nl, page] (\<lambda>p. obl_write_object k p d) w =
     Ok () (put_content d (store_words m0 1 unmapped_words) w)"
proof -
  have h: "world_ok w" "distinct [a, np, nl, page]"
    "slotted_object u w a (allocator_with w [nl, np]) allocator_slots [nl, np]"
    "heap w np = Some (placed_integer w 2 8 270)" "heap w nl = Some (placed_integer w 3 10 4)"
    "heap w page = Some (placed 0 12 (fixed_ptr w OBL_ADDRTREEPAGE_SHAPE_ADDR) empty_page)"
    using assms(1) by (simp_all add: bootstrap_heap_def)
  have ok: "fixed_ok w" using h(1) by (simp add: world_ok_def)
  let ?tag = "\<lambda>a. writable_uint (fixed_addr a)"
  define m1 where "m1 = store_words m 5 [?tag OBL_ALLOCATOR_SHAPE_ADDR, writable_uint 3, writable_uint 2]"
  define m2 where "m2 = store_words m1 8 [?tag OBL_INTEGER_SHAPE_ADDR, writable_uint 270]"
  define m3 where "m3 = store_words m2 10 [?tag OBL_INTEGER_SHAPE_ADDR, writable_uint 4]"
  define m4 where "m4 = store_words m3 12 (?tag OBL_ADDRTREEPAGE_SHAPE_ADDR # 0 # replicate 256 0)"
  have caps: "capacity m1 = capacity m" "capacity m2 = capacity m" "capacity m3 = capacity m"
    by (simp_all add: m1_def m2_def m3_def)
  have "heap w ([nl, np] ! i) = Some ([placed_integer w 3 10 4, placed_integer w 2 8 270] ! i)"
    if "i < length [nl, np]" for i
    using that h(4,5) by (cases i) auto
  from write_slotted_object [OF ok h(3) assms(2) _ _ assms(4) this, of k] assms(3)
  have s1: "obl_write_object k a d w = Ok () (put_content d m1 w)"
    by (simp add: m1_def)
  have s2: "obl_write_object k np d (put_content d m1 w) = Ok () (put_content d m2 w)"
    using write_integer_object [of "put_content d m1 w" np 2 8 270 d m1 k] ok h(4) assms(3,4) caps
    by (simp add: m2_def)
  have s3: "obl_write_object k nl d (put_content d m2 w) = Ok () (put_content d m3 w)"
    using write_integer_object [of "put_content d m2 w" nl 3 10 4 d m2 k] ok h(5) assms(3,4) caps
    by (simp add: m3_def)
  have s4: "obl_write_object k page d (put_content d m3 w) = Ok () (put_content d m4 w)"
    using write_page_object [of "put_content d m3 w" page 0 12 d m3 k] ok h(6) assms(3,4) caps
    by (simp add: m4_def)
  have "m = store_words m0 1 (map writable_uint [12, 1, 0, 0])"
    unfolding assms(5) root_words_def writable_forms
    by (rule memory_eqI) (auto simp: nth_Cons' writable_forms)
  then have "m4 = store_words m0 1 unmapped_words"
    by (simp add: m4_def m3_def m2_def m1_def unmapped_words_def store_words_next)
  then show ?thesis using s1 s2 s3 s4 by (simp add: thenM_run retM_run)
qed

text \<open>Setting a counter of the allocator.\<close>

lemma bootstrap_heap_set:
  assumes "bootstrap_heap u w [a, np, nl, page] i j"
  shows "obl_integer_set k np v w = Ok () (put_object np (placed_integer w 2 8 v) w)"
    and "bootstrap_heap u (put_object np (placed_integer w 2 8 v) w) [a, np, nl, page] v j"
    and "obl_integer_set k nl v w = Ok () (put_object nl (placed_integer w 3 10 v) w)"
    and "bootstrap_heap u (put_object nl (placed_integer w 3 10 v) w) [a, np, nl, page] i v"
proof -
  have h: "world_ok w" "distinct [a, np, nl, page]"
    "slotted_object u w a (allocator_with w [nl, np]) allocator_slots [nl, np]"
    "heap w np = Some (placed_integer w 2 8 i)" "heap w nl = Some (placed_integer w 3 10 j)"
    "heap w page = Some (placed 0 12 (fixed_ptr w OBL_ADDRTREEPAGE_SHAPE_ADDR) empty_page)"
    using assms by (simp_all add: bootstrap_heap_def)
  have ok: "fixed_ok w" using h(1) by (simp add: world_ok_def)
  show "obl_integer_set k np v w = Ok () (put_object np (placed_integer w 2 8 v) w)"
    "obl_integer_set k nl v w = Ok () (put_object nl (placed_integer w 3 10 v) w)"
    by (rule integer_set_placed [OF ok h(4)] integer_set_placed [OF ok h(5)])+
  show "bootstrap_heap u (put_object np (placed_integer w 2 8 v) w) [a, np, nl, page] v j"
    using integer_put_keeps [OF h(4) _ h(1,3), of v] h by (simp add: bootstrap_heap_def)
  show "bootstrap_heap u (put_object nl (placed_integer w 3 10 v) w) [a, np, nl, page] i v"
    using integer_put_keeps [OF h(5) _ h(1,3), of v] h by (simp add: bootstrap_heap_def)
qed

abbreviation (input) bootstrap_root :: obl_root where
  "bootstrap_root \<equiv> \<lparr>address_map_addr = 12, allocator_addr = 1, shape_map_addr = 0,
     name_map_addr = 0, dirty = False\<rparr>"

lemma bootstrap_write_run:
  assumes "bootstrap_heap u w [a, np, nl, page] 0 0" "databases w d = Some db" "content db = Some m"
    and "270 \<le> capacity m" "capacity m < 2 ^ 31"
    and "w' = w\<lparr>heap := (heap w)(np \<mapsto> placed_integer w 2 8 270, nl \<mapsto> placed_integer w 3 10 4),
           databases := (databases w)(d \<mapsto>
             db\<lparr>root := bootstrap_root, content := Some (store_words m 1 unmapped_words)\<rparr>)\<rparr>"
  shows "bootstrap_write k d a np nl page 270 w = Ok () w'"
    and "bootstrap_heap u w' [a, np, nl, page] 270 4"
proof -
  let ?r = "(root db)\<lparr>address_map_addr := 12, allocator_addr := 1, name_map_addr := 0,
      shape_map_addr := 0\<rparr>"
  let ?db = "db\<lparr>root := ?r\<rparr>"
  define w1 where "w1 = w\<lparr>databases := (databases w)(d \<mapsto> ?db)\<rparr>"
  have b1: "bootstrap_heap u w1 [a, np, nl, page] 0 0"
    by (rule bootstrap_heap_cong [OF assms(1)]) (simp_all add: w1_def)
  define w2 where "w2 = put_object np (placed_integer w1 2 8 270) w1"
  note b2 = bootstrap_heap_set(2) [OF b1, of 270, folded w2_def]
  define w3 where "w3 = put_object nl (placed_integer w2 3 10 4) w2"
  note b3 = bootstrap_heap_set(4) [OF b2, of 4, folded w3_def]
  have db3: "databases w3 d = Some ?db" "content ?db = Some m"
    using assms(3) by (simp_all add: w3_def w2_def w1_def)
  define w4 where "w4 = w3\<lparr>databases := (databases w3)(d \<mapsto>
      ?db\<lparr>content := Some (root_words ?r m), root := ?r\<lparr>dirty := False\<rparr>\<rparr>)\<rparr>"
  have root: "i_write_root d w3 = Ok () w4"
    using write_root_run [OF db3] assms(4) by (simp add: w4_def)
  have b4: "bootstrap_heap u w4 [a, np, nl, page] 270 4"
    by (rule bootstrap_heap_cong [OF b3]) (simp_all add: w4_def)
  have "has_content w4 d (root_words ?r m)" by (simp add: has_content_def w4_def)
  from bootstrap_write_all [OF b4 this, of "dirty (root db)" m k] assms(4,5)
  have objects: "forM [a, np, nl, page] (\<lambda>p. obl_write_object k p d) w4 =
      Ok () (put_content d (store_words m 1 unmapped_words) w4)"
    by (cases "root db") (simp add: root_words_def)
  have final: "put_content d (store_words m 1 unmapped_words) w4 = w'"
  proof (rule world.equality)
    show "databases (put_content d (store_words m 1 unmapped_words) w4) = databases w'"
      by (cases "root db") (simp add: assms(6) w4_def w3_def w2_def w1_def put_content_def)
  qed (simp_all add: assms(6) w4_def w3_def w2_def w1_def put_object_def put_content_def fixed_ptr_def)
  have "heap w a = Some (allocator_with w [nl, np])"
    "heap w page = Some (placed 0 12 (fixed_ptr w OBL_ADDRTREEPAGE_SHAPE_ADDR) empty_page)"
    using assms(1) by (simp_all add: bootstrap_heap_def slotted_object_def)
  then show "bootstrap_write k d a np nl page 270 w = Ok () w'"
    using assms(2) root objects final bootstrap_heap_set(1) [OF b1, of k 270, folded w2_def]
      bootstrap_heap_set(3) [OF b2, of k 4, folded w3_def]
    by (simp add: bootstrap_write_def bindM_run thenM_run get_run update_run w1_def [symmetric]
        del: forM.simps)
  show "bootstrap_heap u w' [a, np, nl, page] 270 4"
    unfolding final [symmetric] by (rule bootstrap_heap_cong [OF b4]) simp_all
qed

section \<open>The address map\<close>

definition bootstrap_words :: "obl_uint list" where
  "bootstrap_words = map writable_uint [magic, 12, 1, 0, 0, fixed_addr OBL_ALLOCATOR_SHAPE_ADDR, 3, 2,
     fixed_addr OBL_INTEGER_SHAPE_ADDR, 270, fixed_addr OBL_INTEGER_SHAPE_ADDR, 4,
     fixed_addr OBL_ADDRTREEPAGE_SHAPE_ADDR, 0, 0, 5, 8, 10] @ replicate 252 0"

lemma store_in_words:
  assumes "b \<le> i" "i < b + length vs"
  shows "store (store_words m b vs) i v = store_words m b (vs[i - b := v])"
  by (rule memory_eqI) (use assms in \<open>auto simp: nth_list_update\<close>)

lemma length_unmapped [simp]: "length unmapped_words = 269"
  by (simp add: unmapped_words_def)

lemma unmapped_page:
  assumes "270 \<le> capacity m" "capacity m < 2 ^ 31" "\<And>j. j = 12 \<or> j = 13 \<Longrightarrow> cells m' j = cells (store_words m 1 unmapped_words) j"
    and "capacity m' = capacity m"
  shows "page_tree m' 0 12"
  using assms by (simp add: page_header_def unmapped_words_def PAGE_TAG_def nth_Cons')

lemma update_entries:
  "(x0 # x1 # x2 # x3 # x4 # x5 # x6 # x7 # x8 # x9 # x10 # x11 # x12 # x13 # x14 # x15 # x16 # zs)
     [14 := a, 15 := b, 16 := c] =
   x0 # x1 # x2 # x3 # x4 # x5 # x6 # x7 # x8 # x9 # x10 # x11 # x12 # x13 # a # b # c # zs"
  by (simp add: eval_nat_numeral)

lemma assigned_words:
  "store (store (store (store (store_words m 1 unmapped_words) 15 (writable_uint 5))
     16 (writable_uint 8)) 17 (writable_uint 10)) 0 (writable_uint magic) = store_words m 0 bootstrap_words"
proof -
  have "replicate 256 (0 :: obl_uint) = [0, 0, 0, 0] @ replicate 252 0"
    by (simp flip: replicate_add add: eval_nat_numeral)
  then have words: "unmapped_words = map writable_uint [12, 1, 0, 0, fixed_addr OBL_ALLOCATOR_SHAPE_ADDR, 3, 2,
     fixed_addr OBL_INTEGER_SHAPE_ADDR, 270, fixed_addr OBL_INTEGER_SHAPE_ADDR, 4,
     fixed_addr OBL_ADDRTREEPAGE_SHAPE_ADDR, 0, 0, 0, 0, 0] @ replicate 252 0"
    unfolding unmapped_words_def by simp
  have "store (store (store (store_words m 1 unmapped_words) 15 (writable_uint 5))
     16 (writable_uint 8)) 17 (writable_uint 10) = store_words m 1
       (unmapped_words[14 := writable_uint 5, 15 := writable_uint 8, 16 := writable_uint 10])"
    by (simp add: store_in_words)
  also have "\<dots> = store_words m 1 (tl bootstrap_words)"
    unfolding words bootstrap_words_def list.map append.simps list.sel update_entries by simp
  finally have "store (store (store (store (store_words m 1 unmapped_words) 15 (writable_uint 5))
     16 (writable_uint 8)) 17 (writable_uint 10)) 0 (writable_uint magic) =
     store (store_words m 1 (tl bootstrap_words)) 0 (hd bootstrap_words)"
    by (simp add: bootstrap_words_def)
  also have "\<dots> = store_words (store m 0 (hd bootstrap_words)) (Suc 0) (tl bootstrap_words)"
    by (rule memory_eqI) auto
  also have "\<dots> = store_words m 0 bootstrap_words"
    by (simp add: store_then_words bootstrap_words_def)
  finally show ?thesis .
qed

text \<open>Entering the addresses of the three objects that have logical ones.\<close>

lemma assign_run:
  assumes "sessions w s = Some r" "databases w (ses_database r) = Some db" "content db = Some m"
    and "address_map_addr (root db) = 12" "page_tree m 0 12" "heap w p = Some x"
    and "unat (logical_address x) < 256"
  shows "assign_own_address k s p w = Ok () (put_content (ses_database r)
     (store m (14 + unat (logical_address x)) (writable_uint (physical_address x))) w)"
proof -
  have "digit 0 (logical_address x) = unat (logical_address x)"
    using assms(7) by (simp add: digit_def)
  then show ?thesis
    using address_assign_run [OF assms(1) refl assms(2,3), of 12 0 "logical_address x" k "physical_address x"]
      assms(4-7)
    by (simp add: assign_own_address_def bindM_run get_run)
qed

section \<open>The session that made the objects\<close>

text \<open>The read set after the three insertions, and the order in which it is destroyed.\<close>

definition bootstrap_tree :: "ptr \<Rightarrow> ptr \<Rightarrow> ptr \<Rightarrow> ptr rb" where
  "bootstrap_tree a np nl = Node BLACK (Node RED Tip 1 a Tip) 2 np (Node RED Tip 3 nl Tip)"

lemma bootstrap_inserts:
  "set_insert Tip 1 a = (Node BLACK Tip 1 a Tip, None)"
  "set_insert (Node BLACK Tip 1 a Tip) 2 np = (Node BLACK Tip 1 a (Node RED Tip 2 np Tip), None)"
  "set_insert (Node BLACK Tip 1 a (Node RED Tip 2 np Tip)) 3 nl = (bootstrap_tree a np nl, None)"
  by (simp_all add: set_insert_def insert_balance_def rotate_single_def bootstrap_tree_def)

lemma bootstrap_destroyed: "obl_destroy_set freed_blocks_kept (bootstrap_tree a np nl) = Inr [np, a, nl]"
  by (simp add: freed_blocks_kept_def destroy_set_preorder bootstrap_tree_def)

text \<open>Deallocating an object takes it from the heap.\<close>

definition without_object :: "ptr \<Rightarrow> world \<Rightarrow> world" where
  "without_object p w = w\<lparr>heap := (heap w)(p := None)\<rparr>"

lemma without_object_simps [simp]:
  "heap (without_object p w) q = (if q = p then None else heap w q)"
  "sessions (without_object p w) = sessions w" "transactions (without_object p w) = transactions w"
  "databases (without_object p w) = databases w" "next_ptr (without_object p w) = next_ptr w"
  "fixed_space (without_object p w) = fixed_space w"
  "malloc_budget (without_object p w) = malloc_budget w"
  "fixed_ptr (without_object p w) a = fixed_ptr w a"
  by (simp_all add: without_object_def)

lemma deallocate_run:
  assumes "world_ok w" "heap w p = Some x" "obj_shape x = fixed_ptr w b" "fixed_format b = Some t"
    and "t \<notin> {OBL_NIL, OBL_BOOLEAN, OBL_SHAPE}" "deallocate_functions t p w = Ok () w"
  shows "i_obl_deallocate_object p w = Ok () (without_object p w)" "world_ok (without_object p w)"
proof -
  have ok: "fixed_ok w" "fresh w" using assms(1) by (simp_all add: world_ok_def)
  have typed: "typed_at w p t" by (rule typed_instance [OF ok(1) assms(2-4)])
  have "p \<noteq> NULL" using freshD [OF ok(2) assms(2)] by simp
  then show "i_obl_deallocate_object p w = Ok () (without_object p w)"
    using obl_storage_of_run [OF typed] assms(2,6)
    by (simp add: i_obl_deallocate_object_def free_object_def bindM_run thenM_run get_run modifyM_run
        without_object_def)
  have "fixed_ptr w a \<noteq> p" for a using typed_not_fixed [OF ok(1) typed assms(5)] by metis
  then have "same_fixed w (without_object p w)" by (simp add: same_fixed_def)
  with ok show "world_ok (without_object p w)"
    using fixed_ok_same by (auto simp: world_ok_def fresh_def)
qed

lemma bootstrap_deallocate:
  assumes "bootstrap_heap u w [a, np, nl, page] i j"
  shows "forM [np, a, nl] i_obl_deallocate_object w =
     Ok () (without_object nl (without_object a (without_object np w)))"
    and "world_ok (without_object nl (without_object a (without_object np w)))"
proof -
  have h: "world_ok w" "distinct [a, np, nl, page]" "heap w a = Some (allocator_with w [nl, np])"
    "heap w np = Some (placed_integer w 2 8 i)" "heap w nl = Some (placed_integer w 3 10 j)"
    using assms by (simp_all add: bootstrap_heap_def slotted_object_def)
  note simps = simple_deallocate_def i_obl_slotted_deallocate_def slotted_storage_of_def
    bindM_run get_run retM_run
  note d1 = deallocate_run [OF h(1,4), of OBL_INTEGER_SHAPE_ADDR OBL_INTEGER]
  let ?w1 = "without_object np w"
  have d1: "i_obl_deallocate_object np w = Ok () ?w1" "world_ok ?w1"
    using deallocate_run [OF h(1,4), of OBL_INTEGER_SHAPE_ADDR OBL_INTEGER] h(4) by (simp_all add: simps)
  let ?w2 = "without_object a ?w1"
  have a: "heap ?w1 a = Some (allocator_with w [nl, np])" using h(2,3) by simp
  have d2: "i_obl_deallocate_object a ?w1 = Ok () ?w2" "world_ok ?w2"
    using deallocate_run [OF d1(2) a, of OBL_ALLOCATOR_SHAPE_ADDR OBL_SLOTTED] a by (simp_all add: simps)
  have nl: "heap ?w2 nl = Some (placed_integer w 3 10 j)" using h(2,5) by simp
  have d3: "i_obl_deallocate_object nl ?w2 = Ok () (without_object nl ?w2)"
    "world_ok (without_object nl ?w2)"
    using deallocate_run [OF d2(2) nl, of OBL_INTEGER_SHAPE_ADDR OBL_INTEGER] nl by (simp_all add: simps)
  show "forM [np, a, nl] i_obl_deallocate_object w = Ok () (without_object nl ?w2)"
    using d1 d2 d3 by (simp add: thenM_run retM_run)
  show "world_ok (without_object nl ?w2)" by (rule d3(2))
qed

lemma destroy_session_run:
  assumes "bootstrap_heap u w [a, np, nl, page] i j" "sessions w s = Some r" "s \<noteq> NULL"
    and "current_transaction r = NULL" "read_set r = Some \<lparr>set_root = bootstrap_tree a np nl,
       set_keyfunction = logical_address_keyfunction\<rparr>"
    and "databases w (ses_database r) = Some db" "0 < session_list_mutex db" "session_list db = [s]"
    and "w' = without_object nl (without_object a (without_object np w))"
  shows "obl_destroy_session k s w = Ok ()
     (w'\<lparr>databases := (databases w')(ses_database r \<mapsto> db\<lparr>session_list := []\<rparr>),
         sessions := (sessions w')(s := None)\<rparr>)"
proof -
  have "db\<lparr>session_list_mutex := session_list_mutex db - 1,
      session_list := l, session_list_mutex := Suc (session_list_mutex db - 1)\<rparr> =
      db\<lparr>session_list := l\<rparr>" for l
    using assms(7) by (cases db) simp
  moreover have "forM [np, a, nl] i_obl_deallocate_object w = Ok () w'"
    using bootstrap_deallocate(1) [OF assms(1)] assms(9) by simp
  moreover have "sessions w' = sessions w" "databases w' = databases w"
    by (simp_all add: assms(9))
  ultimately show ?thesis
    using assms(2-8)
    by (simp add: obl_destroy_session_def destroy_set_with_def bootstrap_destroyed bindM_run thenM_run
        retM_run get_run update_run the_set_run wait_session_list_mutex_def
        post_session_list_mutex_def obl_session_list_remove_def free_session_def modifyM_run Let_def
        del: forM.simps)
qed

section \<open>Bootstrapping\<close>

text \<open>The three assignments and the three insertions.\<close>

lemma bootstrap_assigns:
  assumes "bootstrap_heap u w [a, np, nl, page] i j" "sessions w s = Some r" "ses_database r = d"
    and "databases w d = Some db" "content db = Some (store_words m 1 unmapped_words)"
    and "address_map_addr (root db) = 12" "270 \<le> capacity m" "capacity m < 2 ^ 31"
  shows "forM [a, np, nl] (assign_own_address k s) w = Ok () (put_content d
     (store (store (store (store_words m 1 unmapped_words) 15 (writable_uint 5))
       16 (writable_uint 8)) 17 (writable_uint 10)) w)"
proof -
  let ?m0 = "store_words m 1 unmapped_words"
  let ?m1 = "store ?m0 15 (writable_uint 5)" and ?m2 = "store (store ?m0 15 (writable_uint 5)) 16 (writable_uint 8)"
  have h: "heap w a = Some (allocator_with w [nl, np])" "heap w np = Some (placed_integer w 2 8 i)"
    "heap w nl = Some (placed_integer w 3 10 j)"
    using assms(1) by (simp_all add: bootstrap_heap_def slotted_object_def)
  have page: "page_tree ?m0 0 12" "page_tree ?m1 0 12" "page_tree ?m2 0 12"
    by (rule unmapped_page [OF assms(7,8)]; auto)+
  have at: "databases (put_content d m' w) d = Some (db\<lparr>content := Some m'\<rparr>)" for m'
    using assms(4) by (simp add: put_content_def)
  have s1: "assign_own_address k s a w = Ok () (put_content d ?m1 w)"
    using assign_run [OF assms(2) _ assms(5,6) page(1) h(1), of k] assms(3,4) by simp
  have s2: "assign_own_address k s np (put_content d ?m1 w) = Ok () (put_content d ?m2 w)"
    using assign_run [of "put_content d ?m1 w" s r "db\<lparr>content := Some ?m1\<rparr>" ?m1 np _ k]
      assms(2,3,6) at page(2) h(2) by simp
  have s3: "assign_own_address k s nl (put_content d ?m2 w) =
      Ok () (put_content d (store ?m2 17 (writable_uint 10)) w)"
    using assign_run [of "put_content d ?m2 w" s r "db\<lparr>content := Some ?m2\<rparr>" ?m2 nl _ k]
      assms(2,3,6) at page(3) h(3) by simp
  show ?thesis using s1 s2 s3 by (simp add: thenM_run retM_run)
qed

lemma bootstrap_inserted:
  assumes "bootstrap_heap u w [a, np, nl, page] i j" "malloc_budget w = None"
    and "sessions w s = Some (new_session_on d)"
  shows "forM [a, np, nl] (insert_read_set s) w = Ok () (w\<lparr>sessions := (sessions w)(s \<mapsto>
     (new_session_on d)\<lparr>read_set := Some \<lparr>set_root = bootstrap_tree a np nl,
        set_keyfunction = logical_address_keyfunction\<rparr>\<rparr>)\<rparr>)"
proof -
  have h: "heap w a = Some (allocator_with w [nl, np])" "heap w np = Some (placed_integer w 2 8 i)"
    "heap w nl = Some (placed_integer w 3 10 j)"
    using assms(1) by (simp_all add: bootstrap_heap_def slotted_object_def)
  then show ?thesis
    by (simp add: insert_read_set_def obl_set_insert_def create_node_def malloc_run bindM_run thenM_run
        get_run update_run the_set_run retM_run bootstrap_inserts [unfolded One_nat_def] new_session_on_def assms(2,3))
qed

text \<open>Everything after the objects have been made.\<close>

definition bootstrap_rest :: "calls \<Rightarrow> ptr \<Rightarrow> ptr \<Rightarrow> ptr list \<Rightarrow> unit exec" where
  "bootstrap_rest k d s ps =
     thenM (bootstrap_write k d (ps ! 0) (ps ! 1) (ps ! 2) (ps ! 3) 270)
     (thenM (forM (take 3 ps) (assign_own_address k s))
     (thenM (forM (take 3 ps) (insert_read_set s))
     (thenM (obl_destroy_session k s)
       (write_cell d 0 (writable_uint magic)))))"

lemma bootstrap_rest_run:
  assumes "bootstrap_heap u w [a, np, nl, page] 0 0" "malloc_budget w = None"
    and "sessions w s = Some (new_session_on d)" "s \<noteq> NULL"
    and "databases w d = Some db" "content db = Some m" "270 \<le> capacity m" "capacity m < 2 ^ 31"
    and "session_list db = [s]" "0 < session_list_mutex db"
  shows "\<exists>w'. bootstrap_rest k d s [a, np, nl, page] w = Ok () w' \<and> world_ok w' \<and>
     databases w' = (databases w)(d \<mapsto> db\<lparr>session_list := [], root := bootstrap_root,
        content := Some (store_words m 0 bootstrap_words)\<rparr>) \<and>
     heap w' = (heap w)(np := None, a := None, nl := None) \<and> sessions w' = (sessions w)(s := None) \<and>
     transactions w' = transactions w \<and> next_ptr w' = next_ptr w \<and>
     fixed_space w' = fixed_space w \<and> malloc_budget w' = None"
proof -
  let ?ps = "[a, np, nl, page]" and ?r = "new_session_on d"
  let ?m1 = "store_words m 1 unmapped_words"
  let ?m2 = "store (store (store ?m1 15 (writable_uint 5)) 16 (writable_uint 8)) 17 (writable_uint 10)"
  let ?db1 = "db\<lparr>root := bootstrap_root, content := Some ?m1\<rparr>"
  let ?r' = "?r\<lparr>read_set := Some \<lparr>set_root = bootstrap_tree a np nl,
        set_keyfunction = logical_address_keyfunction\<rparr>\<rparr>"
  define w1 where "w1 = w\<lparr>heap := (heap w)(np \<mapsto> placed_integer w 2 8 270, nl \<mapsto> placed_integer w 3 10 4),
           databases := (databases w)(d \<mapsto> ?db1)\<rparr>"
  note w1 = bootstrap_write_run [OF assms(1,5-8) w1_def]
  have f1: "sessions w1 s = Some ?r" "ses_database ?r = d" "databases w1 d = Some ?db1"
    "content ?db1 = Some ?m1" "address_map_addr (root ?db1) = 12" "malloc_budget w1 = None"
    using assms(2,3) by (simp_all add: w1_def new_session_on_def)
  define w2 where "w2 = put_content d ?m2 w1"
  note assign = bootstrap_assigns [OF w1(2) f1(1-5) assms(7,8), folded w2_def]
  have b2: "bootstrap_heap u w2 ?ps 270 4" by (rule bootstrap_heap_cong [OF w1(2)]) (simp_all add: w2_def)
  have f2: "malloc_budget w2 = None" "sessions w2 s = Some ?r" using f1 by (simp_all add: w2_def)
  define w3 where "w3 = w2\<lparr>sessions := (sessions w2)(s \<mapsto> ?r')\<rparr>"
  note insert = bootstrap_inserted [OF b2 f2, folded w3_def]
  have b3: "bootstrap_heap u w3 ?ps 270 4" by (rule bootstrap_heap_cong [OF b2]) (simp_all add: w3_def)
  let ?db2 = "?db1\<lparr>content := Some ?m2\<rparr>"
  have f3: "sessions w3 s = Some ?r'" "current_transaction ?r' = NULL" "read_set ?r' = read_set ?r'"
    "databases w3 (ses_database ?r') = Some ?db2" "0 < session_list_mutex ?db2" "session_list ?db2 = [s]"
    using assms(9,10) f1 by (simp_all add: w3_def w2_def put_content_def new_session_on_def)
  define w4 where "w4 = without_object nl (without_object a (without_object np w3))"
  have "read_set ?r' = Some \<lparr>set_root = bootstrap_tree a np nl,
       set_keyfunction = logical_address_keyfunction\<rparr>" by simp
  note destroy = destroy_session_run [OF b3 f3(1) assms(4) f3(2) this f3(4-6) w4_def]
  define w5 where "w5 = w4\<lparr>databases := (databases w4)(d \<mapsto> ?db2\<lparr>session_list := []\<rparr>),
      sessions := (sessions w4)(s := None)\<rparr>"
  have "has_content w5 d ?m2" by (simp add: has_content_def w5_def)
  then have "write_cell d 0 (writable_uint magic) w5 =
      Ok () (put_content d (store_words m 0 bootstrap_words) w5)"
    using assms(7) by (simp add: write_cell_run assigned_words [unfolded One_nat_def])
  then have "bootstrap_rest k d s ?ps w = Ok () (put_content d (store_words m 0 bootstrap_words) w5)"
    using w1(1) assign insert destroy f1(2)
    by (simp add: bootstrap_rest_def thenM_run w5_def del: forM.simps)
  moreover have "world_ok w5"
    using bootstrap_deallocate(2) [OF b3] by (subst world_ok_cong [of _ w4]) (simp_all add: w5_def w4_def)
  then have "world_ok (put_content d (store_words m 0 bootstrap_words) w5)" by simp
  moreover have "databases (put_content d (store_words m 0 bootstrap_words) w5) = (databases w)(d \<mapsto>
      db\<lparr>session_list := [], root := bootstrap_root, content := Some (store_words m 0 bootstrap_words)\<rparr>)"
    by (cases db) (simp add: w5_def w4_def w3_def w2_def w1_def put_content_def)
  moreover have "heap w5 = (heap w)(np := None, a := None, nl := None)"
    by (rule ext) (simp add: w5_def w4_def w3_def w2_def w1_def)
  moreover have "sessions w5 = (sessions w)(s := None)"
    by (simp add: w5_def w4_def w3_def w2_def w1_def)
  ultimately show ?thesis
    using f1(6)
    by (intro exI [of _ "put_content d (store_words m 0 bootstrap_words) w5"])
      (simp add: w5_def w4_def w3_def w2_def w1_def)
qed

text \<open>
  What bootstrapping does: the first 270 words are written, the database has its root, the session is
  gone with its objects, and the page object, which no session owns, is never freed.
\<close>

definition bootstrap_done :: "ptr \<Rightarrow> obl_database \<Rightarrow> memory \<Rightarrow> world \<Rightarrow> world \<Rightarrow> bool" where
  "bootstrap_done d db m w w' \<longleftrightarrow>
     databases w' = (databases w)(d \<mapsto>
       db\<lparr>root := bootstrap_root, content := Some (store_words m 0 bootstrap_words)\<rparr>) \<and>
     heap w' = (heap w)(next_ptr w + 6 \<mapsto>
       placed 0 12 (fixed_ptr w OBL_ADDRTREEPAGE_SHAPE_ADDR) empty_page) \<and>
     sessions w' = (sessions w)(next_ptr w := None) \<and> transactions w' = transactions w \<and>
     next_ptr w' = next_ptr w + 7 \<and> fixed_space w' = fixed_space w \<and>
     malloc_budget w' = None \<and> world_ok w'"

lemma bootstrapped_heap:
  assumes "world_ok (bootstrapped w)" "slotted_object u (bootstrapped w) (next_ptr w)
       (allocator_with w [next_ptr w + 3, next_ptr w + 1]) allocator_slots [next_ptr w + 3, next_ptr w + 1]"
  shows "bootstrap_heap u (bootstrapped w)
     [next_ptr w, next_ptr w + 1, next_ptr w + 3, next_ptr w + 5] 0 0"
  using assms by (simp add: bootstrap_heap_def bootstrapped_def Let_def)

lemma bootstrap_database_run:
  assumes "good_icu u" "world_ok w" "malloc_budget w = None" "d \<noteq> NULL"
    and "databases w d = Some db" "content db = Some m" "270 \<le> capacity m" "capacity m < 2 ^ 31"
    and "session_list db = []" "0 < session_list_mutex db"
    and "shape_with_slots u w (fixed_ptr w OBL_ALLOCATOR_SHAPE_ADDR) allocator_slots"
    and "converted u ''next_logical'' \<noteq> converted u ''next_physical''"
  shows "\<exists>w'. i_bootstrap_database u (knot (Suc i)) d w = Ok () w' \<and> bootstrap_done d db m w w'"
proof -
  let ?k = "knot (Suc i)" and ?s = "next_ptr w"
  let ?a = "next_ptr w + 1" and ?np = "next_ptr w + 2" and ?nl = "next_ptr w + 4" and ?page = "next_ptr w + 6"
  let ?db = "db\<lparr>session_list := [?s]\<rparr>"
  define w1 where "w1 = w\<lparr>sessions := (sessions w)(?s \<mapsto> new_session_on d), next_ptr := Suc ?s,
      databases := (databases w)(d \<mapsto> ?db)\<rparr>"
  have create: "obl_create_session d w = Ok ?s w1"
    using create_session_run [OF assms(4,3,5,10)] assms(9) by (simp add: w1_def)
  have n: "?s \<noteq> NULL" "next_ptr w1 = ?a" using assms(2) by (simp_all add: w1_def world_ok_def fresh_def)
  have ptr: "fixed_ptr w1 b = fixed_ptr w b" for b by (simp add: w1_def fixed_ptr_def)
  have ok1: "world_ok w1"
    using world_ok_used [OF assms(2)] by (subst world_ok_cong [of _ "used_pointer w"]) (simp_all add: w1_def)
  have slots: "shape_with_slots u w1 (fixed_ptr w1 OBL_ALLOCATOR_SHAPE_ADDR) allocator_slots"
    unfolding ptr by (rule keeps_slots [OF keeps_frame assms(11)]) (simp_all add: w1_def)
  have ses1: "sessions w1 ?s = Some (new_session_on d)" "databases w1 (ses_database (new_session_on d)) = Some ?db"
    "malloc_budget w1 = None"
    using assms(3) by (simp_all add: w1_def new_session_on_def)
  define w2 where "w2 = bootstrapped w1"
  note made = bootstrap_objects_run [OF assms(1) ok1 ses1(3,1,2) slots assms(12), folded w2_def]
  have b2: "bootstrap_heap u w2 [?a, ?np, ?nl, ?page] 0 0"
    using bootstrapped_heap [of w1 u] made(2,3) by (simp add: w2_def n eval_nat_numeral)
  have f2: "malloc_budget w2 = None" "sessions w2 ?s = Some (new_session_on d)" "databases w2 d = Some ?db"
    "content ?db = Some m" "session_list ?db = [?s]" "0 < session_list_mutex ?db"
    using assms(3,6,10) by (simp_all add: w2_def bootstrapped_def Let_def w1_def)
  from bootstrap_rest_run [OF b2 f2(1,2) n(1) f2(3,4) assms(7,8) f2(5,6), of ?k] obtain w' where
    w': "bootstrap_rest ?k d ?s [?a, ?np, ?nl, ?page] w2 = Ok () w'" "world_ok w'"
    "databases w' = (databases w2)(d \<mapsto> ?db\<lparr>session_list := [], root := bootstrap_root,
        content := Some (store_words m 0 bootstrap_words)\<rparr>)"
    "heap w' = (heap w2)(?np := None, ?a := None, ?nl := None)" "sessions w' = (sessions w2)(?s := None)"
    "transactions w' = transactions w2" "next_ptr w' = next_ptr w2" "fixed_space w' = fixed_space w2"
    "malloc_budget w' = None" by blast
  have unused: "heap w (Suc ?s) = None" "heap w (?s + 2) = None" "heap w (?s + 4) = None"
    using assms(2) by (simp_all add: world_ok_def fresh_def)
  then have "heap w' = (heap w)(?page \<mapsto> placed 0 12 (fixed_ptr w OBL_ADDRTREEPAGE_SHAPE_ADDR) empty_page)"
    unfolding w'(4) by (intro ext) (simp add: w2_def bootstrapped_def Let_def w1_def ptr eval_nat_numeral)
  moreover have "?db\<lparr>session_list := [], root := bootstrap_root, content := c\<rparr> =
      db\<lparr>root := bootstrap_root, content := c\<rparr>" for c
    using assms(9) by (cases db) simp
  ultimately have "bootstrap_done d db m w w'"
    using w' by (simp add: bootstrap_done_def w2_def bootstrapped_def Let_def w1_def)
  moreover have "i_bootstrap_database u ?k d w = Ok () w'"
    using create made(1) w'(1) n
    by (simp add: i_bootstrap_database_def bootstrap_rest_def bindM_run eval_nat_numeral)
  ultimately show ?thesis by blast
qed

end
