(* ===== verification/Opening.thy ===== *)
theory Opening
  imports Bootstrap
begin

text \<open>
  Opening an empty in-memory database: the root and the address map that its words are after it has
  been bootstrapped, and how \<open>obl_open_database\<close> gets there.
\<close>

section \<open>Opening\<close>

lemma bootstrap_entry:
  assumes "i < 256"
  shows "readable_uint (bootstrap_words ! (14 + i)) =
     (if i = 1 then 5 else if i = 2 then 8 else if i = 3 then 10 else 0)"
proof -
  have split: "bootstrap_words = map writable_uint [magic, 12, 1, 0, 0, fixed_addr OBL_ALLOCATOR_SHAPE_ADDR, 3, 2,
     fixed_addr OBL_INTEGER_SHAPE_ADDR, 270, fixed_addr OBL_INTEGER_SHAPE_ADDR, 4,
     fixed_addr OBL_ADDRTREEPAGE_SHAPE_ADDR, 0] @ (0 # writable_uint 5 # writable_uint 8 # writable_uint 10 #
       replicate 252 0)"
    by (simp add: bootstrap_words_def)
  have "bootstrap_words ! (14 + i) =
      (0 # writable_uint 5 # writable_uint 8 # writable_uint 10 # replicate 252 0) ! i"
    unfolding split by (subst nth_append) simp
  then show ?thesis
    using assms by (auto simp: nth_Cons' uint_codec.rd_wr)
qed

text \<open>The memory of a bootstrapped database, and the root and the address map in it.\<close>

lemma bootstrapped_memory:
  assumes "m = store_words m0 0 bootstrap_words" "270 \<le> capacity m0" "capacity m0 < 2 ^ 31"
  shows "page_tree m 0 12"
    and "tree_map m 0 12 l = (if unat l mod 256 = 1 then 5 else if unat l mod 256 = 2 then 8
      else if unat l mod 256 = 3 then 10 else 0)"
    and "readable_physical (cells m 1) = 12" "readable_logical (cells m 2) = 1"
    "readable_logical (cells m 3) = 0" "readable_logical (cells m 4) = 0"
proof -
  have len: "length bootstrap_words = 270" by (simp add: bootstrap_words_def)
  show "page_tree m 0 12"
    using assms len by (simp add: page_header_def PAGE_TAG_def) (simp add: bootstrap_words_def)
  have "page_entry m 12 (digit 0 l) = readable_uint (bootstrap_words ! (14 + digit 0 l))"
    using len digit_less [of 0 l] by (simp add: page_entry_def assms(1) del: digit_less)
  then show "tree_map m 0 12 l = (if unat l mod 256 = 1 then 5 else if unat l mod 256 = 2 then 8
      else if unat l mod 256 = 3 then 10 else 0)"
    using bootstrap_entry [OF digit_less, of 0 l] by (simp add: digit_def)
  show "readable_physical (cells m 1) = 12" "readable_logical (cells m 2) = 1"
    "readable_logical (cells m 3) = 0" "readable_logical (cells m 4) = 0"
    using len
    by (simp_all add: assms(1))
      (simp_all add: bootstrap_words_def physical_codec.rd_wr [unfolded writable_physical_def]
        readable_logical_def uint_codec.rd_wr)
qed

lemma bootstrapped_lookup:
  assumes "databases w d = Some db" "content db = Some (store_words m0 0 bootstrap_words)"
    and "address_map_addr (root db) = 12" "270 \<le> capacity m0" "capacity m0 < 2 ^ 31"
  shows "obl_address_lookup d l w =
     Ok (if l = 1 then 5 else if l = 2 then 8 else if l = 3 then 10 else 0) w"
proof -
  note memory = bootstrapped_memory [OF refl assms(4,5)]
  have "has_content w d (store_words m0 0 bootstrap_words)"
    using assms(1,2) by (simp add: has_content_def)
  from address_lookup_run [OF this assms(1), of 0 l] memory(1) assms(3)
  have lookup: "obl_address_lookup d l w =
      Ok (if unat l < 256 then tree_map (store_words m0 0 bootstrap_words) 0 12 l else 0) w"
    by simp
  have small: "l = 1 \<longleftrightarrow> unat l = 1" "l = 2 \<longleftrightarrow> unat l = 2" "l = 3 \<longleftrightarrow> unat l = 3"
    by (simp_all add: word_unat_eq_iff)
  show ?thesis
    unfolding lookup memory(2) small by (cases "unat l < 256") auto
qed

text \<open>A database that \<open>obl_open_database\<close> has just made.\<close>

definition effective :: "obl_database_config \<Rightarrow> obl_database_config" where
  "effective config = config
     \<lparr>default_stub_depth := (if default_stub_depth config = 0 then DEFAULT_STUB_DEPTH
        else default_stub_depth config),
      growth_size := (if growth_size config = 0 then DEFAULT_GROWTH_SIZE else growth_size config),
      log_level := (if log_level config = L_DEFAULT then L_NOTICE else log_level config)\<rparr>"

definition unopened :: "obl_database_config \<Rightarrow> obl_database" where
  "unopened config = \<lparr>configuration = effective config, error_message = None, error_code = OBL_OK,
     root = \<lparr>address_map_addr = OBL_PHYSICAL_UNASSIGNED, allocator_addr = OBL_LOGICAL_UNASSIGNED,
       shape_map_addr = OBL_LOGICAL_UNASSIGNED, name_map_addr = OBL_LOGICAL_UNASSIGNED, dirty = False\<rparr>,
     content = None, content_size = 0, content_mutex = 1, session_list = [], session_list_mutex = 1\<rparr>"

definition zeroed :: "nat \<Rightarrow> memory" where
  "zeroed n = \<lparr>cells = (\<lambda>_. 0), capacity = n\<rparr>"

definition mapped_database :: "obl_database_config \<Rightarrow> obl_database" where
  "mapped_database config = (unopened config)
     \<lparr>content := Some (zeroed (nat (growth_size (effective config)))),
      content_size := word_of_int (growth_size (effective config))\<rparr>"

lemma map_memory_run:
  assumes "malloc_budget w = None" "databases w d = Some (unopened config)" "filename config = None"
    and "0 \<le> growth_size (effective config)" "growth_size (effective config) < 2 ^ 31"
  shows "i_obl_map_database d w = Ok False (w\<lparr>databases := (databases w)(d \<mapsto> mapped_database config)\<rparr>)"
proof -
  have "unat (word_of_int (growth_size (effective config)) :: obl_uint) = nat (growth_size (effective config))"
    using assms(4,5) by (simp add: unat_eq_nat_uint uint_word_of_int)
  moreover have "filename (effective config) = None" using assms(3) by (simp add: effective_def)
  ultimately show ?thesis
    using assms(1,2)
    by (simp add: i_obl_map_database_def unopened_def mapped_database_def zeroed_def bindM_run thenM_run
        get_run update_run malloc_run retM_run Let_def)
qed

lemma open_database_run:
  assumes "malloc_budget w = None" "\<not> zero_check config" "filename config = None" "0 < next_ptr w"
    and "270 \<le> growth_size (effective config)" "growth_size (effective config) < 2 ^ 31"
    and "w1 = logged (mapped_database config) L_INFO (Text ''Bootstrapping the database.'')
      (w\<lparr>ambient_log_level := log_level (effective config),
         databases := (databases w)(next_ptr w \<mapsto> mapped_database config), next_ptr := Suc (next_ptr w)\<rparr>)"
  shows "obl_open_database u k config w =
     thenM (i_bootstrap_database u k (next_ptr w)) (thenM (i_read_root (next_ptr w)) (retM (next_ptr w))) w1"
proof -
  let ?d = "next_ptr w"
  let ?w = "w\<lparr>ambient_log_level := log_level (effective config)\<rparr>"
  let ?w1 = "?w\<lparr>databases := (databases w)(?d \<mapsto> mapped_database config), next_ptr := Suc ?d\<rparr>"
  have new: "new_database (unopened config) ?w =
      Ok ?d (?w\<lparr>databases := (databases w)(?d \<mapsto> unopened config), next_ptr := Suc ?d\<rparr>)"
    by (simp add: new_run)
  have map: "i_obl_map_database ?d (?w\<lparr>databases := (databases w)(?d \<mapsto> unopened config), next_ptr := Suc ?d\<rparr>) =
      Ok False ?w1"
    using map_memory_run [OF _ _ assms(3)] assms(1,5,6) by simp
  have size: "unat (word_of_int (growth_size (effective config)) :: obl_uint) = nat (growth_size (effective config))"
    using assms(5,6) by (simp add: unat_eq_nat_uint uint_word_of_int)
  have "has_content ?w1 ?d (zeroed (nat (growth_size (effective config))))"
    by (simp add: has_content_def mapped_database_def)
  then have cell: "read_cell ?d 0 ?w1 = Ok 0 ?w1"
    using assms(5) by (simp add: read_cell_run zeroed_def)
  have "content_size (mapped_database config) \<noteq> 0"
    using size assms(5) by (auto simp: mapped_database_def)
  moreover have "readable_uint 0 \<noteq> magic" by (simp add: magic_def)
  moreover have "OBL_INFO ?d (Text ''Bootstrapping the database.'') ?w1 = Ok () w1"
    using assms(4,7) by (simp add: log_database_run)
  ultimately show ?thesis
    using assms(1,2) new map cell
    by (simp add: obl_open_database_def bindM_run thenM_run malloc_run get_run retM_run
        obl_set_ambient_log_level_def modifyM_run Let_def
        unopened_def [unfolded One_nat_def, symmetric] effective_def [symmetric])
qed

text \<open>The database once it is open, and the process around it.\<close>

definition opened_database :: "obl_database_config \<Rightarrow> obl_database" where
  "opened_database config = (mapped_database config)\<lparr>root := bootstrap_root,
     content := Some (store_words (zeroed (nat (growth_size (effective config)))) 0 bootstrap_words)\<rparr>"

definition opened_world :: "obl_database_config \<Rightarrow> world \<Rightarrow> world \<Rightarrow> bool" where
  "opened_world config w w' \<longleftrightarrow> databases w' (next_ptr w) = Some (opened_database config) \<and>
     sessions w' = (sessions w)(next_ptr w + 1 := None) \<and>
     heap w' = (heap w)(next_ptr w + 7 \<mapsto> placed 0 12 (fixed_ptr w OBL_ADDRTREEPAGE_SHAPE_ADDR) empty_page) \<and>
     fixed_space w' = fixed_space w \<and> malloc_budget w' = None \<and> world_ok w'"

lemma open_run:
  assumes "good_icu u" "converted u ''next_logical'' \<noteq> converted u ''next_physical''"
    and "world_ok w" "malloc_budget w = None"
    and "shape_with_slots u w (fixed_ptr w OBL_ALLOCATOR_SHAPE_ADDR) allocator_slots"
    and "\<not> zero_check config" "filename config = None"
    and "270 \<le> growth_size (effective config)" "growth_size (effective config) < 2 ^ 31"
  shows "\<exists>w'. obl_open_database u (knot (Suc i)) config w = Ok (next_ptr w) w' \<and> opened_world config w w'"
proof -
  let ?d = "next_ptr w" and ?db = "mapped_database config"
  let ?m = "zeroed (nat (growth_size (effective config)))"
  have fresh: "0 < ?d" using assms(3) by (simp add: world_ok_def fresh_def)
  define w1 where "w1 = logged ?db L_INFO (Text ''Bootstrapping the database.'')
      (w\<lparr>ambient_log_level := log_level (effective config),
         databases := (databases w)(?d \<mapsto> ?db), next_ptr := Suc ?d\<rparr>)"
  have f1: "heap w1 = heap w" "next_ptr w1 = Suc ?d" "fixed_space w1 = fixed_space w"
    "malloc_budget w1 = None" "databases w1 ?d = Some ?db" "sessions w1 = sessions w"
    using assms(4) by (simp_all add: w1_def)
  have ok1: "world_ok w1"
    using world_ok_used [OF assms(3)] by (subst world_ok_cong [of _ "used_pointer w"]) (simp_all add: f1)
  have "keeps w w1" by (rule keeps_frame) (simp_all add: f1 fixed_ptr_def)
  from keeps_slots [OF this assms(5)]
  have slots: "shape_with_slots u w1 (fixed_ptr w1 OBL_ALLOCATOR_SHAPE_ADDR) allocator_slots"
    by (simp add: f1 fixed_ptr_def)
  have db: "content ?db = Some ?m" "session_list ?db = []" "0 < session_list_mutex ?db"
    "270 \<le> capacity ?m" "capacity ?m < 2 ^ 31" "?d \<noteq> NULL"
    using assms(8,9) fresh by (simp_all add: mapped_database_def unopened_def zeroed_def)
  obtain w2 where w2: "i_bootstrap_database u (knot (Suc i)) ?d w1 = Ok () w2"
    "bootstrap_done ?d ?db ?m w1 w2"
    using bootstrap_database_run [OF assms(1) ok1 f1(4) db(6) f1(5) db(1,4,5,2,3) slots assms(2)] by blast
  have d2: "databases w2 ?d = Some (opened_database config)"
    "content (opened_database config) = Some (store_words ?m 0 bootstrap_words)"
    "4 < capacity (store_words ?m 0 bootstrap_words)"
    using w2(2) db(4) by (simp_all add: bootstrap_done_def opened_database_def)
  let ?w3 = "w2\<lparr>databases := (databases w2)(?d \<mapsto> (opened_database config)\<lparr>root := bootstrap_root\<rparr>)\<rparr>"
  have "i_read_root ?d w2 = Ok () ?w3"
    using read_root_run [OF d2] bootstrapped_memory(3-6) [OF refl db(4,5)] by simp
  then have "obl_open_database u (knot (Suc i)) config w = Ok ?d ?w3"
    using open_database_run [OF assms(4,6,7) fresh assms(8,9) w1_def, of u "knot (Suc i)"] w2(1)
    by (simp add: thenM_run retM_run)
  moreover have "(opened_database config)\<lparr>root := bootstrap_root\<rparr> = opened_database config"
    by (simp add: opened_database_def)
  moreover have "world_ok ?w3" using w2(2) by (simp add: bootstrap_done_def)
  ultimately show ?thesis
    using w2(2) f1
    by (intro exI [of _ ?w3]) (simp add: bootstrap_done_def opened_world_def fixed_ptr_def eval_nat_numeral)
qed

section \<open>Properties\<close>

text \<open>
  C7: Opening an in-memory database of at least 270 words in a started process bootstraps it: the
  first 270 words hold the magic number, the root, the allocator with its two counters and one leaf of
  the address map, the others are 0. The root names the map at 12 and the allocator at 1, and a lookup
  finds exactly the three objects. No session is left, every object of the process is as it was, and
  the page object that bootstrapping made is still allocated, although nothing refers to it any more.
\<close>

theorem open_bootstraps:
  assumes "good_icu u" "converted u ''next_logical'' \<noteq> converted u ''next_physical''"
    and "world_ok w" "malloc_budget w = None"
    and "shape_with_slots u w (fixed_ptr w OBL_ALLOCATOR_SHAPE_ADDR) [''next_logical'', ''next_physical'']"
    and "\<not> zero_check config" "filename config = None"
    and "n = (if growth_size config = 0 then 4096 else growth_size config)" "270 \<le> n" "n < 2 ^ 31"
  shows "\<exists>w' db m. obl_open_database u (knot (Suc i)) config w = Ok (next_ptr w) w' \<and>
     databases w' (next_ptr w) = Some db \<and> content db = Some m \<and> capacity m = nat n \<and>
     cells m = (\<lambda>j. if j < 270 then bootstrap_words ! j else 0) \<and>
     root db = \<lparr>address_map_addr = 12, allocator_addr = 1, shape_map_addr = 0, name_map_addr = 0,
       dirty = False\<rparr> \<and>
     session_list db = [] \<and> error_code db = OBL_OK \<and>
     (\<forall>l. obl_address_lookup (next_ptr w) l w' =
        Ok (if l = 1 then 5 else if l = 2 then 8 else if l = 3 then 10 else 0) w') \<and>
     (\<forall>s\<le>next_ptr w. sessions w' s = sessions w s) \<and>
     world_ok w' \<and> (\<forall>p<next_ptr w. heap w' p = heap w p) \<and>
     map_option obj_storage (heap w' (next_ptr w + 7)) = Some empty_page"
proof -
  have n: "growth_size (effective config) = n"
    using assms(8) by (simp add: effective_def DEFAULT_GROWTH_SIZE_def)
  obtain w' where w': "obl_open_database u (knot (Suc i)) config w = Ok (next_ptr w) w'"
    "opened_world config w w'"
    using open_run [OF assms(1-7)] assms(9,10) n by blast
  let ?db = "opened_database config" and ?m = "store_words (zeroed (nat n)) 0 bootstrap_words"
  have cap: "270 \<le> capacity (zeroed (nat n))" "capacity (zeroed (nat n)) < 2 ^ 31"
    using assms(9,10) by (simp_all add: zeroed_def)
  have db: "databases w' (next_ptr w) = Some ?db" "content ?db = Some ?m" "address_map_addr (root ?db) = 12"
    using w'(2) by (simp_all add: opened_world_def opened_database_def n)
  moreover have "obl_address_lookup (next_ptr w) l w' =
        Ok (if l = 1 then 5 else if l = 2 then 8 else if l = 3 then 10 else 0) w'" for l
    by (rule bootstrapped_lookup [OF db cap])
  moreover have "cells ?m = (\<lambda>j. if j < 270 then bootstrap_words ! j else 0)"
    by (rule ext) (simp add: zeroed_def bootstrap_words_def)
  ultimately show ?thesis
    using w'
    by (intro exI [of _ w'] exI [of _ ?db] exI [of _ ?m])
      (simp add: opened_world_def zeroed_def opened_database_def mapped_database_def unopened_def)
qed

lemma open_bootstraps_witness:
  "\<exists>w' db. obl_open_defdatabase ascii_icu (knot 1) None started_world = Ok (next_ptr started_world) w' \<and>
     databases w' (next_ptr started_world) = Some db \<and> allocator_addr (root db) = 1 \<and>
     obl_address_lookup (next_ptr started_world) 2 w' = Ok 8 w'"
proof -
  let ?c = "\<lparr>filename = None, prohibit_creation = False, growth_size = 0, log_filename = None,
        log_level = L_DEFAULT, default_stub_depth = 0, zero_check = False\<rparr> :: obl_database_config"
  have "\<not> zero_check ?c" "filename ?c = None" "4096 = (if growth_size ?c = 0 then 4096 else growth_size ?c)"
    "(270 :: int) \<le> 4096" "(4096 :: int) < 2 ^ 31" by simp_all
  from open_bootstraps [OF good_ascii ascii_slots started_world_ok this, of 0] show ?thesis
    by (auto simp: obl_open_defdatabase_def)
qed

end
