(* ===== verification/Allocation.thy ===== *)
theory Allocation
  imports AutoCommit Opening
begin

text \<open>
  The allocator: loading it with its counters from the words of a database, and the addresses that it
  hands out.
\<close>

section \<open>An allocator in memory\<close>

text \<open>The allocator of the database is in the read set, with its counters; nothing else is going on.\<close>

definition allocator_object :: "icu \<Rightarrow> world \<Rightarrow> ptr \<Rightarrow> ptr list \<Rightarrow> bool" where
  "allocator_object u w a vals \<longleftrightarrow> a \<noteq> NULL \<and> (\<exists>x. slotted_object u w a x allocator_slots vals \<and>
     obj_shape x = fixed_ptr w OBL_ALLOCATOR_SHAPE_ADDR)"

definition allocator_loaded :: "icu \<Rightarrow> world \<Rightarrow> ptr \<Rightarrow> obl_session \<Rightarrow> obl_database \<Rightarrow> memory \<Rightarrow>
    ptr \<Rightarrow> ptr list \<Rightarrow> bool" where
  "allocator_loaded u w s r db m a vals \<longleftrightarrow> world_ok w \<and> malloc_budget w = None \<and>
     idle_session w s r \<and> commits_to w s r db m \<and> \<not> IS_FIXED_ADDR (allocator_addr (root db)) \<and>
     (\<exists>rs. open_session w s r rs \<and> lookup_r (set_root rs) (unat (allocator_addr (root db))) = Some a) \<and>
     allocator_object u w a vals \<and>
     (\<forall>p\<in>set vals. \<exists>x v. stored_number w s (capacity m) p x v)"

lemma get_allocator_run:
  assumes "allocator_loaded u w s r db m a vals"
  shows "i_get_allocator (knot (Suc n)) s w = Ok a w"
proof -
  obtain rs x where l: "open_session w s r rs" "\<not> IS_FIXED_ADDR (allocator_addr (root db))"
    "lookup_r (set_root rs) (unat (allocator_addr (root db))) = Some a" "a \<noteq> NULL"
    "slotted_object u w a x allocator_slots vals" "obj_shape x = fixed_ptr w OBL_ALLOCATOR_SHAPE_ADDR"
    "fixed_ok w" "sessions w s = Some r" "databases w (ses_database r) = Some db"
    using assms by (auto simp: allocator_loaded_def allocator_object_def world_ok_def idle_session_def
        commits_to_def)
  have x: "heap w a = Some x" using l(5) by (simp add: slotted_object_def)
  have "i_obl_at_address_depth (knot n) s (allocator_addr (root db)) depth True w = Ok a w" for depth
    by (rule at_address_cached [where t = OBL_SLOTTED, OF l(7,1,2,3,4) x l(6)]) simp_all
  then show ?thesis
    using l(6,8,9) x
    by (simp add: i_get_allocator_def obl_at_address_def obl_at_address_depth_def knot.simps(2) bindM_run
        get_run at_fixed_address_run retM_run)
qed

text \<open>Advancing one of its counters keeps it.\<close>

lemma number_set_keeps:
  assumes "fixed_ok w" "stored_number w s n p x i" "number_set w r db m p x v w'"
  shows "allocator_object u w a vals \<Longrightarrow> allocator_object u w' a vals"
    and "stored_number w s n q y j \<Longrightarrow> \<exists>y j. stored_number w' s n q y j"
    and "stored_number w' s n p (x\<lparr>obj_storage := Integer_storage \<lparr>integer_value = v\<rparr>\<rparr>) v"
proof -
  let ?x = "x\<lparr>obj_storage := Integer_storage \<lparr>integer_value = v\<rparr>\<rparr>"
  let ?w1 = "put_object p ?x w"
  have x: "heap w p = Some x" "obj_shape ?x = obj_shape x" "obj_shape x = fixed_ptr w OBL_INTEGER_SHAPE_ADDR"
    using assms(2) by (simp_all add: stored_number_def)
  have heap: "heap w' = heap ?w1" "fixed_space w' = fixed_space ?w1"
    using assms(3) by (simp_all add: number_set_def put_object_def)
  have ptr: "fixed_ptr w' b = fixed_ptr w b" for b using heap(2) by (simp add: fixed_ptr_def)
  note typed = number_typed [OF assms(1,2)]
  show "allocator_object u w' a vals" if alloc: "allocator_object u w a vals"
  proof -
    from alloc obtain y where y: "slotted_object u w a y allocator_slots vals"
      "obj_shape y = fixed_ptr w OBL_ALLOCATOR_SHAPE_ADDR" "a \<noteq> NULL"
      by (auto simp: allocator_object_def)
    have "a \<noteq> p" using typed_at_unique [OF typed] slotted_typed [OF y(1)] by auto
    then have "slotted_object u ?w1 a y allocator_slots vals"
      using y(1) slots_put [OF typed _ x(1,2)] by (simp add: slotted_object_def)
    then have "slotted_object u w' a y allocator_slots vals" by (rule slotted_cong) (fact heap)+
    then show ?thesis using y(2,3) ptr by (auto simp: allocator_object_def)
  qed
  show "\<exists>y j. stored_number w' s n q y j" if "stored_number w s n q y j"
    using that assms(2) heap(1) ptr by (cases "q = p") (auto simp: stored_number_def)
  show "stored_number w' s n p ?x v"
    using assms(2) heap(1) ptr by (simp add: stored_number_def)
qed

lemma counter_run:
  assumes "allocator_loaded u w s r db m a vals" "i < length vals" "p = vals ! i"
    and "stored_number w s (capacity m) p x v"
    and "m' = store_words m (unat (physical_address x)) (integer_words (v + k))"
    and "x' = x\<lparr>obj_storage := Integer_storage \<lparr>integer_value = v + k\<rparr>\<rparr>" "index = of_nat i"
  shows "\<exists>w'. bindM (i_get_allocator (knot (Suc n)) s) (\<lambda>a. if a = NULL then retM 0 else
       bindM (obl_slotted_at (knot (Suc n)) a index) (\<lambda>q.
       bindM (obl_integer_value q) (\<lambda>j. thenM (obl_integer_set (knot (Suc n)) q (j + k)) (retM j)))) w =
       Ok v w' \<and>
     number_set w r db m p x (v + k) w' \<and>
     allocator_loaded u w' s r (db\<lparr>content := Some m'\<rparr>) m' a vals \<and>
     stored_number w' s (capacity m') p x' (v + k)"
proof -
  have l: "world_ok w" "malloc_budget w = None" "idle_session w s r" "commits_to w s r db m"
    "\<not> IS_FIXED_ADDR (allocator_addr (root db))" "allocator_object u w a vals"
    "\<forall>p\<in>set vals. \<exists>x v. stored_number w s (capacity m) p x v"
    using assms(1) by (simp_all add: allocator_loaded_def)
  obtain rs where rs: "open_session w s r rs" "lookup_r (set_root rs) (unat (allocator_addr (root db))) = Some a"
    using assms(1) by (auto simp: allocator_loaded_def)
  have ok: "fixed_ok w" using l(1) by (simp add: world_ok_def)
  obtain w' where w': "obl_integer_set (knot (Suc n)) p (v + k) w = Ok () w'"
    "number_set w r db m p x (v + k) w'"
    using integer_set_commits_run [OF l(1-4) assms(4)] by blast
  note keep = number_set_keeps [OF ok assms(4) w'(2)]
  obtain y where y: "slotted_object u w a y allocator_slots vals"
    using l(6) by (auto simp: allocator_object_def)
  have "typed_at w (vals ! i) OBL_INTEGER" using number_typed [OF ok assms(4)] assms(3) by simp
  then have at: "obl_slotted_at (knot (Suc n)) a index w = Ok p w"
    using slotted_at_run [OF y assms(2)] assms(3,7) by simp
  have "obl_integer_value p w = Ok v w"
    using integer_value_run [OF ok, of p x "\<lparr>integer_value = v\<rparr>"] assms(4) by (simp add: stored_number_def)
  moreover have "a \<noteq> NULL" using l(6) by (simp add: allocator_object_def)
  ultimately have run: "bindM (i_get_allocator (knot (Suc n)) s) (\<lambda>a. if a = NULL then retM 0 else
       bindM (obl_slotted_at (knot (Suc n)) a index) (\<lambda>q.
       bindM (obl_integer_value q) (\<lambda>j. thenM (obl_integer_set (knot (Suc n)) q (j + k)) (retM j)))) w =
       Ok v w'"
    using get_allocator_run [OF assms(1)] at w'(1) by (simp add: bindM_run thenM_run retM_run)
  have "open_session w' s r rs" "idle_session w' s r" "malloc_budget w' = None"
    using rs(1) l(2,3) w'(2) by (simp_all add: open_session_def idle_session_def number_set_def)
  moreover have "commits_to w' s r (db\<lparr>content := Some m'\<rparr>) m'"
    using l(4) w'(2) assms(5) by (simp add: commits_to_def number_set_def)
  moreover have "capacity m' = capacity m" using assms(5) by simp
  ultimately have "allocator_loaded u w' s r (db\<lparr>content := Some m'\<rparr>) m' a vals"
    using l rs(2) keep number_set_world_ok [OF l(1) assms(4) w'(2)] by (auto simp: allocator_loaded_def) 
  then show ?thesis using run w'(2) keep(3) \<open>capacity m' = capacity m\<close> assms(6) by auto
qed

lemma store_words_again:
  "length us = length vs \<Longrightarrow> store_words (store_words m b us) b vs = store_words m b vs"
  by (rule memory_eqI) auto

text \<open>Addresses are handed out one after the other.\<close>

lemma allocate_logical_run:
  assumes "allocator_loaded u w s r db m a [nl, np]" "stored_number w s (capacity m) nl x v"
    and "m' = store_words m (unat (physical_address x)) (integer_words (v + 1))"
  shows "\<exists>w'. obl_allocate_logical (knot (Suc n)) s w = Ok v w' \<and>
     allocator_loaded u w' s r (db\<lparr>content := Some m'\<rparr>) m' a [nl, np] \<and>
     stored_number w' s (capacity m') nl
       (x\<lparr>obj_storage := Integer_storage \<lparr>integer_value = v + 1\<rparr>\<rparr>) (v + 1)"
  using counter_run [OF assms(1) _ _ assms(2,3) refl, where i = 0 and index = 0]
  by (auto simp: obl_allocate_logical_def)

lemma allocations_run:
  assumes "allocator_loaded u w s r db m a [nl, np]" "stored_number w s (capacity m) nl x v"
  shows "\<exists>w' m'. mapM (\<lambda>_. obl_allocate_logical (knot (Suc n)) s) xs w =
       Ok (map (\<lambda>i. v + of_nat i) [0..<length xs]) w' \<and>
     allocator_loaded u w' s r (db\<lparr>content := Some m'\<rparr>) m' a [nl, np] \<and>
     m' = (if xs = [] then m else store_words m (unat (physical_address x)) (integer_words (v + of_nat (length xs))))"
  using assms
proof (induction xs arbitrary: w db m x v)
  case Nil
  have "db\<lparr>content := Some m\<rparr> = db"
    using Nil.prems(1) by (cases db) (simp add: allocator_loaded_def commits_to_def)
  with Nil show ?case by (simp add: retM_run)
next
  case (Cons i xs)
  let ?b = "unat (physical_address x)"
  let ?m1 = "store_words m ?b (integer_words (v + 1))"
  obtain w1 where w1: "obl_allocate_logical (knot (Suc n)) s w = Ok v w1"
    "allocator_loaded u w1 s r (db\<lparr>content := Some ?m1\<rparr>) ?m1 a [nl, np]"
    "stored_number w1 s (capacity ?m1) nl
       (x\<lparr>obj_storage := Integer_storage \<lparr>integer_value = v + 1\<rparr>\<rparr>) (v + 1)"
    using allocate_logical_run [OF Cons.prems refl] by blast
  have "\<exists>w' m'. mapM (\<lambda>_. obl_allocate_logical (knot (Suc n)) s) xs w1 =
       Ok (map (\<lambda>i. v + 1 + of_nat i) [0..<length xs]) w' \<and>
     allocator_loaded u w' s r (db\<lparr>content := Some m'\<rparr>) m' a [nl, np] \<and>
     m' = (if xs = [] then ?m1 else store_words ?m1 ?b (integer_words (v + 1 + of_nat (length xs))))"
    using Cons.IH [OF w1(2,3)] by (simp cong: if_cong)
  then obtain w' m' where w': "mapM (\<lambda>_. obl_allocate_logical (knot (Suc n)) s) xs w1 =
       Ok (map (\<lambda>i. v + 1 + of_nat i) [0..<length xs]) w'"
    "allocator_loaded u w' s r (db\<lparr>content := Some m'\<rparr>) m' a [nl, np]"
    "m' = (if xs = [] then ?m1 else store_words ?m1 ?b (integer_words (v + 1 + of_nat (length xs))))"
    by blast
  have "map (\<lambda>i. v + of_nat i) [0..<length (i # xs)] = v # map (\<lambda>i. v + 1 + of_nat i) [0..<length xs]"
    by (simp add: upt_conv_Cons map_Suc_upt [symmetric] del: upt_Suc map_Suc_upt)
  moreover have "m' = store_words m ?b (integer_words (v + of_nat (length (i # xs))))"
    using w'(3) by (simp add: store_words_again algebra_simps)
  ultimately show ?case using w1(1) w'(1,2)
    by (intro exI [of _ w'] exI [of _ m']) (simp add: bindM_run retM_run del: upt_Suc)
qed

section \<open>Loading it\<close>

text \<open>An integer in the words of a database, that a logical address leads to.\<close>

definition integer_behind :: "ptr \<Rightarrow> obl_database \<Rightarrow> memory \<Rightarrow> obl_logical_address \<Rightarrow>
    obl_physical_address \<Rightarrow> obl_int \<Rightarrow> bool" where
  "integer_behind d db m l b v \<longleftrightarrow>
     (\<forall>w. databases w d = Some db \<longrightarrow> obl_address_lookup d l w = Ok b w) \<and> \<not> IS_FIXED_ADDR l \<and>
     l \<noteq> OBL_LOGICAL_UNASSIGNED \<and> b \<noteq> OBL_PHYSICAL_UNASSIGNED \<and> unat b + 2 \<le> capacity m \<and>
     cells m (unat b) = writable_logical (fixed_addr OBL_INTEGER_SHAPE_ADDR) \<and>
     cells m (unat b + 1) = writable_int v"

text \<open>While the slots of the allocator are being read.\<close>

definition allocator_at :: "world \<Rightarrow> ptr list \<Rightarrow> obl_object" where
  "allocator_at w vals = plain_object (fixed_ptr w OBL_ALLOCATOR_SHAPE_ADDR) (Slotted_storage \<lparr>slots = vals\<rparr>)"

definition loading :: "icu \<Rightarrow> world \<Rightarrow> ptr \<Rightarrow> obl_session \<Rightarrow> obl_set \<Rightarrow> obl_database \<Rightarrow> memory \<Rightarrow> ptr \<Rightarrow>
    ptr list \<Rightarrow> bool" where
  "loading u w s r rs db m a vals \<longleftrightarrow> world_ok w \<and> malloc_budget w = None \<and>
     sessions w s = Some r \<and> readable_set r rs \<and> databases w (ses_database r) = Some db \<and>
     content db = Some m \<and> capacity m < 2 ^ 31 \<and>
     slotted_object u w a (allocator_at w vals) allocator_slots vals"

definition loaded_number :: "world \<Rightarrow> ptr \<Rightarrow> obl_logical_address \<Rightarrow> obl_physical_address \<Rightarrow> obl_int \<Rightarrow> obl_object" where
  "loaded_number w s l b v = \<lparr>obj_session = s, logical_address = l, physical_address = b,
     obj_shape = fixed_ptr w OBL_INTEGER_SHAPE_ADDR, obj_storage = Integer_storage \<lparr>integer_value = v\<rparr>\<rparr>"

lemma load_number:
  assumes "world_ok w" "malloc_budget w = None" "sessions w s = Some r" "readable_set r rs"
    and "databases w (ses_database r) = Some db" "content db = Some m" "capacity m < 2 ^ 31"
    and "integer_behind (ses_database r) db m l b v" "lookup_r (set_root rs) (unat l) = None" "0 < depth"
  shows "call_at_address_depth (knot (Suc (Suc n))) s l depth False w = Ok (next_ptr w)
     (add_object (loaded_number w s l b v) w
        \<lparr>sessions := (sessions w)(s \<mapsto> r\<lparr>read_set := Some (with_entry rs l (next_ptr w))\<rparr>)\<rparr>)"
proof -
  let ?st = "Integer_storage \<lparr>integer_value = v\<rparr>"
  let ?x = "(plain_object (fixed_ptr w OBL_INTEGER_SHAPE_ADDR) ?st)\<lparr>physical_address := b\<rparr>"
  have ok: "fixed_ok w" "fresh w" using assms(1) by (simp_all add: world_ok_def)
  have content: "has_content w (ses_database r) m" using assms(5,6) by (simp add: has_content_def)
  have behind: "obl_address_lookup (ses_database r) l w = Ok b w" "\<not> IS_FIXED_ADDR l" "b \<noteq> 0"
    "unat b + 2 \<le> capacity m" "cells m (unat b + 1) = writable_int v"
    "cells m (unat b) = writable_logical (fixed_addr OBL_INTEGER_SHAPE_ADDR)"
    using assms(5,8) by (simp_all add: integer_behind_def)
  have "obl_read_object (knot (Suc n)) s (ses_database r) b depth w = Ok (next_ptr w) (add_object ?x w)"
    by (rule read_leaf [OF ok assms(2,3) _ content behind(6), where st = ?st, unfolded trimmed.simps])
      (use behind assms(7) in simp_all)
  note load = at_address_reads [OF assms(3,4) behind(2) assms(10,9) _ refl _ behind(3), of False]
  have "i_obl_at_address_depth (knot (Suc n)) s l depth False w = Ok (next_ptr w)
     (put_object (next_ptr w) (?x\<lparr>logical_address := l, obj_session := s\<rparr>) (add_object ?x w)
        \<lparr>sessions := (sessions (add_object ?x w))(s \<mapsto>
           posted False (r\<lparr>read_set := Some (with_entry rs l (next_ptr w))\<rparr>))\<rparr>)"
    by (rule load) (use assms behind(1) \<open>obl_read_object _ _ _ _ _ _ = _\<close> in
        \<open>simp_all add: waiting_def fun_upd_idem\<close>)
  moreover have "?x\<lparr>logical_address := l, obj_session := s\<rparr> = loaded_number w s l b v"
    by (simp add: plain_object_def loaded_number_def)
  ultimately show ?thesis by (simp add: knot.simps(2) posted_def)
qed

definition load_slot :: "calls \<Rightarrow> ptr \<Rightarrow> ptr \<Rightarrow> obl_physical_address \<Rightarrow> int \<Rightarrow> ptr \<Rightarrow> nat \<Rightarrow> unit exec" where
  "load_slot k s d base depth a i =
     bindM (read_cell d (base + 1 + of_nat i)) (\<lambda>c.
     bindM (call_at_address_depth k s (readable_logical c) (depth - 1) False) (\<lambda>linked.
       obl_slotted_at_put k a (of_nat i) linked))"

lemma load_slot_run:
  assumes "loading u w s r rs db m a vals" "i < length vals" "unat base + 3 \<le> capacity m"
    and "cells m (unat base + 1 + i) = writable_uint l" "integer_behind (ses_database r) db m l b v"
    and "lookup_r (set_root rs) (unat l) = None" "1 < depth"
    and "w' = put_object a (allocator_at w (vals[i := next_ptr w])) (add_object (loaded_number w s l b v) w
        \<lparr>sessions := (sessions w)(s \<mapsto> r\<lparr>read_set := Some (with_entry rs l (next_ptr w))\<rparr>)\<rparr>)"
  shows "load_slot (knot (Suc (Suc n))) s (ses_database r) base depth a i w = Ok () w'"
    and "loading u w' s (r\<lparr>read_set := Some (with_entry rs l (next_ptr w))\<rparr>)
       (with_entry rs l (next_ptr w)) db m a (vals[i := next_ptr w])"
proof -
  let ?y = "loaded_number w s l b v" and ?r = "r\<lparr>read_set := Some (with_entry rs l (next_ptr w))\<rparr>"
  let ?w1 = "add_object ?y w\<lparr>sessions := (sessions w)(s \<mapsto> ?r)\<rparr>"
  have l: "world_ok w" "malloc_budget w = None" "sessions w s = Some r" "readable_set r rs"
    "databases w (ses_database r) = Some db" "content db = Some m" "capacity m < 2 ^ 31"
    "slotted_object u w a (allocator_at w vals) allocator_slots vals"
    using assms(1) by (simp_all add: loading_def)
  have two: "length vals = 2" using l(8) by (simp add: slotted_object_def)
  have content: "has_content w (ses_database r) m" using l(5,6) by (simp add: has_content_def)
  have "unat (base + 1 + of_nat i) = unat base + 1 + i"
    using unat_offset [of base "1 + i"] assms(2,3) l(7) two by (simp add: add.assoc)
  then have cell: "read_cell (ses_database r) (base + 1 + of_nat i) w = Ok (writable_uint l) w"
    using read_cell_run [OF content] assms(2-4) two by simp
  have load: "call_at_address_depth (knot (Suc (Suc n))) s l (depth - 1) False w = Ok (next_ptr w) ?w1"
    by (rule load_number [OF l(1-7) assms(5,6)]) (use assms(7) in simp)
  have fresh: "heap w (next_ptr w) = None" using l(1) by (simp add: world_ok_def fresh_def)
  have other: "a \<noteq> next_ptr w" using l(8) fresh by (auto simp: slotted_object_def)
  have "keeps w ?w1"
    using keeps_trans [OF keeps_add [OF fresh] keeps_frame [of ?w1 "add_object ?y w"]]
    by (simp add: fixed_ptr_def)
  from keeps_slots [OF this] have slotted1: "slotted_object u ?w1 a (allocator_at w vals) allocator_slots vals"
    using l(8) other by (auto simp: slotted_object_def)
  have "with_slots (allocator_at w vals) vals' = allocator_at w vals'" for vals'
    by (simp add: allocator_at_def plain_object_def)
  moreover have "obj_session (allocator_at w vals) = NULL" by (simp add: allocator_at_def)
  ultimately have "obl_slotted_at_put (knot (Suc (Suc n))) a (of_nat i) (next_ptr w) ?w1 = Ok () w'"
    and slotted: "slotted_object u w' a (allocator_at w (vals[i := next_ptr w])) allocator_slots (vals[i := next_ptr w])"
    using slotted_at_put_run [OF slotted1 assms(2)] slotted_put [OF slotted1, of "vals[i := next_ptr w]"]
    by (simp_all add: assms(8))
  with cell load show "load_slot (knot (Suc (Suc n))) s (ses_database r) base depth a i w = Ok () w'"
    by (simp add: load_slot_def bindM_run readable_logical_def uint_codec.rd_wr)
  have "world_ok ?w1" using world_ok_add(1) [OF l(1)] by simp
  then have "world_ok w'" unfolding assms(8) by (rule world_ok_slotted [OF slotted1])
  moreover have "allocator_at w' = allocator_at w"
    by (simp add: allocator_at_def fun_eq_iff fixed_ptr_def assms(8))
  ultimately show "loading u w' s ?r (with_entry rs l (next_ptr w)) db m a (vals[i := next_ptr w])"
    using l slotted readable_entry(1) [OF l(4)] by (simp add: loading_def assms(8))
qed

text \<open>The words of an allocator with two counters behind its slots.\<close>

definition allocator_behind :: "ptr \<Rightarrow> obl_database \<Rightarrow> memory \<Rightarrow> obl_physical_address \<Rightarrow>
    (obl_logical_address \<times> obl_physical_address \<times> obl_int) list \<Rightarrow> bool" where
  "allocator_behind d db m base counters \<longleftrightarrow> length counters = 2 \<and> distinct (map fst counters) \<and>
     base \<noteq> OBL_PHYSICAL_UNASSIGNED \<and> unat base + 3 \<le> capacity m \<and>
     cells m (unat base) = writable_logical (fixed_addr OBL_ALLOCATOR_SHAPE_ADDR) \<and>
     (\<forall>w. databases w d = Some db \<longrightarrow> obl_address_lookup d (allocator_addr (root db)) w = Ok base w) \<and>
     \<not> IS_FIXED_ADDR (allocator_addr (root db)) \<and> allocator_addr (root db) \<notin> set (map fst counters) \<and>
     (\<forall>i<2. case counters ! i of (l, b, v) \<Rightarrow> cells m (unat base + 1 + i) = writable_uint l \<and>
        integer_behind d db m l b v)"

text \<open>The session and its read set after the two counters have been loaded to the places after \<open>a\<close>.\<close>

definition with_counters :: "obl_set \<Rightarrow> obl_logical_address \<Rightarrow> obl_logical_address \<Rightarrow> ptr \<Rightarrow> obl_set" where
  "with_counters rs l0 l1 a = with_entry (with_entry rs l0 (a + 1)) l1 (a + 2)"

lemma slotted_read_run:
  assumes "world_ok w" "malloc_budget w = None" "sessions w s = Some r" "readable_set r rs"
    and "databases w (ses_database r) = Some db" "content db = Some m" "capacity m < 2 ^ 31"
    and "shape_with_slots u w (fixed_ptr w OBL_ALLOCATOR_SHAPE_ADDR) allocator_slots"
    and "allocator_behind (ses_database r) db m base [(l0, b0, v0), (l1, b1, v1)]" "1 < depth"
    and "lookup_r (set_root rs) (unat l0) = None" "lookup_r (set_root rs) (unat l1) = None"
    and "r' = r\<lparr>read_set := Some (with_counters rs l0 l1 (next_ptr w))\<rparr>"
  shows "\<exists>w'. obl_slotted_read (knot (Suc (Suc n))) s (fixed_ptr w OBL_ALLOCATOR_SHAPE_ADDR)
       (ses_database r) base depth w = Ok (next_ptr w) w' \<and>
     loading u w' s r' (with_counters rs l0 l1 (next_ptr w)) db m (next_ptr w) [next_ptr w + 1, next_ptr w + 2] \<and>
     heap w' (next_ptr w + 1) = Some (loaded_number w s l0 b0 v0) \<and>
     heap w' (next_ptr w + 2) = Some (loaded_number w s l1 b1 v1) \<and>
     databases w' = databases w \<and> sessions w' = (sessions w)(s \<mapsto> r') \<and> fixed_space w' = fixed_space w"
proof -
  let ?a = "next_ptr w" and ?k = "knot (Suc (Suc n))" and ?d = "ses_database r"
  let ?s = "fixed_ptr w OBL_ALLOCATOR_SHAPE_ADDR" and ?nil = "nil_ptr w"
  have fresh: "fresh w" "heap w ?a = None" using assms(1) by (simp_all add: world_ok_def fresh_def)
  obtain sx where sx: "heap w ?s = Some sx" "obj_session sx = NULL"
    using assms(1) unfolding world_ok_def fixed_ok_def fixed_object_def fixed_content_def by blast
  define w1 where "w1 = add_object (allocator_at w [?nil, ?nil]) w"
  have at1: "allocator_at w1 = allocator_at w" by (simp add: allocator_at_def fun_eq_iff w1_def)
  have create: "obl_create_slotted ?k ?s w = Ok ?a w1"
    using create_slotted_run [OF assms(2) fresh(1) assms(8) sx, of ?k]
    by (simp add: numeral_2_eq_2 w1_def allocator_at_def)
  have slots1: "shape_with_slots u w1 ?s allocator_slots"
    unfolding w1_def by (rule keeps_slots [OF keeps_add [OF fresh(2)] assms(8)])
  have load1: "loading u w1 s r rs db m ?a [?nil, ?nil]"
    using assms(1-7) world_ok_add(1) [OF assms(1)] slots1
    by (simp add: loading_def at1 slotted_object_def) (simp add: w1_def allocator_at_def)
  have b: "unat base + 3 \<le> capacity m" "cells m (unat base + 1 + 0) = writable_uint l0"
    "cells m (unat base + 1 + 1) = writable_uint l1" "integer_behind ?d db m l0 b0 v0"
    "integer_behind ?d db m l1 b1 v1" "l0 \<noteq> l1"
    using assms(9) by (auto simp: allocator_behind_def nth_Cons' less_2_cases_iff)
  have n1: "next_ptr w1 = ?a + 1" by (simp add: w1_def)
  define w2 where "w2 = put_object ?a (allocator_at w1 ([?nil, ?nil][0 := next_ptr w1]))
    (add_object (loaded_number w1 s l0 b0 v0) w1
        \<lparr>sessions := (sessions w1)(s \<mapsto> r\<lparr>read_set := Some (with_entry rs l0 (next_ptr w1))\<rparr>)\<rparr>)"
  have "(0 :: nat) < length [?nil, ?nil]" "(1 :: nat) < length [?a + 1, ?nil]" by simp_all
  note i = this
  note slot1 = load_slot_run [OF load1 i(1) b(1,2,4) assms(11,10) w2_def]
  let ?r2 = "r\<lparr>read_set := Some (with_entry rs l0 (?a + 1))\<rparr>" and ?rs2 = "with_entry rs l0 (?a + 1)"
  have load2: "loading u w2 s ?r2 ?rs2 db m ?a [?a + 1, ?nil]"
    using slot1(2) by (simp add: n1)
  have b2: "integer_behind (ses_database ?r2) db m l1 b1 v1" "lookup_r (set_root ?rs2) (unat l1) = None"
    using b(5,6) assms(12) readable_entry(2) [OF assms(4)] by simp_all
  define w3 where "w3 = put_object ?a (allocator_at w2 ([?a + 1, ?nil][1 := next_ptr w2]))
    (add_object (loaded_number w2 s l1 b1 v1) w2
        \<lparr>sessions := (sessions w2)(s \<mapsto> ?r2\<lparr>read_set := Some (with_entry ?rs2 l1 (next_ptr w2))\<rparr>)\<rparr>)"
  note slot2 = load_slot_run [OF load2 i(2) b(1,3) b2 assms(10) w3_def]
  have n2: "next_ptr w2 = ?a + 2" by (simp add: w2_def n1)
  have load3: "loading u w3 s r' (with_counters rs l0 l1 ?a) db m ?a [?a + 1, ?a + 2]"
    using slot2(2) by (simp add: n2 assms(13) with_counters_def)
  have "obl_shape_slotcount ?k ?s w1 = Ok 2 w1"
    using slotcount_run [OF slots1] by simp
  moreover have "[0..<2 :: nat] = [0, Suc 0]" by (simp add: numeral_2_eq_2)
  ultimately have "obl_slotted_read ?k s ?s ?d base depth w = Ok ?a w3"
    using create slot1(1) slot2(1)
    by (simp add: obl_slotted_read_def load_slot_def [symmetric] bindM_run thenM_run retM_run)
  moreover have ptr: "fixed_ptr w1 c = fixed_ptr w c" "fixed_ptr w2 c = fixed_ptr w c" for c
    by (simp_all add: w1_def w2_def fixed_ptr_def)
  then have "heap w3 (?a + 1) = Some (loaded_number w s l0 b0 v0)"
    "heap w3 (?a + 2) = Some (loaded_number w s l1 b1 v1)"
    by (simp_all add: w3_def w2_def n1 loaded_number_def ptr)
  moreover have "sessions w3 = (sessions w)(s \<mapsto> r')"
    by (simp add: w3_def w2_def w1_def assms(13) with_counters_def numeral_2_eq_2)
  moreover have "databases w3 = databases w" "fixed_space w3 = fixed_space w"
    by (simp_all add: w3_def w2_def w1_def)
  ultimately show ?thesis using load3 by blast
qed

lemma slotted_put_same:
  assumes "slotted_object u w p x names vals" "obj_shape y = obj_shape x" "obj_storage y = obj_storage x"
  shows "slotted_object u (put_object p y w) p y names vals"
  using assms slots_put [OF slotted_typed [OF assms(1)], of x y u "obj_shape x" names]
  by (simp add: slotted_object_def)

lemma read_allocator_run:
  assumes "world_ok w" "malloc_budget w = None" "sessions w s = Some r" "readable_set r rs"
    and "databases w (ses_database r) = Some db" "content db = Some m" "capacity m < 2 ^ 31"
    and "shape_with_slots u w (fixed_ptr w OBL_ALLOCATOR_SHAPE_ADDR) allocator_slots"
    and "allocator_behind (ses_database r) db m base [(l0, b0, v0), (l1, b1, v1)]" "1 < depth"
    and "lookup_r (set_root rs) (unat l0) = None" "lookup_r (set_root rs) (unat l1) = None"
    and "r' = r\<lparr>read_set := Some (with_counters rs l0 l1 (next_ptr w))\<rparr>"
  shows "\<exists>w'. obl_read_object (knot (Suc (Suc n))) s (ses_database r) base depth w =
       Ok (next_ptr w) (put_object (next_ptr w) ((allocator_at w [next_ptr w + 1, next_ptr w + 2])
          \<lparr>physical_address := base\<rparr>) w') \<and>
     loading u w' s r' (with_counters rs l0 l1 (next_ptr w)) db m (next_ptr w) [next_ptr w + 1, next_ptr w + 2] \<and>
     heap w' (next_ptr w + 1) = Some (loaded_number w s l0 b0 v0) \<and>
     heap w' (next_ptr w + 2) = Some (loaded_number w s l1 b1 v1) \<and>
     databases w' = databases w \<and> sessions w' = (sessions w)(s \<mapsto> r') \<and> fixed_space w' = fixed_space w"
proof -
  obtain w' where w': "obl_slotted_read (knot (Suc (Suc n))) s (fixed_ptr w OBL_ALLOCATOR_SHAPE_ADDR)
       (ses_database r) base depth w = Ok (next_ptr w) w'"
    "loading u w' s r' (with_counters rs l0 l1 (next_ptr w)) db m (next_ptr w) [next_ptr w + 1, next_ptr w + 2]"
    "heap w' (next_ptr w + 1) = Some (loaded_number w s l0 b0 v0)"
    "heap w' (next_ptr w + 2) = Some (loaded_number w s l1 b1 v1)"
    "databases w' = databases w" "sessions w' = (sessions w)(s \<mapsto> r')" "fixed_space w' = fixed_space w"
    using slotted_read_run [OF assms] by blast
  have "allocator_at w' = allocator_at w"
    using w'(7) by (simp add: allocator_at_def fun_eq_iff fixed_ptr_def)
  then have at: "heap w' (next_ptr w) = Some (allocator_at w [next_ptr w + 1, next_ptr w + 2])"
    using w'(2) by (simp add: loading_def slotted_object_def)
  have same: "(allocator_at w vals)\<lparr>obj_shape := fixed_ptr w OBL_ALLOCATOR_SHAPE_ADDR,
      physical_address := base\<rparr> = (allocator_at w vals)\<lparr>physical_address := base\<rparr>" for vals
    by (simp add: allocator_at_def plain_object_def)
  have "has_content w (ses_database r) m" using assms(5,6) by (simp add: has_content_def)
  then have "obl_read_object (knot (Suc (Suc n))) s (ses_database r) base depth w =
       Ok (next_ptr w) (put_object (next_ptr w) ((allocator_at w [next_ptr w + 1, next_ptr w + 2])
          \<lparr>physical_address := base\<rparr>) w')"
    using read_object_run [of w s r OBL_ALLOCATOR_SHAPE_ADDR OBL_SLOTTED "ses_database r" m base "Suc n" depth]
      assms(1,3,9) w'(1) at same
    by (simp add: world_ok_def allocator_behind_def bindM_run thenM_run retM_run update_object_run)
  with w' show ?thesis by blast
qed

text \<open>The session once everything has been loaded.\<close>

definition allocator_session :: "obl_session \<Rightarrow> obl_set \<Rightarrow> obl_database \<Rightarrow> obl_logical_address \<Rightarrow>
    obl_logical_address \<Rightarrow> ptr \<Rightarrow> obl_session" where
  "allocator_session r rs db l0 l1 a =
     r\<lparr>read_set := Some (with_entry (with_counters rs l0 l1 a) (allocator_addr (root db)) a)\<rparr>"

definition allocator_home ::
    "world \<Rightarrow> ptr \<Rightarrow> obl_database \<Rightarrow> obl_physical_address \<Rightarrow> ptr list \<Rightarrow> obl_object" where
  "allocator_home w s db base vals = \<lparr>obj_session = s, logical_address = allocator_addr (root db),
     physical_address = base, obj_shape = fixed_ptr w OBL_ALLOCATOR_SHAPE_ADDR,
     obj_storage = Slotted_storage \<lparr>slots = vals\<rparr>\<rparr>"

lemma loading_done:
  assumes "loading u w2 s r2 (with_counters rs l0 l1 a) db m a vals" "vals = [a + 1, a + 2]"
    and "heap w2 (a + 1) = Some (loaded_number w2 s l0 b0 v0)" "heap w2 (a + 2) = Some (loaded_number w2 s l1 b1 v1)"
    and "allocator_behind d db m base [(l0, b0, v0), (l1, b1, v1)]" "a \<noteq> NULL"
    and "r' = allocator_session r rs db l0 l1 a" "idle_session w' s r'" "commits_to w' s r' db m"
    and "w' = put_object a (allocator_home w2 s db base vals) w2\<lparr>sessions := S\<rparr>"
  shows "allocator_loaded u w' s r' db m a vals"
    and "stored_number w' s (capacity m) (a + 1) (loaded_number w2 s l0 b0 v0) v0"
    and "stored_number w' s (capacity m) (a + 2) (loaded_number w2 s l1 b1 v1) v1"
proof -
  let ?x = "allocator_home w2 s db base vals" and ?rs = "with_counters rs l0 l1 a" and ?la = "allocator_addr (root db)"
  have load: "world_ok w2" "malloc_budget w2 = None" "readable_set r2 ?rs"
    "slotted_object u w2 a (allocator_at w2 vals) allocator_slots vals"
    using assms(1) by (simp_all add: loading_def)
  have ptr: "fixed_ptr w' c = fixed_ptr w2 c" for c by (simp add: assms(10) fixed_ptr_def)
  have ok: "world_ok w'" using world_ok_slotted [OF load(4,1), of ?x] by (simp add: assms(10))
  have home: "obj_shape ?x = fixed_ptr w2 OBL_ALLOCATOR_SHAPE_ADDR" "obj_storage ?x = Slotted_storage \<lparr>slots = vals\<rparr>"
    by (simp_all add: allocator_home_def)
  have "slotted_object u (put_object a ?x w2) a ?x allocator_slots vals"
    by (rule slotted_put_same [OF load(4)]) (simp_all add: allocator_at_def home)
  then have "slotted_object u w' a ?x allocator_slots vals"
    by (rule slotted_cong) (simp_all add: assms(10))
  then have object: "allocator_object u w' a vals"
    using assms(6) by (auto simp: allocator_object_def ptr home)
  have set: "open_session w' s r' (with_entry ?rs ?la a)"
    "lookup_r (set_root (with_entry ?rs ?la a)) (unat ?la) = Some a"
    using assms(8) readable_entry [OF load(3), of ?la a]
    by (simp_all add: open_session_def idle_session_def readable_set_def assms(7) allocator_session_def)
  show numbers: "stored_number w' s (capacity m) (a + 1) (loaded_number w2 s l0 b0 v0) v0"
    "stored_number w' s (capacity m) (a + 2) (loaded_number w2 s l1 b1 v1) v1"
    using assms(3-5)
    by (auto simp: stored_number_def loaded_number_def ptr assms(10) allocator_behind_def integer_behind_def
        nth_Cons' less_2_cases_iff)
  have "\<not> IS_FIXED_ADDR ?la" "malloc_budget w' = None"
    using assms(5) load(2) by (simp_all add: allocator_behind_def assms(10))
  then show "allocator_loaded u w' s r' db m a vals"
    using ok assms(8,9) set object numbers by (auto simp: allocator_loaded_def assms(2))
qed

lemma load_allocator_run:
  assumes "world_ok w" "malloc_budget w = None" "idle_session w s r" "readable_set r rs"
    and "commits_to w s r db m" "1 < default_stub_depth (configuration db)"
    and "shape_with_slots u w (fixed_ptr w OBL_ALLOCATOR_SHAPE_ADDR) allocator_slots"
    and "allocator_behind (ses_database r) db m base [(l0, b0, v0), (l1, b1, v1)]"
    and "lookup_r (set_root rs) (unat l0) = None" "lookup_r (set_root rs) (unat l1) = None"
    and "lookup_r (set_root rs) (unat (allocator_addr (root db))) = None"
  shows "\<exists>w'. obl_at_address (knot (Suc (Suc (Suc n)))) s (allocator_addr (root db)) w = Ok (next_ptr w) w' \<and>
     allocator_loaded u w' s (allocator_session r rs db l0 l1 (next_ptr w)) db m (next_ptr w)
       [next_ptr w + 1, next_ptr w + 2] \<and>
     stored_number w' s (capacity m) (next_ptr w + 1) (loaded_number w s l0 b0 v0) v0 \<and>
     stored_number w' s (capacity m) (next_ptr w + 2) (loaded_number w s l1 b1 v1) v1"
proof -
  let ?a = "next_ptr w" and ?la = "allocator_addr (root db)" and ?d = "ses_database r"
  let ?r1 = "waiting True r" and ?vals = "[next_ptr w + 1, next_ptr w + 2]"
  let ?w1 = "w\<lparr>sessions := (sessions w)(s \<mapsto> ?r1)\<rparr>"
  let ?rs = "with_counters rs l0 l1 ?a" and ?depth = "default_stub_depth (configuration db)"
  let ?r2 = "?r1\<lparr>read_set := Some ?rs\<rparr>"
  have r: "sessions w s = Some r" "0 < session_mutex r" "s \<noteq> NULL" "databases w ?d = Some db"
    "content db = Some m" "capacity m < 2 ^ 31"
    using assms(3,5) by (simp_all add: idle_session_def commits_to_def)
  have b: "obl_address_lookup ?d ?la ?w1 = Ok base ?w1" "base \<noteq> 0" "\<not> IS_FIXED_ADDR ?la"
    "?la \<noteq> l0" "?la \<noteq> l1"
    using assms(8) r(4) by (auto simp: allocator_behind_def)
  have d1: "ses_database ?r1 = ?d" by (simp add: waiting_def)
  have slots1: "shape_with_slots u ?w1 (fixed_ptr ?w1 OBL_ALLOCATOR_SHAPE_ADDR) allocator_slots"
    using keeps_slots [OF keeps_frame assms(7), of ?w1] by (simp add: fixed_ptr_def)
  have ptr: "fixed_ptr ?w1 c = fixed_ptr w c" "allocator_at ?w1 = allocator_at w"
    "loaded_number ?w1 = loaded_number w" for c
    by (simp_all add: fixed_ptr_def allocator_at_def loaded_number_def fun_eq_iff)
  have set1: "readable_set ?r1 rs" using assms(4) by (simp add: readable_set_def waiting_def)
  have "world_ok ?w1" "malloc_budget ?w1 = None" "sessions ?w1 s = Some ?r1" "databases ?w1 (ses_database ?r1) = Some db"
    using assms(1,2) r(4) by (simp_all add: d1)
  note w1 = this
  obtain w2 where w2: "obl_read_object (knot (Suc (Suc n))) s ?d base ?depth ?w1 =
       Ok ?a (put_object ?a ((allocator_at w ?vals)\<lparr>physical_address := base\<rparr>) w2)"
    "loading u w2 s ?r2 ?rs db m ?a ?vals"
    "heap w2 (?a + 1) = Some (loaded_number w s l0 b0 v0)" "heap w2 (?a + 2) = Some (loaded_number w s l1 b1 v1)"
    "databases w2 = databases w" "sessions w2 = (sessions w)(s \<mapsto> ?r2)" "fixed_space w2 = fixed_space w"
    using read_allocator_run [OF w1(1-3) set1 w1(4) r(5,6) slots1 _ assms(6,9,10) refl, of base b0 v0 b1 v1 n]
      assms(8) by (auto simp: d1 ptr)
  have ptr2: "fixed_ptr w2 c = fixed_ptr w c" "loaded_number w2 = loaded_number w" for c
    using w2(7) by (simp_all add: fixed_ptr_def loaded_number_def fun_eq_iff)
  let ?x = "allocator_home w2 s db base ?vals"
  let ?r' = "allocator_session r rs db l0 l1 ?a"
  let ?w' = "put_object ?a ?x w2\<lparr>sessions := (sessions w)(s \<mapsto> ?r')\<rparr>"
  have rs: "readable_set ?r2 ?rs" "lookup_r (set_root ?rs) (unat ?la) = None"
  proof -
    show "readable_set ?r2 ?rs" using w2(2) by (simp add: loading_def)
    note first = readable_entry [OF set1, of l0 "?a + 1"]
    show "lookup_r (set_root ?rs) (unat ?la) = None"
      using readable_entry(2) [OF first(1), of l1 "?a + 2"] first(2) b(4,5) assms(11)
      by (simp add: with_counters_def)
  qed
  have post: "posted True (?r2\<lparr>read_set := Some (with_entry ?rs ?la ?a)\<rparr>) = ?r'"
    using r(2) by (cases r) (simp add: posted_def waiting_def allocator_session_def)
  have "(allocator_at w ?vals)\<lparr>physical_address := base, logical_address := ?la, obj_session := s\<rparr> = ?x"
    by (simp add: allocator_at_def plain_object_def allocator_home_def ptr2)
  with at_address_reads [OF r(1) assms(4) b(3) _ assms(11) r(2) refl b(1,2) w2(1) _ _ rs] post
  have "i_obl_at_address_depth (knot (Suc (Suc n))) s ?la ?depth True w = Ok ?a ?w'"
    using assms(6) w2(2,6) by (simp add: loading_def)
  then have run: "obl_at_address (knot (Suc (Suc (Suc n)))) s ?la w = Ok ?a ?w'"
    using r(1,4) by (simp add: obl_at_address_def obl_at_address_depth_def knot.simps(2) bindM_run get_run)
  have "?a \<noteq> NULL" using assms(1) by (simp add: world_ok_def fresh_def)
  moreover have "idle_session ?w' s ?r'"
    using assms(3) by (simp add: idle_session_def allocator_session_def)
  moreover have "commits_to ?w' s ?r' db m"
    using assms(5) w2(5) by (simp add: commits_to_def allocator_session_def)
  ultimately show ?thesis
    using run loading_done [OF w2(2) refl _ _ assms(8) _ refl _ _ refl] w2(3,4)
    unfolding ptr2(2) by blast
qed

section \<open>The allocator of a new database\<close>

lemma allocate_after_load:
  assumes "i_get_allocator k s w = Ok a w1" "i_get_allocator k s w1 = Ok a w1"
  shows "obl_allocate_logical k s w = obl_allocate_logical k s w1"
  using assms by (simp add: obl_allocate_logical_def bindM_run)

lemma get_loaded_allocator:
  assumes "sessions w s = Some r" "databases w (ses_database r) = Some db"
    and "obl_at_address (knot (Suc n)) s (allocator_addr (root db)) w = Ok a w1"
    and "allocator_loaded u w1 s r1 db m a vals" "ses_database r1 = ses_database r"
  shows "i_get_allocator (knot (Suc n)) s w = Ok a w1"
proof -
  obtain x where "heap w1 a = Some x" "obj_shape x = fixed_ptr w1 OBL_ALLOCATOR_SHAPE_ADDR"
    using assms(4) by (auto simp: allocator_loaded_def allocator_object_def slotted_object_def)
  then show ?thesis
    using assms(1-3)
    by (simp add: i_get_allocator_def bindM_run get_run at_fixed_address_run retM_run)
qed

lemma bootstrapped_allocator:
  assumes "content db = Some (store_words m0 0 bootstrap_words)" "root db = bootstrap_root"
    and "270 \<le> capacity m0" "capacity m0 < 2 ^ 31"
  shows "allocator_behind d db (store_words m0 0 bootstrap_words) 5 [(3, 10, 4), (2, 8, 270)]"
proof -
  let ?m = "store_words m0 0 bootstrap_words"
  have lookup: "obl_address_lookup d l w =
      Ok (if l = 1 then 5 else if l = 2 then 8 else if l = 3 then 10 else 0) w"
    if "databases w d = Some db" for l w
    by (rule bootstrapped_lookup [OF that assms(1) _ assms(3,4)]) (simp add: assms(2))
  have len: "length bootstrap_words = 270" by (simp add: bootstrap_words_def)
  have words: "cells ?m 5 = writable_uint (fixed_addr OBL_ALLOCATOR_SHAPE_ADDR)" "cells ?m 6 = writable_uint 3"
    "cells ?m 7 = writable_uint 2" "cells ?m 8 = writable_uint (fixed_addr OBL_INTEGER_SHAPE_ADDR)"
    "cells ?m 9 = writable_uint 270" "cells ?m 10 = writable_uint (fixed_addr OBL_INTEGER_SHAPE_ADDR)"
    "cells ?m 11 = writable_uint 4"
    by (simp_all add: len) (simp_all add: bootstrap_words_def)
  have free: "\<not> IS_FIXED_ADDR 1" "\<not> IS_FIXED_ADDR 2" "\<not> IS_FIXED_ADDR 3"
    by (simp_all add: IS_FIXED_ADDR_def OBL_FIXED_ADDR_MIN_def OBL_ADDRESS_MAX_def OBL_UINT_MAX_def
        OBL_FIXED_SIZE_def word_le_nat_alt)
  have "integer_behind d db ?m 3 10 4" "integer_behind d db ?m 2 8 270"
    using lookup words assms(3) free
    by (simp_all add: integer_behind_def writable_forms del: store_words_simps(1))
  then show ?thesis
    using lookup words assms(2,3) free
    by (auto simp: allocator_behind_def writable_forms less_2_cases_iff nth_Cons'
        simp del: store_words_simps(1))
qed

text \<open>The first allocation of a session loads the allocator, the others find it in the read set.\<close>

lemma allocations_from_database:
  assumes "world_ok w" "malloc_budget w = None" "idle_session w s r" "readable_set r rs"
    and "commits_to w s r db m" "1 < default_stub_depth (configuration db)"
    and "shape_with_slots u w (fixed_ptr w OBL_ALLOCATOR_SHAPE_ADDR) allocator_slots"
    and "allocator_behind (ses_database r) db m base [(l0, b0, v0), (l1, b1, v1)]"
    and "set_root rs = Tip"
    and "m' = (if xs = [] then m else store_words m (unat b0) (integer_words (v0 + of_nat (length xs))))"
  shows "\<exists>w' db'. mapM (\<lambda>_. obl_allocate_logical (knot (Suc (Suc (Suc n)))) s) xs w =
       Ok (map (\<lambda>i. v0 + of_nat i) [0..<length xs]) w' \<and>
     databases w' (ses_database r) = Some db' \<and> content db' = Some m'"
proof -
  let ?k = "knot (Suc (Suc (Suc n)))" and ?a = "next_ptr w"
  let ?r' = "allocator_session r rs db l0 l1 ?a" and ?vals = "[next_ptr w + 1, next_ptr w + 2]"
  have r: "sessions w s = Some r" "databases w (ses_database r) = Some db" "content db = Some m"
    using assms(3,5) by (simp_all add: idle_session_def commits_to_def)
  have d: "ses_database ?r' = ses_database r" by (simp add: allocator_session_def)
  obtain w1 where w1: "obl_at_address ?k s (allocator_addr (root db)) w = Ok ?a w1"
    "allocator_loaded u w1 s ?r' db m ?a ?vals"
    "stored_number w1 s (capacity m) (?a + 1) (loaded_number w s l0 b0 v0) v0"
    using load_allocator_run [OF assms(1-8)] assms(9) by auto
  have b0: "physical_address (loaded_number w s l0 b0 v0) = b0" by (simp add: loaded_number_def)
  obtain w' where w': "mapM (\<lambda>_. obl_allocate_logical ?k s) xs w1 =
       Ok (map (\<lambda>i. v0 + of_nat i) [0..<length xs]) w'"
    "allocator_loaded u w' s ?r' (db\<lparr>content := Some m'\<rparr>) m' ?a ?vals"
    using allocations_run [OF w1(2,3), of "Suc (Suc n)" xs] unfolding b0 assms(10) [symmetric] by blast
  show ?thesis
  proof (cases xs)
    case Nil
    then show ?thesis using r assms(10) by (simp add: retM_run)
  next
    case (Cons i js)
    have "obl_allocate_logical ?k s w = obl_allocate_logical ?k s w1"
      by (rule allocate_after_load [OF get_loaded_allocator [OF r(1,2) w1(1,2) d] get_allocator_run [OF w1(2)]])
    then have "mapM (\<lambda>_. obl_allocate_logical ?k s) xs w = mapM (\<lambda>_. obl_allocate_logical ?k s) xs w1"
      by (simp add: Cons bindM_run)
    with w' show ?thesis by (auto simp: allocator_loaded_def commits_to_def d)
  qed
qed

lemma opened_slots:
  assumes "opened_world config w w'" "world_ok w" "shape_with_slots u w p names"
  shows "shape_with_slots u w' p names"
proof -
  have "heap w (next_ptr w + 7) = None" using assms(2) by (simp add: world_ok_def fresh_def)
  then have "keeps w w'"
    using assms(1) by (auto simp: keeps_def opened_world_def fixed_ptr_def)
  then show ?thesis using assms(3) by (rule keeps_slots)
qed

text \<open>A session on a database that has just been opened.\<close>

definition session_database :: "obl_database_config \<Rightarrow> ptr \<Rightarrow> obl_database" where
  "session_database config s = (opened_database config)\<lparr>session_list := [s]\<rparr>"

lemma opened_session:
  assumes "opened_world config w w1" "world_ok w" "m = zeroed (nat (growth_size (effective config)))"
    and "270 \<le> capacity m" "capacity m < 2 ^ 31"
    and "shape_with_slots u w (fixed_ptr w OBL_ALLOCATOR_SHAPE_ADDR) allocator_slots"
  shows "\<exists>w2. obl_create_session (next_ptr w) w1 = Ok (next_ptr w1) w2 \<and> world_ok w2 \<and>
     malloc_budget w2 = None \<and> idle_session w2 (next_ptr w1) (new_session_on (next_ptr w)) \<and>
     commits_to w2 (next_ptr w1) (new_session_on (next_ptr w)) (session_database config (next_ptr w1))
       (store_words m 0 bootstrap_words) \<and>
     shape_with_slots u w2 (fixed_ptr w2 OBL_ALLOCATOR_SHAPE_ADDR) allocator_slots"
proof -
  let ?d = "next_ptr w" and ?s = "next_ptr w1"
  have o: "databases w1 ?d = Some (opened_database config)" "malloc_budget w1 = None" "world_ok w1"
    "0 < session_list_mutex (opened_database config)" "session_list (opened_database config) = []"
    using assms(1) by (simp_all add: opened_world_def opened_database_def mapped_database_def unopened_def)
  have fresh: "?d \<noteq> NULL" "?s \<noteq> NULL" using assms(2) o(3) by (simp_all add: world_ok_def fresh_def)
  define w2 where "w2 = w1\<lparr>sessions := (sessions w1)(?s \<mapsto> new_session_on ?d), next_ptr := Suc ?s,
     databases := (databases w1)(?d \<mapsto> session_database config ?s)\<rparr>"
  have "obl_create_session ?d w1 = Ok ?s w2"
    using create_session_run [OF fresh(1) o(2,1,4)] o(5) by (simp add: w2_def session_database_def)
  moreover have "world_ok w2"
    using world_ok_used [OF o(3)] by (subst world_ok_cong [of _ "used_pointer w1"]) (simp_all add: w2_def)
  moreover have "malloc_budget w2 = None" "idle_session w2 ?s (new_session_on ?d)"
    using o fresh by (simp_all add: w2_def idle_session_def new_session_on_def)
  moreover have "commits_to w2 ?s (new_session_on ?d) (session_database config ?s) (store_words m 0 bootstrap_words)"
    using fresh assms(3-5) by (simp add: w2_def commits_to_def new_session_on_def session_database_def
        opened_database_def mapped_database_def unopened_def)
  moreover have "shape_with_slots u w1 (fixed_ptr w OBL_ALLOCATOR_SHAPE_ADDR) allocator_slots"
    by (rule opened_slots [OF assms(1,2,6)])
  then have "shape_with_slots u w2 (fixed_ptr w2 OBL_ALLOCATOR_SHAPE_ADDR) allocator_slots"
    using keeps_slots [OF keeps_frame, of w2 w1] assms(1) by (simp add: w2_def fixed_ptr_def opened_world_def)
  ultimately show ?thesis by blast
qed

section \<open>Properties\<close>

text \<open>
  C8: In an in-memory database that has just been opened, a new session allocates the logical addresses
  4, 5, 6 and so on. It loads the allocator from the database first; each address is committed at once:
  afterwards word 11 holds the next one, and all other words are as bootstrapping left them.
\<close>

theorem fresh_database_allocates:
  assumes "good_icu u" "converted u ''next_logical'' \<noteq> converted u ''next_physical''"
    and "world_ok w" "malloc_budget w = None"
    and "shape_with_slots u w (fixed_ptr w OBL_ALLOCATOR_SHAPE_ADDR) [''next_logical'', ''next_physical'']"
    and "\<not> zero_check config" "filename config = None"
    and "n = (if growth_size config = 0 then 4096 else growth_size config)" "270 \<le> n" "n < 2 ^ 31"
    and "default_stub_depth config = 0 \<or> 1 < default_stub_depth config" "k = knot (Suc (Suc (Suc i)))"
  shows "\<exists>w1 w2 w3 db m. obl_open_database u k config w = Ok (next_ptr w) w1 \<and>
     obl_create_session (next_ptr w) w1 = Ok (next_ptr w1) w2 \<and>
     mapM (\<lambda>_. obl_allocate_logical k (next_ptr w1)) [0..<j] w2 = Ok (map (\<lambda>i. 4 + of_nat i) [0..<j]) w3 \<and>
     databases w3 (next_ptr w) = Some db \<and> content db = Some m \<and>
     cells m = (\<lambda>a. if a = 11 then writable_uint (4 + of_nat j)
       else if a < 270 then bootstrap_words ! a else 0)"
proof -
  have n: "growth_size (effective config) = n"
    using assms(8) by (simp add: effective_def DEFAULT_GROWTH_SIZE_def)
  let ?d = "next_ptr w" and ?m0 = "zeroed (nat n)"
  have cap: "270 \<le> capacity ?m0" "capacity ?m0 < 2 ^ 31"
    using assms(9,10) by (simp_all add: zeroed_def)
  obtain w1 where w1: "obl_open_database u k config w = Ok ?d w1" "opened_world config w w1"
    using open_run [OF assms(1-7)] assms(9,10,12) n by blast
  let ?s = "next_ptr w1" and ?r = "new_session_on ?d" and ?m = "store_words (zeroed (nat n)) 0 bootstrap_words"
  let ?db = "session_database config (next_ptr w1)"
  obtain w2 where w2: "obl_create_session ?d w1 = Ok ?s w2" "world_ok w2" "malloc_budget w2 = None"
    "idle_session w2 ?s ?r" "commits_to w2 ?s ?r ?db ?m"
    "shape_with_slots u w2 (fixed_ptr w2 OBL_ALLOCATOR_SHAPE_ADDR) allocator_slots"
    using opened_session [OF w1(2) assms(3) _ cap, of u] assms(5) n by auto
  have set: "readable_set ?r empty_set" "set_root empty_set = Tip"
    by (simp_all add: readable_set_def new_session_on_def empty_set_def rb_valid_def)
  have depth: "1 < default_stub_depth (configuration ?db)"
    using assms(11) by (auto simp: session_database_def opened_database_def mapped_database_def
        unopened_def effective_def DEFAULT_STUB_DEPTH_def)
  have behind: "allocator_behind (ses_database ?r) ?db ?m 5 [(3, 10, 4), (2, 8, 270)]"
    by (rule bootstrapped_allocator [OF _ _ cap]) (simp_all add: session_database_def opened_database_def n)
  let ?m' = "if [0..<j] = [] then ?m
    else store_words ?m (unat (10 :: obl_uint)) (integer_words (4 + of_nat (length [0..<j])))"
  obtain w3 db where w3: "mapM (\<lambda>_. obl_allocate_logical k ?s) [0..<j] w2 =
       Ok (map (\<lambda>i. 4 + of_nat i) [0..<length [0..<j]]) w3"
    "databases w3 (ses_database ?r) = Some db" "content db = Some ?m'"
    using allocations_from_database [OF w2(2-4) set(1) w2(5) depth w2(6) behind set(2) refl, of i "[0..<j]"]
    unfolding assms(12) by blast
  have "cells ?m' = (\<lambda>a. if a = 11 then writable_uint (4 + of_nat j)
       else if a < 270 then bootstrap_words ! a else 0)"
    by (rule ext) (auto simp: zeroed_def bootstrap_words_def writable_forms nth_Cons')
  with w1(1) w2(1) w3 show ?thesis by (auto simp: new_session_on_def)
qed

lemma fresh_database_allocates_witness:
  "\<exists>w1 w2 w3. obl_open_defdatabase ascii_icu (knot 3) None started_world = Ok (next_ptr started_world) w1 \<and>
     obl_create_session (next_ptr started_world) w1 = Ok (next_ptr w1) w2 \<and>
     mapM (\<lambda>_. obl_allocate_logical (knot 3) (next_ptr w1)) [0..<3] w2 = Ok [4, 5, 6] w3"
proof -
  let ?c = "\<lparr>filename = None, prohibit_creation = False, growth_size = 0, log_filename = None,
        log_level = L_DEFAULT, default_stub_depth = 0, zero_check = False\<rparr> :: obl_database_config"
  have c: "\<not> zero_check ?c" "filename ?c = None" "4096 = (if growth_size ?c = 0 then 4096 else growth_size ?c)"
    "(270 :: int) \<le> 4096" "(4096 :: int) < 2 ^ 31"
    "default_stub_depth ?c = 0 \<or> 1 < default_stub_depth ?c" "knot 3 = knot (Suc (Suc (Suc 0)))"
    by (simp_all add: eval_nat_numeral)
  have three: "map (\<lambda>i. 4 + of_nat i) [0..<3] = [4 :: obl_uint, 5, 6]" by (simp add: eval_nat_numeral)
  from fresh_database_allocates [OF good_ascii ascii_slots started_world_ok c, of 3] show ?thesis
    unfolding three by (auto simp: obl_open_defdatabase_def)
qed

end
