(* ===== verification/CommitBlocks.thy ===== *)
theory CommitBlocks
  imports CommitFacts
begin

text \<open>
  The commits that never return: another session has a copy of a changed object, or a changed
  collection holds an object that has no place in the database yet.
\<close>

section \<open>Commits that never return\<close>

definition has_database :: "world \<Rightarrow> ptr \<Rightarrow> bool" where
  "has_database w d \<longleftrightarrow> (\<exists>db. databases w d = Some db \<and> 0 < content_mutex db)"

text \<open>
  A session that is idle and whose copies of the objects are its own; it has at least one copy.
\<close>

definition with_copies :: "world \<Rightarrow> ptr list \<Rightarrow> ptr \<Rightarrow> bool" where
  "with_copies w ps other \<longleftrightarrow> (\<exists>r rs. sessions w other = Some r \<and> session_mutex r = 1 \<and>
     read_set r = Some rs \<and> has_database w (ses_database r) \<and>
     (\<forall>p\<in>set ps. \<exists>x. heap w p = Some x \<and>
        (case lookup_r (set_root rs) (unat (logical_address x)) of
           None \<Rightarrow> True
         | Some mine \<Rightarrow> mine \<noteq> NULL \<and> (\<exists>y. heap w mine = Some y \<and> obj_session y = other))) \<and>
     (\<exists>p\<in>set ps. \<exists>x. heap w p = Some x \<and>
        lookup_r (set_root rs) (unat (logical_address x)) \<noteq> None))"

lemma copies_cong:
  assumes "heap w' = heap w" "sessions w' q = sessions w q" "\<And>d. has_database w' d = has_database w d"
  shows "without_copies w' ps q = without_copies w ps q" "with_copies w' ps q = with_copies w ps q"
  using assms by (simp_all add: without_copies_def with_copies_def cong: option.case_cong)

lemma forM_blocked:
  assumes "\<And>x. x \<in> set xs \<Longrightarrow> f x s = Ok () s \<or> f x s = Fault e" "\<exists>x\<in>set xs. f x s = Fault e"
  shows "forM xs f s = Fault e"
  using assms
proof (induction xs)
  case (Cons x xs)
  from Cons.prems(1) [of x] consider "f x s = Fault e" | "f x s = Ok () s" by auto
  then show ?case
    using Cons by cases (auto simp: thenM_run)
qed simp

lemma update_objects_blocked:
  assumes "with_copies w (map snd (entries (set_root ws))) other"
  shows "i_obl_update_objects k other (Some ws) w = Fault Blocked"
proof -
  let ?ps = "map snd (entries (set_root ws))"
  from assms obtain r rs where r: "sessions w other = Some r" "session_mutex r = 1"
    "read_set r = Some rs" "has_database w (ses_database r)"
    and each: "\<And>p. p \<in> set ?ps \<Longrightarrow> \<exists>x. heap w p = Some x \<and>
        (case lookup_r (set_root rs) (unat (logical_address x)) of
           None \<Rightarrow> True
         | Some mine \<Rightarrow> mine \<noteq> NULL \<and> (\<exists>y. heap w mine = Some y \<and> obj_session y = other))"
    and some: "\<exists>p\<in>set ?ps. \<exists>x. heap w p = Some x \<and>
        lookup_r (set_root rs) (unat (logical_address x)) \<noteq> None"
    unfolding with_copies_def by blast
  let ?w1 = "w\<lparr>sessions := (sessions w)(other \<mapsto> r\<lparr>session_mutex := 0\<rparr>)\<rparr>"
  let ?step = "\<lambda>current. bindM (get_session other) (\<lambda>r.
            bindM (the_set (read_set r)) (\<lambda>rs.
            bindM (get_object current) (\<lambda>x.
              let mine = obl_set_lookup rs (unat (logical_address x)) in
              if mine \<noteq> NULL then obl_refresh_object k mine else retM ())))"
  have refresh: "obl_refresh_object k mine ?w1 = Fault Blocked"
    if "heap w mine = Some y" "obj_session y = other" for mine y
    using that r(4)
    by (auto simp: has_database_def obl_refresh_object_def wait_content_mutex_def
        wait_session_mutex_def bindM_run thenM_run get_run update_run failM_run Let_def)
  have step: "?step p ?w1 = (case lookup_r (set_root rs) (unat (logical_address x)) of
      None \<Rightarrow> Ok () ?w1 | Some mine \<Rightarrow> Fault Blocked)" if "p \<in> set ?ps" "heap w p = Some x" for p x
    using each [OF that(1)] that(2) r(3) refresh
    by (auto simp: obl_set_lookup_def bindM_run get_run the_set_run retM_run Let_def split: option.split)
  have "forM ?ps ?step ?w1 = Fault Blocked"
  proof (rule forM_blocked)
    fix p assume "p \<in> set ?ps"
    with each [of p] step [of p] show "?step p ?w1 = Ok () ?w1 \<or> ?step p ?w1 = Fault Blocked"
      by (auto split: option.splits)
  next
    from some step show "\<exists>p\<in>set ?ps. ?step p ?w1 = Fault Blocked" by fastforce
  qed
  then show ?thesis
    using r(1,2)
    by (simp add: i_obl_update_objects_def wait_session_mutex_def bindM_run thenM_run the_set_run
        set_objects_run get_run update_run)
qed


lemma notify_blocked:
  assumes "databases w d = Some db" "0 < session_list_mutex db"
    and "\<And>other. other \<in> set (session_list db) \<Longrightarrow> other \<noteq> s \<Longrightarrow>
       without_copies w (map snd (entries (set_root ws))) other \<or>
       with_copies w (map snd (entries (set_root ws))) other"
    and "other \<in> set (session_list db)" "other \<noteq> s"
    and "with_copies w (map snd (entries (set_root ws))) other"
  shows "notify_sessions k d s (Some ws) w = Fault Blocked"
proof -
  let ?ps = "map snd (entries (set_root ws))"
  let ?w1 = "w\<lparr>databases := (databases w)(d \<mapsto> db\<lparr>session_list_mutex := session_list_mutex db - Suc 0\<rparr>)\<rparr>"
  let ?step = "\<lambda>other. if other \<noteq> s then i_obl_update_objects k other (Some ws) else retM ()"
  have same: "without_copies ?w1 ?ps q = without_copies w ?ps q"
    "with_copies ?w1 ?ps q = with_copies w ?ps q" for q
    using copies_cong [of ?w1 w q ?ps] assms(1) by (simp_all add: has_database_def)
  have "forM (session_list db) ?step ?w1 = Fault Blocked"
  proof (rule forM_blocked)
    fix q assume q: "q \<in> set (session_list db)"
    show "?step q ?w1 = Ok () ?w1 \<or> ?step q ?w1 = Fault Blocked"
    proof (cases "q = s")
      case False
      then show ?thesis
        using assms(3) [OF q] update_objects_idle [of ?w1 ws q k] update_objects_blocked [of ?w1 ws q k]
        unfolding same by auto
    qed (simp add: retM_run)
  next
    show "\<exists>q\<in>set (session_list db). ?step q ?w1 = Fault Blocked"
      using assms(4-6) update_objects_blocked [of ?w1 ws other k] unfolding same by auto
  qed
  then show ?thesis
    using assms(1,2)
    by (simp add: notify_sessions_def wait_session_list_mutex_def bindM_run thenM_run get_run update_run)
qed


lemma commit_blocked:
  assumes "fixed_ok w" "in_transaction w s r t tx ws"
    and "databases w (ses_database r) = Some db" "ses_database r \<noteq> NULL"
    and "0 < content_mutex db" "0 < session_list_mutex db" "content db = Some m" "capacity m < 2 ^ 31"
    and "writable_set w s (capacity m) (map snd (entries (set_root ws)))"
    and "\<And>other. other \<in> set (session_list db) \<Longrightarrow> other \<noteq> s \<Longrightarrow>
       without_copies w (map snd (entries (set_root ws))) other \<or>
       with_copies w (map snd (entries (set_root ws))) other"
    and "other \<in> set (session_list db)" "other \<noteq> s"
    and "with_copies w (map snd (entries (set_root ws))) other"
  shows "obl_commit_transaction k t w = Fault Blocked"
proof -
  let ?d = "ses_database r"
  let ?ps = "map snd (entries (set_root ws))"
  let ?msg = "Formatted ''Successful commit of %lu objects, %lu previously unpersisted.''
      [Num (int (length (entries (set_root ws)))), Num (int 0)]"
  obtain m' w4 where w4: "after_commit w s r t db m' w4"
    "obl_commit_transaction k t w =
       thenM (notify_sessions k ?d s (Some ws))
       (thenM (destroy_set_with (Some ws) (\<lambda>_. retM ()))
       (thenM (obl_log_database ?d L_DEBUG ?msg) (retM 0))) w4"
    using commit_until_notify [OF assms(1-9), of k] by blast
  have db: "databases w4 ?d = Some (db\<lparr>content := Some m'\<rparr>)"
    using w4(1) by (simp add: after_commit_def)
  have same: "without_copies w4 ?ps q = without_copies w ?ps q"
    "with_copies w4 ?ps q = with_copies w ?ps q" if "q \<noteq> s" for q
    using copies_cong [of w4 w q ?ps] w4(1) assms(3) that
    by (simp_all add: after_commit_def has_database_def)
  have "notify_sessions k ?d s (Some ws) w4 = Fault Blocked"
    by (rule notify_blocked [OF db, where other = other]) (use assms(6,10-13) same in simp_all)
  then show ?thesis by (simp only: w4(2) thenM_run result.case)
qed


text \<open>An object without a logical address needs the allocator, which the commit has locked out.\<close>

lemma new_object_blocks:
  assumes "heap w c = Some y" "obj_session y \<in> {NULL, s}" "logical_address y = OBL_LOGICAL_UNASSIGNED"
    and "s \<noteq> NULL" "sessions w s = Some r" "session_mutex r = 0"
    and "databases w (ses_database r) = Some db" "\<not> IS_FIXED_ADDR (allocator_addr (root db))"
  shows "i_visit_transitive_closure (knot (Suc n)) (Suc f) s c adopted w = Fault Blocked"
proof -
  have "i_get_allocator (knot (Suc n)) s w' = Fault Blocked"
    if "sessions w' = sessions w" "databases w' = databases w" for w'
    using assms(5-8) that
    by (simp add: i_get_allocator_def obl_at_address_def obl_at_address_depth_def knot.simps(2)
        i_obl_at_address_depth_def wait_session_mutex_def bindM_run thenM_run whenM_run get_run
        failM_run Let_def)
  then have assign: "i_obl_assign_addresses (knot (Suc n)) c (put_object c y' w) = Fault Blocked"
    if "obj_session y' = s" "logical_address y' = OBL_LOGICAL_UNASSIGNED" for y'
    using assms(4,5) that
    by (simp add: i_obl_assign_addresses_def obl_allocate_logical_def bindM_run thenM_run get_run Let_def)
  show ?thesis
  proof (cases "obj_session y = NULL")
    case True
    with assms(1,3) assign [of "y\<lparr>obj_session := s\<rparr>"] show ?thesis
      by (simp add: bindM_run thenM_run get_run update_object_run retM_run)
  next
    case False
    with assms(1-3) assign [of y] show ?thesis
      by (simp add: bindM_run get_run retM_run put_object_same)
  qed
qed

text \<open>
  What a commit may meet among the elements of a collection: objects of a session, fixed objects, and
  new ones.
\<close>

definition known_object :: "world \<Rightarrow> ptr \<Rightarrow> bool" where
  "known_object w c \<longleftrightarrow> (\<exists>y. heap w c = Some y \<and>
     (obj_session y \<noteq> NULL \<or> IS_FIXED_ADDR (logical_address y)))"

definition unplaced_object :: "world \<Rightarrow> ptr \<Rightarrow> bool" where
  "unplaced_object w c \<longleftrightarrow> (\<exists>y. heap w c = Some y \<and> obj_session y = NULL \<and>
     logical_address y = OBL_LOGICAL_UNASSIGNED)"

lemma children_loop_blocks:
  assumes "\<forall>c\<in>set cs. known_object w c \<or> unplaced_object w c" "\<exists>c\<in>set cs. unplaced_object w c"
    and "s \<noteq> NULL" "sessions w s = Some r" "session_mutex r = 0"
    and "databases w (ses_database r) = Some db" "\<not> IS_FIXED_ADDR (allocator_addr (root db))"
  shows "foldM (\<lambda>current adopted.
            bindM (get_object current) (\<lambda>y.
              if \<not> IS_FIXED_ADDR (logical_address y) \<and> obj_session y = NULL
              then i_visit_transitive_closure (knot (Suc n)) (Suc f) s current adopted
              else retM adopted)) (cs @ ds) adopted w = Fault Blocked"
  using assms(1,2)
proof (induction cs)
  case (Cons c cs)
  let ?step = "bindM (get_object c) (\<lambda>y.
              if \<not> IS_FIXED_ADDR (logical_address y) \<and> obj_session y = NULL
              then i_visit_transitive_closure (knot (Suc n)) (Suc f) s c adopted
              else retM adopted)"
  show ?case
  proof (cases "unplaced_object w c")
    case True
    then obtain y where y: "heap w c = Some y" "obj_session y = NULL"
      "logical_address y = OBL_LOGICAL_UNASSIGNED" by (auto simp: unplaced_object_def)
    moreover have "\<not> IS_FIXED_ADDR OBL_LOGICAL_UNASSIGNED"
      by (simp add: IS_FIXED_ADDR_def OBL_FIXED_ADDR_MIN_def OBL_ADDRESS_MAX_def OBL_UINT_MAX_def
          OBL_FIXED_SIZE_def)
    ultimately have "?step w = Fault Blocked"
      using new_object_blocks [OF y(1) _ y(3) assms(3-7), of n f adopted]
      by (simp add: bindM_run get_run del: i_visit_transitive_closure.simps)
    then show ?thesis by (simp add: bindM_run [of ?step])
  next
    case False
    with Cons.prems have "known_object w c" "\<exists>c\<in>set cs. unplaced_object w c" by auto
    then have "?step w = Ok adopted w"
      by (auto simp: known_object_def bindM_run get_run retM_run
          simp del: i_visit_transitive_closure.simps)
    then show ?thesis using Cons.IH Cons.prems \<open>\<exists>c\<in>set cs. unplaced_object w c\<close>
      by (simp add: bindM_run [of ?step])
  qed
qed simp


lemma fixed_children_run:
  assumes "fixed_collection w p x elems"
  shows "i_obl_children k p w = Ok (rev elems @ [obj_shape x]) w"
proof -
  have small: "unat (of_nat (length elems) :: obl_uint) = length elems"
    using assms by (simp add: fixed_collection_def)
  have "foldM (\<lambda>i results. bindM (nth_exec elems i) (\<lambda>q. retM (q # results))) [0..<n] rest w =
      Ok (rev (take n elems) @ rest) w" if "n \<le> length elems" for n rest
    using that
  proof (induction n)
    case (Suc n)
    then show ?case
      by (simp add: foldM_append bindM_run nth_exec_run retM_run take_Suc_conv_app_nth)
  qed (simp add: retM_run)
  note loop = this
  have "heap w p = Some x" "obl_storage_of p w = Ok OBL_FIXED w"
    "obj_storage x = Fixed_storage \<lparr>fixed_length = of_nat (length elems), fixed_contents = elems\<rparr>"
    using assms by (simp_all add: fixed_collection_def obl_storage_of_run)
  with small loop show ?thesis
    by (simp add: i_obl_children_def i_obl_fixed_children_def fixed_storage_of_def bindM_run get_run
        retM_run)
qed

lemma fixed_collection_cong:
  assumes "heap w' = heap w" "fixed_space w' = fixed_space w"
  shows "fixed_collection w' p x elems = fixed_collection w p x elems"
proof -
  have "fixed_ptr w' = fixed_ptr w" using assms by (simp add: fixed_ptr_def fun_eq_iff)
  then have "typed_at w' p t = typed_at w p t" for t
    using assms by (simp add: typed_at_def shape_at_def)
  then show ?thesis using assms by (simp add: fixed_collection_def)
qed

lemma visit_collection_blocks:
  assumes "fixed_collection w p x elems" "obj_session x = s" "logical_address x \<noteq> OBL_LOGICAL_UNASSIGNED"
    and "physical_address x \<noteq> OBL_PHYSICAL_UNASSIGNED"
    and "\<forall>c\<in>set elems. known_object w c \<or> unplaced_object w c" "\<exists>c\<in>set elems. unplaced_object w c"
    and "s \<noteq> NULL" "sessions w s = Some r" "session_mutex r = 0"
    and "databases w (ses_database r) = Some db" "\<not> IS_FIXED_ADDR (allocator_addr (root db))"
  shows "i_visit_transitive_closure (knot (Suc n)) (Suc (Suc f)) s p adopted w = Fault Blocked"
proof -
  have x: "heap w p = Some x" using assms(1) by (simp add: fixed_collection_def)
  have "i_obl_assign_addresses (knot (Suc n)) p w = Ok False w"
    using x assms(2-4,7,8)
    by (simp add: i_obl_assign_addresses_def bindM_run thenM_run get_run retM_run Let_def)
  moreover have "\<forall>c\<in>set (rev elems). known_object w c \<or> unplaced_object w c"
    "\<exists>c\<in>set (rev elems). unplaced_object w c" using assms(5,6) by simp_all
  note children_loop_blocks [OF this assms(7-11), of n f "[obj_shape x]" adopted]
  ultimately show ?thesis
    using x assms(2,7) fixed_children_run [OF assms(1), of "knot (Suc n)"]
    by (subst i_visit_transitive_closure.simps(2))
      (simp add: bindM_run [of "get_object _"] bindM_run [of "i_obl_assign_addresses _ _"]
        bindM_run [of "i_obl_children _ _"] bindM_run [of "retM _"] get_run retM_run
        del: i_visit_transitive_closure.simps)
qed

section \<open>Example processes\<close>

text \<open>The dirty integer, and a second session at 23 that has its own copy of it.\<close>

definition shared_world :: world where
  "shared_world = (add_object ((integer_object dirty_world)\<lparr>obj_session := 23\<rparr>) dirty_world)
     \<lparr>sessions := (sessions dirty_world)(23 \<mapsto> (session_at 20)\<lparr>read_set :=
        Some (one_object (next_ptr dirty_world))\<rparr>),
      databases := [20 \<mapsto> (plain_database \<lparr>cells = (\<lambda>_. 0), capacity = 64\<rparr>)\<lparr>session_list := [23, 21]\<rparr>]\<rparr>"

text \<open>A changed collection at the addresses 7 and 9 that holds a new integer.\<close>

definition collection_world :: world where
  "collection_world = (let w = example_world \<lparr>cells = (\<lambda>_. 0), capacity = 64\<rparr>; c = next_ptr w
     in (add_object \<lparr>obj_session = 21, logical_address = 7, physical_address = 9,
           obj_shape = fixed_ptr w OBL_FIXED_SHAPE_ADDR,
           obj_storage = Fixed_storage \<lparr>fixed_length = 1, fixed_contents = [c]\<rparr>\<rparr>
          (add_object (plain_object (fixed_ptr w OBL_INTEGER_SHAPE_ADDR)
             (Integer_storage \<lparr>integer_value = 5\<rparr>)) w))
        \<lparr>sessions := [21 \<mapsto> (session_at 20)\<lparr>current_transaction := 22\<rparr>],
         transactions := [22 \<mapsto> \<lparr>tx_session = 21, write_set = Some (one_object (Suc c))\<rparr>]\<rparr>)"

section \<open>Properties\<close>

text \<open>
  C11: When another session has a copy of an object of the write set, the commit writes the objects and
  then never returns: it refreshes the copy while holding the semaphore of that session, which the
  refresh waits for.
\<close>

theorem commit_blocks_on_copy:
  assumes "world_ok w" "in_transaction w s r t tx ws"
    and "databases w (ses_database r) = Some db" "ses_database r \<noteq> NULL"
    and "0 < content_mutex db" "0 < session_list_mutex db" "content db = Some m" "capacity m < 2 ^ 31"
    and "writable_set w s (capacity m) (map snd (entries (set_root ws)))"
    and "\<And>other. other \<in> set (session_list db) \<Longrightarrow> other \<noteq> s \<Longrightarrow>
       without_copies w (map snd (entries (set_root ws))) other \<or>
       with_copies w (map snd (entries (set_root ws))) other"
    and "other \<in> set (session_list db)" "other \<noteq> s"
    and "with_copies w (map snd (entries (set_root ws))) other"
  shows "obl_commit_transaction k t w = Fault Blocked"
  using assms(1) by (intro commit_blocked [OF _ assms(2-13)]) (simp add: world_ok_def)

lemma commit_blocks_on_copy_witness:
  "obl_commit_transaction (knot 0) 22 shared_world = Fault Blocked"
proof -
  let ?p = "next_ptr started_world" and ?q = "next_ptr dirty_world"
  let ?m = "\<lparr>cells = (\<lambda>_. 0), capacity = 64\<rparr> :: memory"
  have pq: "?p \<noteq> ?q" using dirty_world(1,4) freshD by (auto simp: world_ok_def)
  have at: "heap shared_world ?p = Some (integer_object dirty_world)"
    "heap shared_world ?q = Some ((integer_object dirty_world)\<lparr>obj_session := 23\<rparr>)"
    "fixed_ptr shared_world = fixed_ptr dirty_world"
    using dirty_world(4) pq by (simp_all add: shared_world_def fixed_ptr_def fun_eq_iff)
  have ses: "sessions shared_world = (sessions dirty_world)(23 \<mapsto> (session_at 20)\<lparr>read_set := Some (one_object ?q)\<rparr>)"
    "databases shared_world = [20 \<mapsto> (plain_database ?m)\<lparr>session_list := [23, 21]\<rparr>]"
    "transactions shared_world = transactions dirty_world"
    by (simp_all add: shared_world_def)
  have ok: "world_ok shared_world"
    using world_ok_add(1) [OF dirty_world(1)] by (simp add: shared_world_def)
  have tx: "in_transaction shared_world 21 ((session_at 20)\<lparr>current_transaction := 22\<rparr>) 22
     \<lparr>tx_session = 21, write_set = Some (one_object ?p)\<rparr> (one_object ?p)"
    using dirty_world(2) ses by (simp add: in_transaction_def)
  have "persistent shared_world 21 64 ?p"
    using dirty_world(5) dirty_world(4) at by (simp add: writable_set_def persistent_def)
  then have set: "writable_set shared_world 21 64 [?p]" by (simp add: writable_set_def)
  have "?q \<noteq> NULL" using dirty_world(1) by (auto simp: world_ok_def fresh_def)
  then have copies: "with_copies shared_world [?p] 23"
    using at ses by (auto simp: with_copies_def has_database_def session_at_def plain_database_def
        one_object_def)
  show ?thesis
    by (rule commit_blocks_on_copy [OF ok tx, where other = 23])
      (use ses set copies in \<open>auto simp: session_at_def plain_database_def\<close>)
qed

text \<open>
  C10: Committing a changed collection that refers to a new object never returns: the new object needs
  an address, and the allocator is read through the session, whose semaphore the commit holds.
\<close>

theorem commit_blocks_on_new_object:
  assumes "world_ok w" "in_transaction w s r t tx ws" "session_mutex r = 1"
    and "databases w (ses_database r) = Some db" "ses_database r \<noteq> NULL" "0 < content_mutex db"
    and "\<not> IS_FIXED_ADDR (allocator_addr (root db))"
    and "map snd (entries (set_root ws)) = ps @ p # qs" "\<forall>q\<in>set ps. persistent w s words q"
    and "fixed_collection w p x elems" "obj_session x = s"
    and "logical_address x \<noteq> OBL_LOGICAL_UNASSIGNED" "physical_address x \<noteq> OBL_PHYSICAL_UNASSIGNED"
    and "\<forall>c\<in>set elems. known_object w c \<or> unplaced_object w c" "\<exists>c\<in>set elems. unplaced_object w c"
  shows "obl_commit_transaction (knot (Suc n)) t w = Fault Blocked"
proof -
  let ?d = "ses_database r"
  let ?w0 = "logged db L_DEBUG (Text ''Beginning commit.'') w"
  let ?r1 = "r\<lparr>session_mutex := 0\<rparr>" and ?db1 = "db\<lparr>content_mutex := content_mutex db - Suc 0\<rparr>"
  let ?w2 = "?w0\<lparr>databases := (databases w)(?d \<mapsto> ?db1), sessions := (sessions w)(s \<mapsto> ?r1)\<rparr>"
  have tr: "s \<noteq> NULL" "sessions w s = Some r" "0 < session_mutex r"
    "current_transaction r = t" "transactions w t = Some tx" "tx_session tx = s" "write_set tx = Some ws"
    using assms(2) by (simp_all add: in_transaction_def)
  have ok: "fixed_ok ?w2"
    by (rule fixed_ok_same [of w]) (use assms(1) in \<open>simp_all add: world_ok_def same_fixed_def\<close>)
  obtain f where f: "next_ptr w = Suc f"
    using assms(1) by (cases "next_ptr w") (auto simp: world_ok_def fresh_def)
  have "\<forall>q\<in>set ps. persistent ?w2 s words q" using assms(9) persistent_cong(1) [of ?w2 w] by simp
  from visit_all [OF ok this tr(1), of ?r1 "knot (Suc n)" "Suc f" "[]"]
  have before: "foldM (i_visit_transitive_closure (knot (Suc n)) (Suc (Suc f)) s) ps [] ?w2 = Ok [] ?w2"
    by simp
  have "fixed_collection ?w2 p x elems"
    using assms(10) fixed_collection_cong [of ?w2 w] by simp
  moreover have "known_object ?w2 c = known_object w c" "unplaced_object ?w2 c = unplaced_object w c" for c
    by (simp_all add: known_object_def unplaced_object_def)
  ultimately have "i_visit_transitive_closure (knot (Suc n)) (Suc (Suc f)) s p [] ?w2 = Fault Blocked"
    using assms(7,11-15) tr(1)
    by (intro visit_collection_blocks [where x = x and elems = elems and r = ?r1 and db = ?db1]) simp_all
  then have "commit_changes (knot (Suc n)) t s ?w2 = Fault Blocked"
    using tr before f
    by (simp add: commit_changes_def bindM_run get_run the_set_run set_objects_run getsM_run assms(8)
        foldM_append del: i_visit_transitive_closure.simps)
  moreover have "obl_log_database ?d L_DEBUG (Text ''Beginning commit.'') w = Ok () ?w0"
    by (rule log_database_run [OF assms(5,4)])
  ultimately show ?thesis
    using tr assms(3,4,6)
    by (simp add: obl_commit_transaction_def wait_content_mutex_def wait_session_mutex_def bindM_run
        thenM_run get_run update_run Let_def)
qed

lemma commit_blocks_on_new_object_witness:
  "obl_commit_transaction (knot 1) 22 collection_world = Fault Blocked"
proof -
  let ?m = "\<lparr>cells = (\<lambda>_. 0), capacity = 64\<rparr> :: memory"
  let ?w = "example_world ?m"
  let ?c = "next_ptr ?w"
  let ?x = "\<lparr>obj_session = 21, logical_address = 7, physical_address = 9,
     obj_shape = fixed_ptr ?w OBL_FIXED_SHAPE_ADDR,
     obj_storage = Fixed_storage \<lparr>fixed_length = 1, fixed_contents = [?c]\<rparr>\<rparr>"
  let ?y = "plain_object (fixed_ptr ?w OBL_INTEGER_SHAPE_ADDR) (Integer_storage \<lparr>integer_value = 5\<rparr>)"
  have world: "heap collection_world = heap (add_object ?x (add_object ?y ?w))"
    "fixed_ptr collection_world = fixed_ptr ?w" "databases collection_world = databases ?w"
    "sessions collection_world = [21 \<mapsto> (session_at 20)\<lparr>current_transaction := 22\<rparr>]"
    "transactions collection_world = [22 \<mapsto> \<lparr>tx_session = 21, write_set = Some (one_object (Suc ?c))\<rparr>]"
    by (simp_all add: collection_world_def Let_def fixed_ptr_def fun_eq_iff)
  have ok: "world_ok collection_world"
    by (simp add: collection_world_def Let_def world_ok_add)
  have at: "heap collection_world (Suc ?c) = Some ?x" "heap collection_world ?c = Some ?y"
    unfolding world(1) by simp_all
  have tx: "in_transaction collection_world 21 ((session_at 20)\<lparr>current_transaction := 22\<rparr>) 22
     \<lparr>tx_session = 21, write_set = Some (one_object (Suc ?c))\<rparr> (one_object (Suc ?c))"
    by (simp add: in_transaction_def world session_at_def one_object_def rb_valid_def ordered_def)
  have "typed_at collection_world (Suc ?c) OBL_FIXED"
    by (rule typed_instance [OF _ at(1), of OBL_FIXED_SHAPE_ADDR])
      (use ok in \<open>simp_all add: world_ok_def world(2)\<close>)
  then have "fixed_collection collection_world (Suc ?c) ?x [?c]"
    using at by (simp add: fixed_collection_def)
  moreover have "unplaced_object collection_world ?c" using at by (simp add: unplaced_object_def)
  ultimately have "obl_commit_transaction (knot (Suc 0)) 22 collection_world = Fault Blocked"
    by (intro commit_blocks_on_new_object [OF ok tx, where ps = "[]" and qs = "[]"
          and elems = "[?c]" and x = ?x and p = "Suc ?c" and words = 0
          and db = "plain_database ?m"])
      (simp_all add: world(3) session_at_def plain_database_def IS_FIXED_ADDR_def OBL_FIXED_ADDR_MIN_def
        OBL_ADDRESS_MAX_def OBL_UINT_MAX_def OBL_FIXED_SIZE_def word_le_nat_alt)
  then show ?thesis by simp
qed

end
