(* ===== verification/Printing.thy ===== *)
theory Printing
  imports ObjectIO
begin

text \<open>
  Printing objects and sets on the standard output: the print functions of \<open>storage/*.c\<close>, their
  dispatch table in \<open>storage/object.c\<close>, and \<open>print_node\<close> of \<open>set.c\<close>. The output is appended to
  \<open>printed\<close>.
\<close>

section \<open>Text\<close>

definition put_text :: "string \<Rightarrow> unit exec" where
  "put_text text = modifyM (\<lambda>w. w\<lparr>printed := printed w @ text\<rparr>)"

definition newline :: string where
  "newline = [CHR 0x0A]"

definition put_line :: "string \<Rightarrow> unit exec" where
  "put_line text = put_text (text @ newline)"

definition put_indent :: "int \<Rightarrow> unit exec" where
  "put_indent indent = put_text (replicate (nat indent) CHR '' '')"

text \<open>The digits of a number to a base of at most 16, the conversions \<open>%d\<close>, \<open>%03d\<close> and \<open>0x%08lx\<close>.\<close>

fun number :: "nat \<Rightarrow> nat \<Rightarrow> string" where
  "number base n =
     (if base < 2 \<or> n < base then [''0123456789abcdef'' ! n]
      else number base (n div base) @ [''0123456789abcdef'' ! (n mod base)])"

definition pad_zero :: "nat \<Rightarrow> string \<Rightarrow> string" where
  "pad_zero width s = replicate (width - length s) CHR ''0'' @ s"

definition decimal :: "int \<Rightarrow> string" where
  "decimal i = (if i < 0 then ''-'' @ number 10 (nat (- i)) else number 10 (nat i))"

definition hexadecimal :: "obl_uint \<Rightarrow> string" where
  "hexadecimal u = ''0x'' @ pad_zero 8 (number 16 (unat u))"

section \<open>Objects\<close>

definition obl_integer_print :: "ptr \<Rightarrow> int \<Rightarrow> unit exec" where
  "obl_integer_print p indent =
     thenM (put_indent indent) (bindM (obl_integer_value p) (\<lambda>v. put_text (decimal (sint v))))"

definition obl_boolean_print :: "ptr \<Rightarrow> int \<Rightarrow> unit exec" where
  "obl_boolean_print p indent =
     thenM (put_indent indent)
       (bindM (obl_boolean_value p) (\<lambda>v. put_text (if v \<noteq> 0 then ''true'' else ''false'')))"

definition obl_nil_print :: "int \<Rightarrow> unit exec" where
  "obl_nil_print indent = thenM (put_indent indent) (put_line ''nil'')"

text \<open>
  The buffer has as many bytes as the string has units, and is printed up to its first null byte or
  the length that the converter returned.
\<close>

definition obl_string_print :: "icu \<Rightarrow> ptr \<Rightarrow> int \<Rightarrow> unit exec" where
  "obl_string_print u p indent =
     bindM (obl_string_size p) (\<lambda>size.
     bindM malloc (\<lambda>ok.
       if \<not> ok then failM NullPointer
       else
         bindM (obl_string_chars u p (unat size)) (\<lambda>(buffer, converted).
           thenM (put_indent indent)
             (if length buffer < converted \<and> CHR 0x00 \<notin> set buffer then failM OutOfBounds
              else put_text (takeWhile (\<lambda>c. c \<noteq> CHR 0x00) (take converted buffer))))))"

definition obl_addrtreepage_print :: "ptr \<Rightarrow> int \<Rightarrow> int \<Rightarrow> unit exec" where
  "obl_addrtreepage_print p depth indent =
     thenM (put_indent indent)
       (bindM (get_object p) (\<lambda>x.
          if depth = 0 then
            put_line (''<address tree page: '' @ hexadecimal (logical_address x) @ ''>'')
          else
            bindM (addrtreepage_storage_of p) (\<lambda>st.
              thenM (put_text ''Address Map '')
              (thenM (put_line (if page_height st = 0 then ''Leaf'' else ''Branch''))
              (thenM (put_indent indent)
              (thenM (put_line (''Height: '' @ decimal (sint (page_height st))))
                (forM [0..<CHUNK_SIZE] (\<lambda>i.
                   thenM (put_indent indent)
                     (bindM (nth_exec (page_contents st) i) (\<lambda>v.
                        put_line (''['' @ pad_zero 3 (number 10 i) @ ''] '' @ hexadecimal v)))))))))))"

text \<open>
  The functions below print the objects that an object refers to, through the first argument. A loop
  that asks for the number of elements at every step is bounded by the length of the array.
\<close>

type_synonym printer = "ptr \<Rightarrow> int \<Rightarrow> int \<Rightarrow> unit exec"

fun print_elements :: "printer \<Rightarrow> calls \<Rightarrow> ptr \<Rightarrow> int \<Rightarrow> int \<Rightarrow> nat \<Rightarrow> nat \<Rightarrow> unit exec" where
  "print_elements pr k p depth indent 0 i = failM OutOfFuel"
| "print_elements pr k p depth indent (Suc n) i =
     bindM (obl_fixed_size p) (\<lambda>size.
       if i < unat size then
         bindM (obl_fixed_at k p (of_nat i)) (\<lambda>element.
           thenM (pr element (depth - 1) (indent + 2))
           (thenM (put_text newline)
             (print_elements pr k p depth indent n (Suc i))))
       else retM ())"

definition obl_fixed_print :: "printer \<Rightarrow> calls \<Rightarrow> ptr \<Rightarrow> int \<Rightarrow> int \<Rightarrow> unit exec" where
  "obl_fixed_print pr k p depth indent =
     thenM (put_indent indent)
       (if depth = 0 then
          bindM (obl_fixed_size p) (\<lambda>size.
            put_line (''<fixed collection: '' @ decimal (sint size) @ '' elements>''))
        else
          thenM (put_line ''Fixed Collection'')
            (bindM (obl_fixed_size p) (\<lambda>size.
               print_elements pr k p depth indent (Suc (unat size)) 0)))"

definition obl_shape_print :: "printer \<Rightarrow> calls \<Rightarrow> ptr \<Rightarrow> int \<Rightarrow> int \<Rightarrow> unit exec" where
  "obl_shape_print pr k shape depth indent =
     bindM (obl_shape_name k shape) (\<lambda>name.
       thenM (put_indent indent)
         (if depth = 0 then
            thenM (put_text ''<shape:'') (thenM (pr name 0 0) (put_text ''>''))
          else
            thenM (put_line ''Shape'')
            (thenM (put_indent indent)
            (thenM (put_text ''Name: '')
            (thenM (pr name 0 0)
            (thenM (put_text newline)
              (bindM (obl_shape_slotnames k shape) (\<lambda>slots.
                thenM (put_indent indent)
                (thenM (put_line ''Slots:'')
                (thenM (pr slots (depth - 1) (indent + 2))
                  (bindM (obl_shape_currentshape k shape) (\<lambda>current_shape.
                    thenM (put_indent indent)
                    (thenM (put_line ''Current Shape:'')
                      (pr current_shape (depth - 1) (indent + 2)))))))))))))))"

fun print_slots ::
    "printer \<Rightarrow> calls \<Rightarrow> ptr \<Rightarrow> ptr \<Rightarrow> ptr \<Rightarrow> int \<Rightarrow> int \<Rightarrow> nat \<Rightarrow> nat \<Rightarrow> unit exec" where
  "print_slots pr k p shape slotnames depth indent 0 i = failM OutOfFuel"
| "print_slots pr k p shape slotnames depth indent (Suc n) i =
     bindM (obl_shape_slotcount k shape) (\<lambda>count.
       if i < unat count then
         bindM (obl_fixed_at k slotnames (of_nat i)) (\<lambda>slotname.
         bindM (obl_slotted_at k p (of_nat i)) (\<lambda>slot.
           thenM (put_indent indent)
           (thenM (pr slotname 0 0)
           (thenM (put_line '':'')
           (thenM (pr slot (depth - 1) (indent + 2))
           (thenM (put_text newline)
             (print_slots pr k p shape slotnames depth indent n (Suc i))))))))
       else retM ())"

definition obl_slotted_print :: "printer \<Rightarrow> calls \<Rightarrow> ptr \<Rightarrow> int \<Rightarrow> int \<Rightarrow> unit exec" where
  "obl_slotted_print pr k p depth indent =
     bindM (obl_object_shape p) (\<lambda>shape.
       thenM (put_indent indent)
         (if depth = 0 then
            bindM (obl_shape_name k shape) (\<lambda>name.
              thenM (put_text ''<slotted:'') (thenM (pr name 0 0) (put_text ''>'')))
          else
            thenM (put_line ''Slotted Object'')
            (thenM (put_indent indent)
            (thenM (put_text ''Shape: '')
            (thenM (pr shape 0 0)
            (thenM (put_text newline)
              (bindM (obl_shape_slotnames k shape) (\<lambda>slotnames.
               bindM (obl_shape_slotcount k shape) (\<lambda>count.
                 print_slots pr k p shape slotnames depth indent (Suc (unat count)) 0)))))))))"

definition invalid_print :: "ptr \<Rightarrow> int \<Rightarrow> unit exec" where
  "invalid_print p indent =
     thenM (put_indent indent)
       (bindM (get_object p) (\<lambda>x.
          put_text (''<INVALID: logical '' @ hexadecimal (logical_address x) @ '' physical '' @
            hexadecimal (physical_address x) @ ''>'')))"

fun print_functions :: "obl_storage_type \<Rightarrow> icu \<Rightarrow> calls \<Rightarrow> printer \<Rightarrow> printer" where
  "print_functions OBL_SHAPE u k pr p depth indent = obl_shape_print pr k p depth indent"
| "print_functions OBL_SLOTTED u k pr p depth indent = obl_slotted_print pr k p depth indent"
| "print_functions OBL_FIXED u k pr p depth indent = obl_fixed_print pr k p depth indent"
| "print_functions OBL_ADDRTREEPAGE u k pr p depth indent = obl_addrtreepage_print p depth indent"
| "print_functions OBL_INTEGER u k pr p depth indent = obl_integer_print p indent"
| "print_functions OBL_STRING u k pr p depth indent = obl_string_print u p indent"
| "print_functions OBL_BOOLEAN u k pr p depth indent = obl_boolean_print p indent"
| "print_functions OBL_NIL u k pr p depth indent = obl_nil_print indent"
| "print_functions (OBL_OTHER v) u k pr p depth indent = failM OutOfBounds"
| "print_functions t u k pr p depth indent = invalid_print p indent"

text \<open>The first argument bounds how deep objects are printed inside of each other.\<close>

fun obl_print_object :: "nat \<Rightarrow> icu \<Rightarrow> calls \<Rightarrow> printer" where
  "obl_print_object 0 u k p depth indent = failM OutOfFuel"
| "obl_print_object (Suc n) u k p depth indent =
     bindM (obl_storage_of p) (\<lambda>t. print_functions t u k (obl_print_object n u k) p depth indent)"

section \<open>Sets\<close>

fun print_node :: "ptr rb \<Rightarrow> int \<Rightarrow> unit exec" where
  "print_node Tip indent =
     thenM (put_indent (indent - 2))
     (thenM (put_text ((if indent \<ge> 2 then [CHR 0x5C] else []) @ (if indent \<ge> 1 then ''='' else [])))
       (put_line ''B:*''))"
| "print_node (Node c l key x r) indent =
     thenM (put_indent (indent - 2))
     (thenM (put_text ((if indent \<ge> 2 then [CHR 0x5C] else []) @ (if indent \<ge> 1 then ''='' else [])))
     (thenM (put_text ''['')
     (thenM (put_text (if IS_RED (Node c l key x r) then ''R'' else ''B''))
     (thenM (put_line ('':'' @ decimal (int key) @ '']''))
     (thenM (print_node l (indent + 2))
       (print_node r (indent + 2)))))))"

definition obl_set_print :: "obl_set \<Rightarrow> unit exec" where
  "obl_set_print oset = print_node (set_root oset) 0"

end
