(* ===== verification/Discipline.thy ===== *)
theory Discipline
  imports Database AddressMapFacts Printing
begin

text \<open>
  The discipline of sessions, semaphores and transactions: whatever public operations run, in whatever
  order, sessions and transactions point to each other and every semaphore of a session has been
  released. A relation between states that every step of a program keeps is kept by the program:
  the rules for the constructs are proved once, in the locale \<open>frame_relation\<close>.
\<close>

section \<open>Rules for the constructs\<close>

locale frame_relation =
  fixes R :: "world \<Rightarrow> world \<Rightarrow> bool"
  assumes R_refl: "R w w"
    and R_trans: "R u v \<Longrightarrow> R v w \<Longrightarrow> R u w"
begin

definition kept :: "'a exec \<Rightarrow> bool" where
  "kept m \<longleftrightarrow> (\<forall>w a w'. m w = Ok a w' \<longrightarrow> R w w')"

lemma keptI: "(\<And>w a w'. m w = Ok a w' \<Longrightarrow> R w w') \<Longrightarrow> kept m"
  by (simp add: kept_def)

lemma keptD: "kept m \<Longrightarrow> m w = Ok a w' \<Longrightarrow> R w w'"
  by (simp add: kept_def)

lemma ret: "kept (retM x)"
  by (simp add: kept_def retM_run R_refl)

lemma fail: "kept (failM e)"
  by (simp add: kept_def failM_run)

lemma gets: "kept (getsM f)"
  by (simp add: kept_def getsM_run R_refl)

lemma bind: "kept m \<Longrightarrow> (\<And>x. kept (f x)) \<Longrightarrow> kept (bindM m f)"
  unfolding kept_def bindM_Ok_iff using R_trans by blast

lemma seq: "kept m \<Longrightarrow> kept n \<Longrightarrow> kept (thenM m n)"
  unfolding thenM_def by (rule bind)

lemma cond: "(b \<Longrightarrow> kept m) \<Longrightarrow> (\<not> b \<Longrightarrow> kept n) \<Longrightarrow> kept (if b then m else n)"
  by simp

lemma guarded: "(b \<Longrightarrow> kept m) \<Longrightarrow> kept (whenM b m)"
  by (simp add: whenM_def ret)

lemma of_option: "kept m \<Longrightarrow> (\<And>y. kept (f y)) \<Longrightarrow> kept (case x of None \<Rightarrow> m | Some y \<Rightarrow> f y)"
  by (cases x) simp_all

lemma of_sum: "(\<And>y. kept (f y)) \<Longrightarrow> (\<And>y. kept (g y)) \<Longrightarrow> kept (case x of Inl y \<Rightarrow> f y | Inr y \<Rightarrow> g y)"
  by (cases x) simp_all

lemma of_pair: "(\<And>a b. kept (f a b)) \<Longrightarrow> kept (case x of (a, b) \<Rightarrow> f a b)"
  by (cases x) simp

lemma of_storage:
  assumes "\<And>s. kept (a s)" "\<And>s. kept (b s)" "\<And>s. kept (c s)" "\<And>s. kept (d s)" "\<And>s. kept (e s)"
    "\<And>s. kept (f s)" "\<And>s. kept (g s)" "\<And>s. kept (h s)" "\<And>s. kept (i s)" "\<And>s. kept (j s)"
    "\<And>s. kept (k s)" "\<And>s. kept (l s)" "kept m" "kept n"
  shows "kept (case_obl_storage a b c d e f g h i j k l m n st)"
  using assms by (cases st) simp_all

lemma loop: "(\<And>x. kept (f x)) \<Longrightarrow> kept (forM xs f)"
  by (induction xs) (simp_all add: ret seq)

lemma accumulate: "(\<And>x a. kept (f x a)) \<Longrightarrow> kept (foldM f xs a)"
  by (induction xs arbitrary: a) (simp_all add: ret bind)

lemma collect: "(\<And>x. kept (f x)) \<Longrightarrow> kept (mapM f xs)"
  by (induction xs) (simp_all add: ret bind)

lemma indexed: "kept (nth_exec xs i)"
  by (simp add: nth_exec_def ret fail)

lemma steps: "kept (m (g w0)) \<Longrightarrow> (\<And>n. kept (m n)) \<Longrightarrow> kept (\<lambda>w. m (g w) w)"
  unfolding kept_def by blast

lemmas rules = bind seq cond guarded of_option of_sum of_pair of_storage loop accumulate collect
  ret fail gets indexed

end

section \<open>What most operations leave alone\<close>

text \<open>The sessions, the transactions and the next pointer stay as they are.\<close>

definition same_tx :: "world \<Rightarrow> world \<Rightarrow> bool" where
  "same_tx w w' \<longleftrightarrow> sessions w' = sessions w \<and> transactions w' = transactions w \<and>
     next_ptr w \<le> next_ptr w'"

named_theorems untouched \<open>programs that leave sessions and transactions alone\<close>

interpretation same: frame_relation same_tx
  by unfold_locales (auto simp: same_tx_def)

lemma untouched_primitives [untouched]:
  "same.kept (get_object p)" "same.kept (get_session p)" "same.kept (get_transaction p)"
  "same.kept (get_database p)" "same.kept (update_object p f)" "same.kept (update_database p g)"
  "same.kept (the_set os)" "same.kept malloc" "same.kept (new_object x)" "same.kept (new_database y)"
  "same.kept (free_object p)" "same.kept (free_database p)"
  by (auto intro!: same.keptI simp: same_tx_def run malloc_def free_object_def free_database_def
      the_set_def split: option.splits nat.splits if_split_asm)

lemma untouched_modify:
  "(\<And>w. sessions (f w) = sessions w \<and> transactions (f w) = transactions w \<and> next_ptr (f w) = next_ptr w) \<Longrightarrow>
     same.kept (modifyM f)"
  by (rule same.keptI) (auto simp: same_tx_def modifyM_run)

lemma untouched_emit [untouched]: "same.kept (emit f l m)"
  unfolding emit_def by (rule untouched_modify) simp

lemma untouched_log [untouched]:
  "same.kept (obl_log c l m)" "same.kept (OBL_CONFIG_FROM d)" "same.kept (obl_log_database d l m)"
  unfolding obl_log_database_def obl_log_def OBL_CONFIG_FROM_def by (intro same.rules untouched)+

lemma untouched_report [untouched]:
  "same.kept (obl_report_error d c m)" "same.kept (obl_report_errorf d c f args)"
  unfolding obl_report_errorf_def obl_report_error_def Let_def by (intro same.rules untouched)+

lemma untouched_semaphores [untouched]:
  "same.kept (wait_content_mutex d)" "same.kept (post_content_mutex d)"
  "same.kept (wait_session_list_mutex d)" "same.kept (post_session_list_mutex d)"
  unfolding wait_content_mutex_def post_content_mutex_def wait_session_list_mutex_def
    post_session_list_mutex_def
  by (intro same.rules untouched)+

lemma untouched_content [untouched]:
  "(\<And>m. same.kept (f m)) \<Longrightarrow> same.kept (with_content d f)" "same.kept (read_cell d i)"
  "same.kept (write_cell d i v)" "same.kept (read_half d i)" "same.kept (write_half d i u)"
  unfolding read_half_def write_half_def read_cell_def write_cell_def with_content_def
  by (intro same.rules untouched; simp)+

lemma untouched_fixed [untouched]:
  "same.kept (i_obl_at_fixed_address a)" "same.kept obl_nil" "same.kept (set_fixed_space b p)"
  unfolding obl_nil_def i_obl_at_fixed_address_def set_fixed_space_def
  by (intro same.rules untouched untouched_modify; simp)+

lemma untouched_storage [untouched]:
  "same.kept (obl_object_shape p)" "same.kept (obl_database_of p)" "same.kept (wrong_storage p m)"
  "same.kept (shape_storage_of p)" "same.kept (slotted_storage_of p)" "same.kept (fixed_storage_of p)"
  "same.kept (addrtreepage_storage_of p)" "same.kept (integer_storage_of p)"
  "same.kept (string_storage_of p)" "same.kept (boolean_storage_of p)" "same.kept (stub_storage_of p)"
  unfolding wrong_storage_def obl_object_shape_def obl_database_of_def shape_storage_of_def
    slotted_storage_of_def fixed_storage_of_def addrtreepage_storage_of_def integer_storage_of_def
    string_storage_of_def boolean_storage_of_def stub_storage_of_def
  by (intro same.rules untouched)+

lemma untouched_by [untouched]:
  "(\<And>q. same.kept (f q)) \<Longrightarrow> same.kept (shape_storagetype_by f p)"
  unfolding shape_storagetype_by_def by (intro same.rules untouched; simp)

lemma untouched_storage_steps [untouched]: "same.kept (storage_of_steps n p)"
proof (induction n arbitrary: p)
  case (Suc n)
  show ?case unfolding storage_of_steps.simps by (intro same.rules untouched Suc.IH)
qed (simp add: same.fail)

lemma untouched_storage_type [untouched]:
  "same.kept (obl_storage_of p)" "same.kept (obl_shape_storagetype p)" "same.kept (i_obl_is_stub p)"
proof -
  show 1: "same.kept (obl_storage_of p)" for p
    unfolding obl_storage_of_def by (rule same.steps) (rule untouched)+
  show 2: "same.kept (obl_shape_storagetype p)" for p
    unfolding obl_shape_storagetype_def by (intro untouched 1)
  show "same.kept (i_obl_is_stub p)"
    unfolding i_obl_is_stub_def by (intro same.rules untouched 2)
qed

lemma untouched_deallocate [untouched]:
  "same.kept (deallocate_functions t p)" "same.kept (i_obl_deallocate_object p)"
proof -
  show 1: "same.kept (deallocate_functions t p)" for t p
    by (cases t; simp add: i_obl_slotted_deallocate_def i_obl_fixed_deallocate_def
        i_obl_string_deallocate_def simple_deallocate_def; intro same.rules untouched)
  show "same.kept (i_obl_deallocate_object p)"
    unfolding i_obl_deallocate_object_def by (intro same.rules untouched 1)
qed

lemma untouched_sets [untouched]:
  "same.kept (obl_create_set kf)" "same.kept (key_of kf p)" "same.kept (create_node kf p)"
  "same.kept (obl_set_insert oset p)" "same.kept (obl_set_remove oset p)"
  "same.kept (set_objects oset)"
proof -
  show 1: "same.kept (key_of kf p)" for kf p
    by (cases kf; simp; intro same.rules untouched)
  then show 2: "same.kept (create_node kf p)" for kf p
    unfolding create_node_def by (intro same.rules untouched 1)
  show "same.kept (obl_create_set kf)" unfolding obl_create_set_def by (intro same.rules untouched)
  show "same.kept (obl_set_insert oset p)"
    unfolding obl_set_insert_def Let_def by (intro same.rules untouched 2)
  show "same.kept (obl_set_remove oset p)"
    unfolding obl_set_remove_def by (intro same.rules untouched 1)
  show "same.kept (set_objects oset)" unfolding set_objects_def by (intro same.rules untouched)
qed

lemma untouched_create [untouched]:
  "same.kept i_obl_allocate_object"
  "same.kept m \<Longrightarrow> same.kept (with_storage_block q d m)"
  "same.kept (obl_create_integer i)" "same.kept (i_obl_create_bool b)" "same.kept i_obl_create_nil"
  "same.kept (obl_create_addrtreepage h)" "same.kept (i_allocate_string us n)"
  "same.kept (obl_create_string us n)" "same.kept (obl_create_cstring u c n)"
  "same.kept (cstring_object u c)" "same.kept (obl_create_fixed n)"
  "same.kept (obl_create_shape name slot_names t)"
  unfolding cstring_object_def obl_create_cstring_def obl_create_string_def i_allocate_string_def
    obl_create_integer_def i_obl_create_bool_def i_obl_create_nil_def obl_create_addrtreepage_def
    obl_create_fixed_def obl_create_shape_def i_obl_allocate_object_def with_storage_block_def Let_def
  by (intro same.rules untouched; simp)+

lemma untouched_values [untouched]:
  "same.kept (obl_integer_value p)" "same.kept (obl_string_size p)" "same.kept (obl_string_cmp p q)"
  "same.kept (obl_fixed_size p)" "same.kept (invalid_index p f i n)" "same.kept (address_word q)"
  "same.kept (set_fixed_content p i v)" "same.kept (set_slot p i v)"
  unfolding obl_integer_value_def obl_string_cmp_def obl_string_size_def obl_fixed_size_def
    invalid_index_def address_word_def set_fixed_content_def set_slot_def
  by (intro same.rules untouched)+

lemma untouched_io [untouched]:
  "same.kept (obl_integer_read d b)" "same.kept (obl_integer_write p d)"
  "same.kept (obl_addrtreepage_read d b)" "same.kept (obl_addrtreepage_write p d)"
  "same.kept (obl_string_read q d b)" "same.kept (obl_string_write p d)"
  "same.kept (obl_fixed_write p d)" "same.kept (i_obl_fixed_children p)"
  "same.kept (obl_shape_write p d)" "same.kept (i_obl_shape_children p)"
  "same.kept (invalid_read s b)" "same.kept (invalid_write p)"
  unfolding obl_integer_read_def obl_integer_write_def obl_addrtreepage_read_def
    obl_addrtreepage_write_def obl_string_read_def obl_string_write_def obl_fixed_write_def
    i_obl_fixed_children_def obl_shape_write_def i_obl_shape_children_def invalid_read_def
    invalid_write_def Let_def
  by (intro same.rules untouched)+

section \<open>Links and semaphores\<close>

text \<open>
  The transaction of a session and the session of a transaction point to each other (\<open>linked\<close>), no
  pointer to come is in use, and \<open>c\<close> gives the values of the semaphores of the sessions.
\<close>

definition cur :: "world \<Rightarrow> ptr \<Rightarrow> ptr option" where
  "cur w s = map_option current_transaction (sessions w s)"

definition owner :: "world \<Rightarrow> ptr \<Rightarrow> ptr option" where
  "owner w t = map_option tx_session (transactions w t)"

definition linked :: "world \<Rightarrow> bool" where
  "linked w \<longleftrightarrow> (\<forall>s t. t \<noteq> NULL \<longrightarrow> (cur w s = Some t \<longleftrightarrow> owner w t = Some s))"

definition used_below :: "world \<Rightarrow> bool" where
  "used_below w \<longleftrightarrow> 0 < next_ptr w \<and> cur w NULL = None \<and> owner w NULL = None \<and>
     (\<forall>p\<ge>next_ptr w. cur w p = None \<and> owner w p = None)"

definition semaphores :: "(ptr \<Rightarrow> nat) \<Rightarrow> world \<Rightarrow> bool" where
  "semaphores c w \<longleftrightarrow> (\<forall>s r. sessions w s = Some r \<longrightarrow> session_mutex r = c s) \<and>
     (\<forall>p\<ge>next_ptr w. c p = 1)"

definition tx_inv :: "(ptr \<Rightarrow> nat) \<Rightarrow> world \<Rightarrow> bool" where
  "tx_inv c w \<longleftrightarrow> linked w \<and> used_below w \<and> semaphores c w"

text \<open>A transaction may end, but it never changes hands.\<close>

definition stays :: "world \<Rightarrow> world \<Rightarrow> bool" where
  "stays w w' \<longleftrightarrow> next_ptr w \<le> next_ptr w' \<and>
     (\<forall>t<next_ptr w. \<forall>s. owner w' t = Some s \<longrightarrow> owner w t = Some s)"

lemma stays_refl: "stays w w"
  by (simp add: stays_def)

lemma stays_trans: "stays u v \<Longrightarrow> stays v w \<Longrightarrow> stays u w"
  by (auto simp: stays_def)

lemma stays_same: "owner w' = owner w \<Longrightarrow> next_ptr w \<le> next_ptr w' \<Longrightarrow> stays w w'"
  by (simp add: stays_def)

definition tx_same :: "world \<Rightarrow> world \<Rightarrow> bool" where
  "tx_same w w' \<longleftrightarrow> stays w w' \<and> (\<forall>c. tx_inv c w \<longrightarrow> tx_inv c w')"

interpretation tx: frame_relation tx_same
  by unfold_locales (auto simp: tx_same_def stays_refl intro: stays_trans)

named_theorems disciplined \<open>programs that keep the links and the semaphores\<close>

lemma session_below: "tx_inv c w \<Longrightarrow> sessions w s = Some r \<Longrightarrow> s \<noteq> NULL \<and> s < next_ptr w"
  by (metis tx_inv_def used_below_def cur_def option.map_disc_iff option.distinct(1) not_less)

text \<open>Only the links, the semaphores and the next pointer matter.\<close>

lemma tx_inv_frame:
  assumes "tx_inv c w" "cur w' = cur w" "owner w' = owner w" "next_ptr w \<le> next_ptr w'"
    and "\<And>s r. sessions w' s = Some r \<Longrightarrow> session_mutex r = c' s"
    and "\<And>p. next_ptr w' \<le> p \<Longrightarrow> c' p = 1"
  shows "tx_inv c' w'"
  using assms by (auto simp: tx_inv_def linked_def used_below_def semaphores_def)

lemma same_imp_tx:
  assumes "same_tx w w'"
  shows "tx_same w w'"
proof -
  have "tx_inv c w'" if "tx_inv c w" for c
    by (rule tx_inv_frame [OF that])
      (use assms that in \<open>auto simp: same_tx_def cur_def owner_def tx_inv_def semaphores_def fun_eq_iff\<close>)
  moreover have "stays w w'"
    using assms by (intro stays_same) (simp_all add: same_tx_def owner_def fun_eq_iff)
  ultimately show ?thesis by (simp add: tx_same_def)
qed

lemma tx_of_same: "same.kept m \<Longrightarrow> tx.kept m"
  by (auto simp: same.kept_def tx.kept_def same_imp_tx)

text \<open>Changing a session without touching its transaction.\<close>

lemma session_changed:
  assumes "tx_inv c w" "sessions w s = Some r" "current_transaction r' = current_transaction r"
  shows "tx_inv (c(s := session_mutex r')) (w\<lparr>sessions := (sessions w)(s \<mapsto> r')\<rparr>)"
proof (rule tx_inv_frame [OF assms(1)])
  have "s < next_ptr w" using session_below [OF assms(1,2)] by blast
  then show "(c(s := session_mutex r')) p = 1" if "next_ptr (w\<lparr>sessions := (sessions w)(s \<mapsto> r')\<rparr>) \<le> p" for p
    using that assms(1) by (simp add: tx_inv_def semaphores_def)
qed (use assms in \<open>auto simp: cur_def owner_def fun_eq_iff tx_inv_def semaphores_def split: if_split_asm\<close>)

lemma keep_session [disciplined]:
  assumes "\<And>r. current_transaction (f r) = current_transaction r \<and> session_mutex (f r) = session_mutex r"
  shows "tx.kept (update_session s f)"
proof (rule tx.keptI)
  fix w a w' assume "update_session s f w = Ok a w'"
  then obtain r where r: "sessions w s = Some r" "w' = w\<lparr>sessions := (sessions w)(s \<mapsto> f r)\<rparr>"
    by (auto simp: run split: option.splits)
  have "c(s := session_mutex (f r)) = c" if "tx_inv c w" for c
    using that r(1) assms [of r] by (auto simp: tx_inv_def semaphores_def)
  with session_changed [OF _ r(1)] assms [of r] have "\<forall>c. tx_inv c w \<longrightarrow> tx_inv c w'"
    unfolding r(2) by metis
  moreover have "stays w w'" unfolding r(2) by (intro stays_same) (simp_all add: owner_def fun_eq_iff)
  ultimately show "tx_same w w'" by (simp add: tx_same_def)
qed

lemma keep_transaction [disciplined]:
  assumes "\<And>tx. tx_session (f tx) = tx_session tx"
  shows "tx.kept (update_transaction t f)"
proof (rule tx.keptI)
  fix w a w' assume "update_transaction t f w = Ok a w'"
  then obtain tx where tx: "transactions w t = Some tx"
    "w' = w\<lparr>transactions := (transactions w)(t \<mapsto> f tx)\<rparr>"
    by (auto simp: run split: option.splits)
  have same: "owner w' = owner w" "cur w' = cur w"
    using assms tx by (auto simp: cur_def owner_def fun_eq_iff)
  have "tx_inv c w'" if "tx_inv c w" for c
    by (rule tx_inv_frame [OF that same(2,1)]) (use that tx in \<open>auto simp: tx_inv_def semaphores_def\<close>)
  then show "tx_same w w'" using stays_same [OF same(1)] tx(2) by (simp add: tx_same_def)
qed

section \<open>Semaphores\<close>

text \<open>Programs that release the semaphore of a session once.\<close>

definition releases :: "ptr \<Rightarrow> 'a exec \<Rightarrow> bool" where
  "releases s m \<longleftrightarrow> (\<forall>w a w'. m w = Ok a w' \<longrightarrow>
     stays w w' \<and> (\<forall>c. tx_inv c w \<longrightarrow> tx_inv (c(s := Suc (c s))) w'))"

lemma release_post: "releases s (post_session_mutex s)"
  unfolding releases_def
proof (intro allI impI conjI)
  fix w a w' assume m: "post_session_mutex s w = Ok a w'"
  then obtain r where r: "sessions w s = Some r"
    "w' = w\<lparr>sessions := (sessions w)(s \<mapsto> r\<lparr>session_mutex := session_mutex r + 1\<rparr>)\<rparr>"
    by (auto simp: post_session_mutex_def run split: option.splits)
  show "stays w w'" unfolding r(2) by (intro stays_same) (simp_all add: owner_def fun_eq_iff)
  fix c assume inv: "tx_inv c w"
  have "session_mutex r = c s" using inv r(1) by (simp add: tx_inv_def semaphores_def)
  then show "tx_inv (c(s := Suc (c s))) w'"
    using session_changed [OF inv r(1), of "r\<lparr>session_mutex := session_mutex r + 1\<rparr>"] r(2) by simp
qed

lemma release_bind: "tx.kept m \<Longrightarrow> (\<And>x. releases s (f x)) \<Longrightarrow> releases s (bindM m f)"
  unfolding releases_def tx.kept_def bindM_Ok_iff tx_same_def using stays_trans by meson

lemma release_seq: "tx.kept m \<Longrightarrow> releases s n \<Longrightarrow> releases s (thenM m n)"
  unfolding thenM_def by (rule release_bind)

lemma release_then:
  assumes "tx.kept n"
  shows "releases s (thenM (post_session_mutex s) n)"
  using assms release_post [of s]
  unfolding releases_def tx.kept_def thenM_Ok_iff tx_same_def using stays_trans by meson

lemma release_cond:
  "(b \<Longrightarrow> releases s m) \<Longrightarrow> (\<not> b \<Longrightarrow> releases s n) \<Longrightarrow> releases s (if b then m else n)"
  by simp

lemma release_option:
  "releases s m \<Longrightarrow> (\<And>y. releases s (f y)) \<Longrightarrow> releases s (case x of None \<Rightarrow> m | Some y \<Rightarrow> f y)"
  by (cases x) simp_all

lemma release_pair: "(\<And>a b. releases s (f a b)) \<Longrightarrow> releases s (case x of (a, b) \<Rightarrow> f a b)"
  by (cases x) simp

lemmas release_rules = release_then release_post release_bind release_seq release_cond
  release_option release_pair

text \<open>A section that waits for the semaphore and then releases it.\<close>

lemma critical_section [disciplined]:
  assumes "releases s m"
  shows "tx.kept (thenM (wait_session_mutex s) m)"
proof (rule tx.keptI)
  fix w a w' assume "thenM (wait_session_mutex s) m w = Ok a w'"
  then obtain u w1 where wait: "wait_session_mutex s w = Ok u w1" and m: "m w1 = Ok a w'"
    by (auto simp: thenM_Ok_iff)
  from wait obtain r where r: "sessions w s = Some r" "session_mutex r \<noteq> 0"
    "w1 = w\<lparr>sessions := (sessions w)(s \<mapsto> r\<lparr>session_mutex := session_mutex r - 1\<rparr>)\<rparr>"
    by (auto simp: wait_session_mutex_def run split: option.splits if_split_asm)
  have "stays w w1" unfolding r(3) by (intro stays_same) (simp_all add: owner_def fun_eq_iff)
  with assms m have "stays w w'" unfolding releases_def using stays_trans by blast
  then show "tx_same w w'" unfolding tx_same_def
  proof (intro conjI allI impI)
    fix c assume inv: "tx_inv c w"
    let ?c = "c(s := session_mutex r - 1)"
    have "tx_inv ?c w1"
      using session_changed [OF inv r(1), of "r\<lparr>session_mutex := session_mutex r - 1\<rparr>"] r(3) by simp
    with assms m have "tx_inv (?c(s := Suc (?c s))) w'" unfolding releases_def by blast
    moreover have "?c(s := Suc (?c s)) = c"
      using inv r(1,2) by (auto simp: tx_inv_def semaphores_def fun_eq_iff)
    ultimately show "tx_inv c w'" by simp
  qed
qed

lemma critical_bind [disciplined]:
  "(\<And>x. releases s (f x)) \<Longrightarrow> tx.kept (bindM (wait_session_mutex s) f)"
  using critical_section [of s "f ()"] by (simp add: thenM_def)

lemmas tx_rules = critical_section critical_bind tx.rules

section \<open>Transactions\<close>

lemma transaction_added:
  assumes "tx_inv c w" "sessions w s = Some r" "current_transaction r = NULL"
  shows "tx_inv c (w\<lparr>transactions := (transactions w)(next_ptr w \<mapsto> \<lparr>tx_session = s, write_set = ws\<rparr>),
     next_ptr := Suc (next_ptr w),
     sessions := (sessions w)(s \<mapsto> r\<lparr>current_transaction := next_ptr w\<rparr>)\<rparr>)"
proof -
  let ?n = "next_ptr w"
  let ?w = "w\<lparr>transactions := (transactions w)(?n \<mapsto> \<lparr>tx_session = s, write_set = ws\<rparr>),
     next_ptr := Suc ?n, sessions := (sessions w)(s \<mapsto> r\<lparr>current_transaction := ?n\<rparr>)\<rparr>"
  have cur: "cur ?w = (cur w)(s \<mapsto> ?n)" and owner: "owner ?w = (owner w)(?n \<mapsto> s)"
    by (auto simp: cur_def owner_def fun_eq_iff)
  have below: "s \<noteq> NULL" "s < ?n" using session_below [OF assms(1,2)] by simp_all
  have free: "owner w ?n = None" "cur w ?n = None" "\<And>q. cur w q \<noteq> Some ?n" "cur w s = Some NULL" "?n \<noteq> NULL"
    using assms by (auto simp: tx_inv_def used_below_def linked_def cur_def)
  have link: "cur w q = Some t \<longleftrightarrow> owner w t = Some q" if "t \<noteq> NULL" for q t
    using assms(1) that by (simp add: tx_inv_def linked_def)
  have "owner w t \<noteq> Some s" if "t \<noteq> NULL" for t
    using link [OF that, of s] free(4) that by auto
  then have "linked ?w" unfolding linked_def cur owner using free link by auto
  moreover have "used_below ?w"
    using assms(1) free below unfolding used_below_def cur owner by (auto simp: tx_inv_def used_below_def)
  moreover have "semaphores c ?w"
    using assms(1,2) by (auto simp: tx_inv_def semaphores_def)
  ultimately show ?thesis by (simp add: tx_inv_def)
qed

lemma transaction_removed:
  assumes "tx_inv c w" "transactions w t = Some tx" "sessions w (tx_session tx) = Some r"
  shows "tx_inv c (w\<lparr>sessions := (sessions w)(tx_session tx \<mapsto> r\<lparr>current_transaction := NULL\<rparr>),
     transactions := (transactions w)(t := None)\<rparr>)" "t \<noteq> NULL"
proof -
  let ?s = "tx_session tx"
  let ?w = "w\<lparr>sessions := (sessions w)(?s \<mapsto> r\<lparr>current_transaction := NULL\<rparr>),
     transactions := (transactions w)(t := None)\<rparr>"
  have own: "owner w t = Some ?s" using assms(2) by (simp add: owner_def)
  then show "t \<noteq> NULL" using assms(1) by (cases "t = NULL") (auto simp: tx_inv_def used_below_def)
  have cur: "cur ?w = (cur w)(?s \<mapsto> NULL)" and owner: "owner ?w = (owner w)(t := None)"
    by (auto simp: cur_def owner_def fun_eq_iff)
  have link: "cur w q = Some t' \<longleftrightarrow> owner w t' = Some q" if "t' \<noteq> NULL" for q t'
    using assms(1) that by (simp add: tx_inv_def linked_def)
  have "cur w ?s = Some t" using link \<open>t \<noteq> NULL\<close> own by simp
  moreover have "t' = t" if "t' \<noteq> NULL" "owner w t' = Some ?s" for t'
    using link [OF that(1), of ?s] that(2) calculation by simp
  ultimately have "linked ?w" unfolding linked_def cur owner using link by auto
  moreover have "used_below ?w"
    using assms(1) session_below [OF assms(1,3)] unfolding used_below_def cur owner
    by (auto simp: tx_inv_def used_below_def)
  moreover have "semaphores c ?w"
    using assms(1,3) by (auto simp: tx_inv_def semaphores_def)
  ultimately show "tx_inv c ?w" by (simp add: tx_inv_def)
qed

lemma keep_allocate_transaction [disciplined]: "tx.kept (i_allocate_transaction s)"
proof (rule tx.keptI)
  fix w a w' assume m: "i_allocate_transaction s w = Ok a w'"
  then obtain r where r: "sessions w s = Some r"
    by (auto simp: i_allocate_transaction_def run split: option.splits)
  let ?report = "\<lambda>c. thenM (obl_report_error (ses_database r) c None) (retM NULL)"
  have report: "tx.kept (?report c)" for c
    by (intro tx_rules tx_of_same untouched)
  have failed: "tx_same v w'" if "?report c v = Ok a w'" for c v
    by (rule tx.keptD [OF report that])
  show "tx_same w w'"
  proof (cases "current_transaction r = NULL")
    case False
    with m r show ?thesis
      by (intro failed [of OBL_ALREADY_IN_TRANSACTION w])
        (simp add: i_allocate_transaction_def bindM_run [of "get_session s"] get_run)
  next
    case True
    with m r obtain ok w1 where w1: "malloc w = Ok ok w1"
      and rest: "(if \<not> ok then ?report OBL_OUT_OF_MEMORY
           else
             bindM (obl_create_set logical_address_keyfunction) (\<lambda>ws.
             bindM (new_transaction \<lparr>tx_session = s, write_set = ws\<rparr>) (\<lambda>t.
               thenM (update_session s (\<lambda>r. r\<lparr>current_transaction := t\<rparr>)) (retM t)))) w1 = Ok a w'"
      by (auto simp: i_allocate_transaction_def bindM_run [of "get_session s"] get_run bindM_Ok_iff)
    have same1: "same_tx w w1" using same.keptD [OF untouched_primitives(8) w1] .
    show ?thesis
    proof (cases ok)
      case False
      with rest failed [of OBL_OUT_OF_MEMORY w1] same_imp_tx [OF same1] tx.R_trans show ?thesis by simp
    next
      case True
      with rest obtain ws w2 where w2: "obl_create_set logical_address_keyfunction w1 = Ok ws w2"
        and last: "bindM (new_transaction \<lparr>tx_session = s, write_set = ws\<rparr>) (\<lambda>t.
               thenM (update_session s (\<lambda>r. r\<lparr>current_transaction := t\<rparr>)) (retM t)) w2 = Ok a w'"
        by (auto simp: bindM_Ok_iff [of "obl_create_set logical_address_keyfunction"])
      have same2: "same_tx w w2"
        using same1 same.keptD [OF untouched_sets(1) w2] by (rule same.R_trans)
      have r2: "sessions w2 s = Some r" using same2 r by (simp add: same_tx_def)
      have "w' = w2\<lparr>transactions := (transactions w2)(next_ptr w2 \<mapsto> \<lparr>tx_session = s, write_set = ws\<rparr>),
          next_ptr := Suc (next_ptr w2),
          sessions := (sessions w2)(s \<mapsto> r\<lparr>current_transaction := next_ptr w2\<rparr>)\<rparr>"
        using last r2 by (auto simp: bindM_run thenM_run new_run update_run retM_run)
      then have "tx_same w2 w'"
        using transaction_added [OF _ r2 \<open>current_transaction r = NULL\<close>, of _ ws]
        by (auto simp: tx_same_def stays_def owner_def)
      with same_imp_tx [OF same2] show ?thesis by (rule tx.R_trans)
    qed
  qed
qed

lemma keep_deallocate_transaction [disciplined]: "tx.kept (i_deallocate_transaction t)"
proof (rule tx.keptI)
  fix w a w' assume m: "i_deallocate_transaction t w = Ok a w'"
  then obtain tx r where tx: "transactions w t = Some tx" "sessions w (tx_session tx) = Some r"
    by (auto simp: i_deallocate_transaction_def run split: option.splits)
  then have w': "t \<noteq> NULL \<Longrightarrow> w' = w\<lparr>sessions := (sessions w)(tx_session tx \<mapsto> r\<lparr>current_transaction := NULL\<rparr>),
     transactions := (transactions w)(t := None)\<rparr>"
    using m by (auto simp: i_deallocate_transaction_def free_transaction_def run)
  from m tx have "stays w w'"
    by (auto simp: i_deallocate_transaction_def free_transaction_def run stays_def owner_def
        split: if_split_asm)
  with transaction_removed [OF _ tx] w' show "tx_same w w'" unfolding tx_same_def by metis
qed

lemma keep_begin [disciplined]: "tx.kept (obl_begin_transaction s)"
  unfolding obl_begin_transaction_def
  by (intro tx_rules release_rules disciplined tx_of_same untouched)

lemma keep_ensure [disciplined]: "tx.kept (obl_ensure_transaction s c)"
  unfolding obl_ensure_transaction_def
  by (intro tx_rules release_rules disciplined tx_of_same untouched)

lemma keep_mark [disciplined]: "tx.kept (obl_mark_dirty p)"
  unfolding obl_mark_dirty_def Let_def
  by (intro tx_rules release_rules disciplined tx_of_same untouched; simp)

lemma keep_release [disciplined]: "tx.kept (i_obl_session_release p)" "tx.kept (obl_destroy_object p)"
proof -
  show 1: "tx.kept (i_obl_session_release p)"
    unfolding i_obl_session_release_def Let_def
    by (intro tx_rules release_rules disciplined tx_of_same untouched; simp)
  show "tx.kept (obl_destroy_object p)"
    unfolding obl_destroy_object_def i_obl_database_release_def
    by (intro tx_rules 1 tx_of_same untouched)
qed

section \<open>Reading and printing\<close>

lemma untouched_reading [untouched]:
  "same.kept (obl_boolean_value p)" "same.kept (obl_string_chars u p n)"
  "same.kept (obl_string_value p n)" "same.kept (obl_database_ok d)" "same.kept (obl_clear_error d)"
  unfolding obl_boolean_value_def obl_string_chars_def obl_string_value_def obl_database_ok_def
    obl_clear_error_def Let_def
  by (intro same.rules untouched)+

lemma untouched_text [untouched]:
  "same.kept (put_text c)" "same.kept (put_line c)" "same.kept (put_indent i)"
  unfolding put_indent_def put_line_def put_text_def by (intro untouched_modify; simp)+

lemma untouched_printing [untouched]:
  "same.kept (obl_integer_print p i)" "same.kept (obl_boolean_print p i)" "same.kept (obl_nil_print i)"
  "same.kept (obl_string_print u p i)" "same.kept (obl_addrtreepage_print p n i)"
  "same.kept (invalid_print p i)"
  unfolding obl_integer_print_def obl_boolean_print_def obl_nil_print_def obl_string_print_def
    obl_addrtreepage_print_def invalid_print_def
  by (intro same.rules untouched)+

section \<open>New sessions\<close>

lemma session_added:
  assumes "tx_inv c w" "current_transaction r = NULL" "session_mutex r = Suc 0"
  shows "tx_inv c (w\<lparr>sessions := (sessions w)(next_ptr w \<mapsto> r), next_ptr := Suc (next_ptr w)\<rparr>)"
proof -
  let ?n = "next_ptr w"
  let ?w = "w\<lparr>sessions := (sessions w)(?n \<mapsto> r), next_ptr := Suc ?n\<rparr>"
  have cur: "cur ?w = (cur w)(?n \<mapsto> NULL)" and owner: "owner ?w = owner w"
    using assms(2) by (auto simp: cur_def owner_def fun_eq_iff)
  have link: "cur w q = Some t \<longleftrightarrow> owner w t = Some q" if "t \<noteq> NULL" for q t
    using assms(1) that by (simp add: tx_inv_def linked_def)
  have "cur w ?n = None" using assms(1) by (simp add: tx_inv_def used_below_def)
  then have "owner w t \<noteq> Some ?n" if "t \<noteq> NULL" for t
    using link [OF that, of ?n] by simp
  then have "linked ?w" using link unfolding linked_def cur owner by auto
  moreover have "used_below ?w"
    using assms(1) unfolding used_below_def cur owner by (auto simp: tx_inv_def used_below_def)
  moreover have "semaphores c ?w"
    using assms(1,3) by (auto simp: tx_inv_def semaphores_def)
  ultimately show ?thesis by (simp add: tx_inv_def)
qed

lemma keep_create_session [disciplined]: "tx.kept (obl_create_session d)"
proof -
  have new: "tx.kept (new_session \<lparr>ses_database = d, current_transaction = NULL, read_set = rs,
      session_mutex = 1\<rparr>)" for rs
    by (rule tx.keptI) (auto simp: new_run tx_same_def stays_def owner_def intro: session_added)
  show ?thesis unfolding obl_create_session_def by (intro new tx_rules tx_of_same untouched)
qed

section \<open>Files and memory\<close>

lemma untouched_extent [untouched]:
  "same.kept (open_file path create)" "same.kept (stat_file path)" "same.kept (map_file path n)"
  "same.kept (unmap_file path m n)" "same.kept (extend_file path off)"
  "same.kept (i_obl_map_database d)" "same.kept (i_obl_unmap_database d)"
  "same.kept (i_grow_database d)" "same.kept (page_bound d)" "same.kept (shift_left x y)"
  "same.kept (i_treepage_index l h)" "same.kept (i_verify_addrtreepage d b)"
  unfolding i_grow_database_def i_obl_map_database_def i_obl_unmap_database_def open_file_def
    stat_file_def map_file_def unmap_file_def extend_file_def page_bound_def i_treepage_index_def
    shift_left_def i_verify_addrtreepage_def Let_def
  by (intro same.rules untouched untouched_modify; simp)+

lemma untouched_lookup [untouched]:
  "same.kept (i_lookup_in n d b l)" "same.kept (obl_address_lookup d l)"
proof -
  show 1: "same.kept (i_lookup_in n d b l)" for n b
  proof (induction n arbitrary: b)
    case (Suc n)
    show ?case unfolding i_lookup_in.simps Let_def by (intro same.rules untouched Suc.IH)
  qed (simp add: same.fail)
  show "same.kept (obl_address_lookup d l)"
    unfolding obl_address_lookup_def Let_def by (intro same.rules untouched 1)
qed

section \<open>Operations that load or commit\<close>

text \<open>
  What loading an object and committing a transaction promise to everything that calls them back.
\<close>

locale callbacks =
  fixes k :: calls
  assumes load_kept: "tx.kept (call_at_address_depth k s a depth is_top)"
    and commit_kept: "tx.kept (call_commit_transaction k t)"
begin

lemmas op_rules = tx_rules release_rules load_kept commit_kept disciplined tx_of_same untouched

lemma resolve: "tx.kept (i_obl_resolve_stub k p)"
  unfolding i_obl_resolve_stub_def by (intro op_rules)

lemma modify:
  assumes "tx.kept change"
  shows "tx.kept (modify_in_transaction k p change)"
  unfolding modify_in_transaction_def by (intro assms op_rules)

lemma fixed_ops: "tx.kept (obl_fixed_at k p i)" "tx.kept (obl_fixed_at_put k p i v)"
  "tx.kept (destroy_slot_names k p n)"
  unfolding obl_fixed_at_def obl_fixed_at_put_def destroy_slot_names_def
  by (intro resolve modify op_rules)+

lemma at_address: "tx.kept (obl_at_address_depth k s a depth)" "tx.kept (obl_at_address k s a)"
  unfolding obl_at_address_def obl_at_address_depth_def by (intro op_rules)+

lemma slot_names: "tx.kept (obl_shape_slotnames k p)" "tx.kept (obl_shape_slotcount k p)"
  unfolding obl_shape_slotcount_def obl_shape_slotnames_def by (intro resolve op_rules)+

lemma slot_searched: "tx.kept (slot_search k p q n i)"
proof (induction n arbitrary: i)
  case (Suc n)
  show ?case unfolding slot_search.simps by (intro fixed_ops Suc.IH op_rules)
qed (simp add: tx.fail)

lemma slot_named: "tx.kept (obl_shape_slotnamed k p q)" "tx.kept (obl_shape_slotcnamed u k p c)"
  unfolding obl_shape_slotcnamed_def obl_shape_slotnamed_def
  by (intro slot_searched slot_names op_rules)+

lemma slotted_ops: "tx.kept (obl_create_slotted k p)" "tx.kept (obl_slotted_at k p i)"
  "tx.kept (obl_slotted_at_put k p i v)"
  unfolding obl_create_slotted_def obl_slotted_at_def obl_slotted_at_put_def with_storage_block_def
  by (intro slot_names resolve modify op_rules)+

lemma named_ops: "tx.kept (obl_slotted_atnamed k p q)" "tx.kept (obl_slotted_atcnamed u k p c)"
  "tx.kept (obl_slotted_atnamed_put k p q v)" "tx.kept (obl_slotted_atcnamed_put u k p c v)"
  unfolding obl_slotted_atnamed_def obl_slotted_atcnamed_def obl_slotted_atnamed_put_def
    obl_slotted_atcnamed_put_def
  by (intro slot_named slotted_ops op_rules)+

lemma integer_set: "tx.kept (obl_integer_set k p v)"
  unfolding obl_integer_set_def by (intro modify op_rules)

lemma slot_names_created: "tx.kept (create_slot_names u k p q i names)"
proof (induction names arbitrary: i)
  case (Cons c names)
  show ?case unfolding create_slot_names.simps by (intro fixed_ops Cons.IH op_rules)
qed (simp add: tx.ret)

lemma cshape: "tx.kept (obl_create_cshape u k c names t)" "tx.kept (obl_destroy_cshape k p)"
  unfolding obl_create_cshape_def obl_destroy_cshape_def Let_def
  by (intro slot_names_created fixed_ops op_rules)+

lemma read_object: "tx.kept (obl_read_object k s d b depth)"
proof -
  have shape: "tx.kept (obl_shape_read k s q d b depth)" for q
    unfolding obl_shape_read_def Let_def by (intro op_rules)
  have slotted: "tx.kept (obl_slotted_read k s q d b depth)" for q
    unfolding obl_slotted_read_def by (intro slotted_ops slot_names op_rules)
  have table: "tx.kept (read_functions t k s q d b depth)" for t q
    by (cases t; simp only: read_functions.simps; intro shape slotted op_rules)
  show ?thesis
    unfolding obl_read_object_def with_function_index_def by (intro table op_rules)
qed

lemma write_object: "tx.kept (obl_write_object k p d)"
proof -
  have slotted: "tx.kept (obl_slotted_write k p d)"
    unfolding obl_slotted_write_def by (intro slot_names op_rules)
  have table: "tx.kept (write_functions t k p d)" for t
    by (cases t; simp only: write_functions.simps; intro slotted op_rules)
  show ?thesis
    unfolding obl_write_object_def with_function_index_def by (intro table op_rules)
qed

lemma children: "tx.kept (i_obl_children k p)"
proof -
  have loop: "tx.kept (slotted_children_loop k q array n i results)" for q array n i results
  proof (induction n arbitrary: i results)
    case (Suc n)
    show ?case unfolding slotted_children_loop.simps by (intro slot_names Suc.IH op_rules)
  qed (simp add: tx.fail)
  have slotted: "tx.kept (i_obl_slotted_children k p)"
    unfolding i_obl_slotted_children_def by (intro loop op_rules)
  have table: "tx.kept (children_functions t k p)" for t
    by (cases t; simp only: children_functions.simps; intro slotted op_rules)
  show ?thesis unfolding i_obl_children_def by (intro table op_rules)
qed

lemma wordsize: "tx.kept (obl_object_wordsize k p)"
proof -
  have table: "tx.kept (case t of
         OBL_SHAPE \<Rightarrow> retM 5
       | OBL_SLOTTED \<Rightarrow>
           bindM (get_object p) (\<lambda>x.
           bindM (obl_shape_slotcount k (obj_shape x)) (\<lambda>n. retM (1 + n)))
       | OBL_FIXED \<Rightarrow> bindM (obl_fixed_size p) (\<lambda>n. retM (1 + n))
       | OBL_CHUNK \<Rightarrow> retM (2 + of_nat CHUNK_SIZE)
       | OBL_ADDRTREEPAGE \<Rightarrow> retM (2 + of_nat CHUNK_SIZE)
       | OBL_INTEGER \<Rightarrow> retM 2
       | OBL_FLOAT \<Rightarrow> retM (1 + 32 div 4)
       | OBL_DOUBLE \<Rightarrow> retM (1 + 64 div 4)
       | OBL_CHAR \<Rightarrow> retM (1 + 4 div 4)
       | OBL_STRING \<Rightarrow> bindM (obl_string_size p) (\<lambda>n. retM (1 + n * (4 div 2)))
       | OBL_BOOLEAN \<Rightarrow> retM 2
       | OBL_NIL \<Rightarrow> retM 2
       | _ \<Rightarrow>
           thenM (wrong_storage p
                    ''obl_object_wordsize called with an object of unknown storage.'')
             (retM 0))" for t
    by (cases t; simp only: obl_storage_type.case; intro slot_names op_rules)
  show ?thesis unfolding obl_object_wordsize_def
    by (intro tx.bind table tx_of_same untouched)
qed

lemma allocator: "tx.kept (i_get_allocator k s)" "tx.kept (obl_allocate_logical k s)"
  "tx.kept (obl_allocate_physical k s words)"
  unfolding obl_allocate_logical_def obl_allocate_physical_def i_get_allocator_def
  by (intro at_address slotted_ops integer_set op_rules)+

lemma assign: "tx.kept (obl_address_assign k s l p)"
proof -
  have page: "tx.kept (i_create_treepage k s h)" for h
    unfolding i_create_treepage_def Let_def by (intro allocator op_rules)
  have raise: "tx.kept (raise_root k s d h n b)" for d h n b
    unfolding raise_root_def by (intro page op_rules)
  have assign_in: "tx.kept (i_assign_in k n s b key v)" for n b key v
  proof (induction n arbitrary: b)
    case (Suc n)
    show ?case unfolding i_assign_in.simps Let_def by (intro page Suc.IH op_rules)
  qed (simp add: tx.fail)
  show ?thesis unfolding obl_address_assign_def Let_def by (intro raise assign_in op_rules)
qed

lemma addresses: "tx.kept (i_obl_assign_addresses k p)"
  unfolding i_obl_assign_addresses_def Let_def by (intro allocator wordsize assign op_rules)

lemma write_changed: "tx.kept (i_obl_write k p)"
  unfolding i_obl_write_def Let_def by (intro write_object op_rules)

lemma closure: "tx.kept (i_visit_transitive_closure k n s p adopted)"
proof (induction n arbitrary: p adopted)
  case (Suc n)
  show ?case unfolding i_visit_transitive_closure.simps by (intro addresses children Suc.IH op_rules)
qed (simp add: tx.fail)

lemma adopt: "tx.kept (insert_adopted t s p)"
  unfolding insert_adopted_def by (intro op_rules; simp)

lemma changes: "tx.kept (commit_changes k t s)"
  unfolding commit_changes_def by (intro closure adopt write_changed op_rules)

lemma refresh: "tx.kept (obl_refresh_object k p)"
  unfolding obl_refresh_object_def Let_def by (intro read_object op_rules)

lemma update_objects: "tx.kept (i_obl_update_objects k s os)"
  unfolding i_obl_update_objects_def Let_def by (intro refresh op_rules)

lemma notify: "tx.kept (notify_sessions k d s os)"
  unfolding notify_sessions_def by (intro update_objects op_rules)

lemma destroy_set:
  assumes "\<And>p. tx.kept (f p)"
  shows "tx.kept (destroy_set_with os f)"
  unfolding destroy_set_with_def by (intro assms op_rules)

lemma commit: "tx.kept (obl_commit_transaction k t)"
  unfolding obl_commit_transaction_def Let_def by (intro changes notify destroy_set op_rules)

lemma abort: "tx.kept (obl_abort_transaction k t)"
  unfolding obl_abort_transaction_def Let_def by (intro refresh destroy_set op_rules)

lemma stub: "tx.kept (i_obl_create_stub k s a)"
  unfolding i_obl_create_stub_def by (intro op_rules)

lemma load: "tx.kept (i_obl_at_address_depth k s a depth is_top)"
  by (cases is_top; simp only: i_obl_at_address_depth_def whenM_def if_True if_False Let_def;
      intro read_object stub op_rules; simp)

text \<open>Destroying a session aborts its transaction first, so nothing points to what is freed.\<close>

lemma abort_ends:
  assumes abort: "obl_abort_transaction k t w = Ok u w'" and tx: "transactions w t = Some tx"
    and inv: "tx_inv c w"
  shows "cur w' (tx_session tx) = Some NULL"
proof -
  let ?s = "tx_session tx"
  from abort tx obtain v1 w1 v2 w2 v3 w3 where wait: "wait_session_mutex ?s w = Ok v1 w1"
    and set: "destroy_set_with (write_set tx) (obl_refresh_object k) w1 = Ok v2 w2"
    and dealloc: "i_deallocate_transaction t w2 = Ok v3 w3"
    and post: "post_session_mutex ?s w3 = Ok u w'"
    by (auto simp: obl_abort_transaction_def Let_def thenM_Ok_iff bindM_run [of "get_transaction t"]
        get_run)
  have "owner w1 = owner w" "next_ptr w1 = next_ptr w"
    using wait by (auto simp: wait_session_mutex_def run owner_def fun_eq_iff split: option.splits if_split_asm)
  moreover have "stays w1 w2"
    using tx.keptD [OF destroy_set set] refresh by (simp add: tx_same_def)
  moreover have "owner w t = Some ?s" using tx by (simp add: owner_def)
  moreover from this have "t < next_ptr w"
    using inv by (auto simp: tx_inv_def used_below_def not_less [symmetric])
  moreover from dealloc obtain tx2 where tx2: "transactions w2 t = Some tx2"
    by (auto simp: i_deallocate_transaction_def run split: option.splits)
  ultimately have "tx_session tx2 = ?s"
    by (auto simp: stays_def owner_def)
  with dealloc tx2 have "cur w3 ?s = Some NULL"
    by (auto simp: i_deallocate_transaction_def free_transaction_def run cur_def
        split: option.splits if_split_asm)
  with post show ?thesis
    by (auto simp: post_session_mutex_def run cur_def split: option.splits)
qed

lemma session_removed:
  assumes "tx_inv c w" "cur w s = Some NULL"
  shows "tx_inv c (w\<lparr>sessions := (sessions w)(s := None)\<rparr>)"
proof -
  let ?w = "w\<lparr>sessions := (sessions w)(s := None)\<rparr>"
  have cur: "cur ?w = (cur w)(s := None)" and owner: "owner ?w = owner w"
    by (auto simp: cur_def owner_def fun_eq_iff)
  have link: "cur w q = Some t \<longleftrightarrow> owner w t = Some q" if "t \<noteq> NULL" for q t
    using assms(1) that by (simp add: tx_inv_def linked_def)
  have "owner w t \<noteq> Some s" if "t \<noteq> NULL" for t
    using link [OF that, of s] assms(2) that by auto
  then have "linked ?w" using link unfolding linked_def cur owner by auto
  moreover have "used_below ?w" using assms unfolding used_below_def cur owner
    by (auto simp: tx_inv_def used_below_def)
  moreover have "semaphores c ?w" using assms by (auto simp: tx_inv_def semaphores_def)
  ultimately show ?thesis by (simp add: tx_inv_def)
qed

lemma destroy_session: "tx.kept (obl_destroy_session k s)"
proof (rule tx.keptI)
  fix w a w' assume m: "obl_destroy_session k s w = Ok a w'"
  let ?abort = "\<lambda>r. if current_transaction r \<noteq> NULL
    then obl_abort_transaction k (current_transaction r) else retM ()"
  let ?set = "bindM (get_session s) (\<lambda>r. destroy_set_with (read_set r) i_obl_deallocate_object)"
  let ?list = "\<lambda>d. thenM (wait_session_list_mutex d)
    (thenM (update_database d (\<lambda>r. r\<lparr>session_list := obl_session_list_remove (session_list r) s\<rparr>))
      (post_session_list_mutex d))"
  from m obtain r where r: "sessions w s = Some r"
    by (auto simp: obl_destroy_session_def run split: option.splits)
  with m obtain v1 w1 v2 w2 v3 w3 where abort: "?abort r w = Ok v1 w1"
    and set: "?set w1 = Ok v2 w2" and list: "?list (ses_database r) w2 = Ok v3 w3"
    and last: "free_session s w3 = Ok a w'"
    by (auto simp: obl_destroy_session_def Let_def thenM_Ok_iff bindM_Ok_iff [of "get_session s"]
        get_run; metis)
  have same: "same.kept (destroy_set_with os i_obl_deallocate_object)" for os
    unfolding destroy_set_with_def by (intro same.rules untouched)
  have "same.kept ?set" by (intro same.rules untouched same)
  then have "same_tx w1 w2" using set by (rule same.keptD [where m = ?set])
  moreover have "same.kept (?list (ses_database r))" by (intro same.rules untouched)
  then have "same_tx w2 w3" using list by (rule same.keptD [where m = "?list (ses_database r)"])
  ultimately have w3: "same_tx w1 w3" by (rule same.R_trans)
  have "tx.kept (?abort r)"
    unfolding obl_abort_transaction_def Let_def by (intro refresh destroy_set op_rules)
  then have w1: "tx_same w w1" using abort by (rule tx.keptD)
  from w1 same_imp_tx [OF w3] have kept: "tx_same w w3" by (rule tx.R_trans)
  have w': "s \<noteq> NULL \<Longrightarrow> w' = w3\<lparr>sessions := (sessions w3)(s := None)\<rparr>"
    using last by (auto simp: free_session_def run split: option.splits if_split_asm)
  have "tx_inv c w'" if inv: "tx_inv c w" for c
  proof -
    have "cur w1 s = Some NULL"
    proof (cases "current_transaction r = NULL")
      case True
      with abort r show ?thesis by (simp add: retM_run cur_def)
    next
      case False
      with inv r obtain tx where "transactions w (current_transaction r) = Some tx" "tx_session tx = s"
        by (auto simp: tx_inv_def linked_def cur_def owner_def)
      with abort_ends [of "current_transaction r" w v1 w1 tx c] abort False inv show ?thesis by simp
    qed
    with w3 have "cur w3 s = Some NULL" by (simp add: same_tx_def cur_def)
    moreover have "tx_inv c w3" using kept inv by (simp add: tx_same_def)
    ultimately show ?thesis
      using session_removed w' session_below [OF inv r] by simp
  qed
  moreover have "stays w3 w'"
    using last by (intro stays_same)
      (auto simp: free_session_def run owner_def fun_eq_iff split: option.splits if_split_asm)
  ultimately show "tx_same w w'"
    using kept by (auto simp: tx_same_def intro: stays_trans)
qed

end

text \<open>Both functions keep the promise, whatever the bound on their nesting.\<close>

lemma knot_callbacks: "callbacks (knot n)"
proof (induction n)
  case 0
  show ?case by unfold_locales (simp_all add: knot.simps tx.fail)
next
  case (Suc n)
  show ?case
    by unfold_locales (simp_all add: knot.simps callbacks.load [OF Suc] callbacks.commit [OF Suc])
qed

text \<open>Starting and stopping the library, opening and closing a database.\<close>

context callbacks
begin

lemma startup: "tx.kept (obl_startup u k)"
proof -
  have early: "tx.kept (correct_early_shape nil string_shape fixed_shape p)" for nil string_shape fixed_shape p
    unfolding correct_early_shape_def by (intro op_rules)
  have address: "tx.kept (address_fixed_space is)" for "is"
  proof (induction "is")
    case (Cons i "is")
    show ?case unfolding address_fixed_space.simps by (intro Cons.IH op_rules)
  qed (simp add: tx.ret)
  show ?thesis unfolding obl_startup_def i_initialize_fixed_space_def
    by (intro early address cshape op_rules)
qed

lemma shutdown: "tx.kept (obl_shutdown k)"
  unfolding obl_shutdown_def i_destroy_fixed_space_def by (intro cshape op_rules untouched_modify; simp)

lemma bootstrap: "tx.kept (i_bootstrap_database u k d)"
proof -
  have set: "tx.kept (set_addresses p l a)" for p l a
    unfolding set_addresses_def by (intro op_rules)
  have counter: "tx.kept (bootstrap_counter u k p c l a)" for p c l a
    unfolding bootstrap_counter_def by (intro set named_ops wordsize op_rules)
  have objects: "tx.kept (bootstrap_objects u k s)" for s
    unfolding bootstrap_objects_def by (intro set counter at_address slotted_ops wordsize op_rules)
  have root: "tx.kept (i_write_root d)"
    unfolding i_write_root_def Let_def by (intro op_rules)
  have changed: "tx.kept (bootstrap_write k d p q r t a)" for p q r t a
    unfolding bootstrap_write_def by (intro root integer_set write_object op_rules)
  have entry: "tx.kept (insert_read_set s p)" for s p
    unfolding insert_read_set_def by (intro op_rules; simp)
  have own: "tx.kept (assign_own_address k s p)" for s p
    unfolding assign_own_address_def by (intro assign op_rules)
  show ?thesis unfolding i_bootstrap_database_def
    by (intro objects changed entry own destroy_session op_rules)
qed

lemma open_database: "tx.kept (obl_open_database u k config)" "tx.kept (obl_open_defdatabase u k file)"
proof -
  have root: "tx.kept (i_read_root d)" for d
    unfolding i_read_root_def by (intro op_rules)
  have level: "same.kept (obl_set_ambient_log_level l)" for l
    unfolding obl_set_ambient_log_level_def by (intro same.rules untouched untouched_modify; simp)
  show 1: "tx.kept (obl_open_database u k config)" for config
    unfolding obl_open_database_def Let_def
    by (intro bootstrap root op_rules level tx_of_same [OF level])
  show "tx.kept (obl_open_defdatabase u k file)"
    unfolding obl_open_defdatabase_def by (rule 1)
qed

lemma close_database: "tx.kept (obl_close_database k d)"
  unfolding obl_close_database_def by (intro destroy_session op_rules)

lemma more_objects: "tx.kept (obl_in k s p)" "tx.kept (obl_shape_name k p)"
  "tx.kept (obl_shape_currentshape k p)"
  unfolding obl_in_def obl_shape_name_def obl_shape_currentshape_def
  by (intro at_address resolve op_rules)+

lemma string_ccmp: "tx.kept (obl_string_ccmp u p c)"
  unfolding obl_string_ccmp_def by (intro op_rules)

lemma print_object: "tx.kept (obl_print_object n u k p depth indent)"
proof (induction n arbitrary: p depth indent)
  case (Suc n)
  note print = Suc.IH
  have fixed: "tx.kept (print_elements (obl_print_object n u k) k p depth indent m i)" for p depth indent m i
  proof (induction m arbitrary: i)
    case (Suc m)
    show ?case unfolding print_elements.simps by (intro fixed_ops print Suc.IH op_rules)
  qed (simp add: tx.fail)
  have slots: "tx.kept (print_slots (obl_print_object n u k) k p q r depth indent m i)"
    for p q r depth indent m i
  proof (induction m arbitrary: i)
    case (Suc m)
    show ?case unfolding print_slots.simps
      by (intro slot_names fixed_ops slotted_ops print Suc.IH op_rules)
  qed (simp add: tx.fail)
  have table: "tx.kept (print_functions t u k (obl_print_object n u k) p depth indent)" for t
    by (cases t; simp only: print_functions.simps obl_shape_print_def obl_slotted_print_def obl_fixed_print_def;
        intro slots fixed slot_names more_objects print op_rules)
  show ?case unfolding obl_print_object.simps by (intro table op_rules)
qed (simp add: tx.fail)

end

interpretation knot: callbacks "knot n" for n
  by (rule knot_callbacks)

section \<open>Reachable states\<close>

definition runs :: "'a exec \<Rightarrow> world \<Rightarrow> world \<Rightarrow> bool" where
  "runs m w w' \<longleftrightarrow> (\<exists>a. m w = Ok a w')"

lemma runs_kept: "runs m w w' \<Longrightarrow> tx.kept m \<Longrightarrow> tx_same w w'"
  by (auto simp: runs_def tx.kept_def)

text \<open>
  The calls that a program may make, with any arguments, any behaviour of ICU and any bound on the
  nesting of callbacks.
\<close>

inductive tx_step :: "world \<Rightarrow> world \<Rightarrow> bool" where
  startup: "runs (obl_startup u (knot n)) w w' \<Longrightarrow> tx_step w w'"
| shutdown: "runs (obl_shutdown (knot n)) w w' \<Longrightarrow> tx_step w w'"
| open_database: "runs (obl_open_database u (knot n) config) w w' \<Longrightarrow> tx_step w w'"
| open_defdatabase: "runs (obl_open_defdatabase u (knot n) path) w w' \<Longrightarrow> tx_step w w'"
| close_database: "runs (obl_close_database (knot n) d) w w' \<Longrightarrow> tx_step w w'"
| report_error: "runs (obl_report_error d code msg) w w' \<Longrightarrow> tx_step w w'"
| clear_error: "runs (obl_clear_error d) w w' \<Longrightarrow> tx_step w w'"
| create_session: "runs (obl_create_session d) w w' \<Longrightarrow> tx_step w w'"
| destroy_session: "runs (obl_destroy_session (knot n) s) w w' \<Longrightarrow> tx_step w w'"
| begin_transaction: "runs (obl_begin_transaction s) w w' \<Longrightarrow> tx_step w w'"
| ensure_transaction: "runs (obl_ensure_transaction s created) w w' \<Longrightarrow> tx_step w w'"
| mark_dirty: "runs (obl_mark_dirty p) w w' \<Longrightarrow> tx_step w w'"
| commit: "runs (obl_commit_transaction (knot n) t) w w' \<Longrightarrow> tx_step w w'"
| abort: "runs (obl_abort_transaction (knot n) t) w w' \<Longrightarrow> tx_step w w'"
| at_address: "runs (obl_at_address (knot n) s a) w w' \<Longrightarrow> tx_step w w'"
| at_address_depth: "runs (obl_at_address_depth (knot n) s a depth) w w' \<Longrightarrow> tx_step w w'"
| in_session: "runs (obl_in (knot n) s p) w w' \<Longrightarrow> tx_step w w'"
| refresh: "runs (obl_refresh_object (knot n) p) w w' \<Longrightarrow> tx_step w w'"
| address_lookup: "runs (obl_address_lookup d a) w w' \<Longrightarrow> tx_step w w'"
| address_assign: "runs (obl_address_assign (knot n) s a b) w w' \<Longrightarrow> tx_step w w'"
| allocate_logical: "runs (obl_allocate_logical (knot n) s) w w' \<Longrightarrow> tx_step w w'"
| allocate_physical: "runs (obl_allocate_physical (knot n) s words) w w' \<Longrightarrow> tx_step w w'"
| create_integer: "runs (obl_create_integer v) w w' \<Longrightarrow> tx_step w w'"
| integer_set: "runs (obl_integer_set (knot n) p v) w w' \<Longrightarrow> tx_step w w'"
| create_string: "runs (obl_create_string units len) w w' \<Longrightarrow> tx_step w w'"
| create_cstring: "runs (obl_create_cstring u c len) w w' \<Longrightarrow> tx_step w w'"
| string_chars: "runs (obl_string_chars u p len) w w' \<Longrightarrow> tx_step w w'"
| string_ccmp: "runs (obl_string_ccmp u p c) w w' \<Longrightarrow> tx_step w w'"
| create_fixed: "runs (obl_create_fixed len) w w' \<Longrightarrow> tx_step w w'"
| fixed_at: "runs (obl_fixed_at (knot n) p i) w w' \<Longrightarrow> tx_step w w'"
| fixed_at_put: "runs (obl_fixed_at_put (knot n) p i q) w w' \<Longrightarrow> tx_step w w'"
| create_shape: "runs (obl_create_shape name slot_names type) w w' \<Longrightarrow> tx_step w w'"
| create_cshape: "runs (obl_create_cshape u (knot n) c names type) w w' \<Longrightarrow> tx_step w w'"
| destroy_cshape: "runs (obl_destroy_cshape (knot n) p) w w' \<Longrightarrow> tx_step w w'"
| shape_name: "runs (obl_shape_name (knot n) p) w w' \<Longrightarrow> tx_step w w'"
| shape_slotnames: "runs (obl_shape_slotnames (knot n) p) w w' \<Longrightarrow> tx_step w w'"
| shape_slotcnamed: "runs (obl_shape_slotcnamed u (knot n) p c) w w' \<Longrightarrow> tx_step w w'"
| shape_currentshape: "runs (obl_shape_currentshape (knot n) p) w w' \<Longrightarrow> tx_step w w'"
| create_slotted: "runs (obl_create_slotted (knot n) p) w w' \<Longrightarrow> tx_step w w'"
| slotted_at: "runs (obl_slotted_at (knot n) p i) w w' \<Longrightarrow> tx_step w w'"
| slotted_at_put: "runs (obl_slotted_at_put (knot n) p i q) w w' \<Longrightarrow> tx_step w w'"
| slotted_atcnamed: "runs (obl_slotted_atcnamed u (knot n) p c) w w' \<Longrightarrow> tx_step w w'"
| slotted_atcnamed_put: "runs (obl_slotted_atcnamed_put u (knot n) p c q) w w' \<Longrightarrow> tx_step w w'"
| create_addrtreepage: "runs (obl_create_addrtreepage h) w w' \<Longrightarrow> tx_step w w'"
| destroy_object: "runs (obl_destroy_object p) w w' \<Longrightarrow> tx_step w w'"
| read_object: "runs (obl_read_object (knot n) s d b depth) w w' \<Longrightarrow> tx_step w w'"
| write_object: "runs (obl_write_object (knot n) p d) w w' \<Longrightarrow> tx_step w w'"
| print_object: "runs (obl_print_object m u (knot n) p depth indent) w w' \<Longrightarrow> tx_step w w'"

inductive tx_reachable :: "world \<Rightarrow> world \<Rightarrow> bool" where
  tx_start: "tx_reachable w w"
| tx_more: "tx_reachable w w' \<Longrightarrow> tx_step w' w'' \<Longrightarrow> tx_reachable w w''"

inductive_cases tx_stepE: "tx_step w w'"

lemma tx_step_kept: "tx_step w w' \<Longrightarrow> tx_same w w'"
  by (erule tx_stepE; erule runs_kept)
    (intro knot.startup knot.shutdown knot.open_database knot.close_database knot.destroy_session
      knot.commit knot.abort knot.at_address knot.more_objects knot.refresh knot.assign knot.allocator
      knot.integer_set knot.string_ccmp knot.fixed_ops knot.cshape knot.slot_names knot.slot_named
      knot.slotted_ops knot.named_ops knot.read_object knot.write_object knot.print_object
      disciplined tx_of_same untouched)+

definition tx_ok :: "world \<Rightarrow> bool" where
  "tx_ok w \<longleftrightarrow> tx_inv (\<lambda>_. 1) w"

lemma tx_reachable_ok: "tx_reachable w w' \<Longrightarrow> tx_ok w \<Longrightarrow> tx_ok w'"
  by (induction rule: tx_reachable.induct) (use tx_step_kept in \<open>auto simp: tx_ok_def tx_same_def\<close>)

lemma tx_ok_start:
  "sessions w = Map.empty \<Longrightarrow> transactions w = Map.empty \<Longrightarrow> 0 < next_ptr w \<Longrightarrow> tx_ok w"
  by (simp add: tx_ok_def tx_inv_def linked_def used_below_def semaphores_def cur_def owner_def)

lemma tx_okD:
  assumes "tx_ok w"
  shows "sessions w s = Some r \<Longrightarrow> session_mutex r = 1 \<and> (current_transaction r = NULL \<or>
      (\<exists>tx. transactions w (current_transaction r) = Some tx \<and> tx_session tx = s))"
    and "transactions w t = Some tx \<Longrightarrow>
      \<exists>r. sessions w (tx_session tx) = Some r \<and> current_transaction r = t"
proof -
  have link: "cur w q = Some t \<longleftrightarrow> owner w t = Some q" if "t \<noteq> NULL" for q t
    using assms that by (simp add: tx_ok_def tx_inv_def linked_def)
  show "session_mutex r = 1 \<and> (current_transaction r = NULL \<or>
      (\<exists>tx. transactions w (current_transaction r) = Some tx \<and> tx_session tx = s))"
    if "sessions w s = Some r"
  proof -
    have "session_mutex r = 1" using assms that by (simp add: tx_ok_def tx_inv_def semaphores_def)
    moreover have "cur w s = Some (current_transaction r)" using that by (simp add: cur_def)
    ultimately show ?thesis using link [of "current_transaction r" s] by (auto simp: owner_def)
  qed
  show "\<exists>r. sessions w (tx_session tx) = Some r \<and> current_transaction r = t"
    if "transactions w t = Some tx"
  proof -
    have "t \<noteq> NULL"
      using assms that by (cases "t = NULL") (auto simp: tx_ok_def tx_inv_def used_below_def owner_def)
    with link [of t "tx_session tx"] that show ?thesis by (auto simp: owner_def cur_def)
  qed
qed

lemma empty_set_visits:
  "set_objects \<lparr>set_root = Tip, set_keyfunction = f\<rparr> = retM []"
  "obl_destroy_set kept Tip = Inr []"
  by (simp_all add: set_objects_def obl_destroy_set_def obl_set_inorder_iter_def
      obl_set_destroying_iter_def obl_set_iternext_def inorder_iternext_def destroying_iternext_def)

text \<open>
  C14: From a state without sessions, whatever calls a program makes and in whatever order, with memory
  running out at any point: creating and destroying sessions, beginning, committing and aborting
  transactions, loading, creating, changing, refreshing, printing and destroying objects, opening and
  closing databases. As long as every call returns, a session and its current transaction point to each
  other, every transaction is the current one of its session, and no semaphore of a session stays
  taken.
\<close>

theorem transactions_linked:
  assumes "sessions w = Map.empty" "transactions w = Map.empty" "0 < next_ptr w"
    and "tx_reachable w w'"
  shows "(\<forall>s r. sessions w' s = Some r \<longrightarrow> session_mutex r = 1 \<and>
       (current_transaction r = NULL \<or>
        (\<exists>tx. transactions w' (current_transaction r) = Some tx \<and> tx_session tx = s))) \<and>
     (\<forall>t tx. transactions w' t = Some tx \<longrightarrow>
       (\<exists>r. sessions w' (tx_session tx) = Some r \<and> current_transaction r = t))"
  using tx_okD [OF tx_reachable_ok [OF assms(4) tx_ok_start [OF assms(1-3)]]] by blast

lemma transactions_linked_witness:
  "\<exists>w1 w2 w3 r. obl_create_session 20 (database_world two_level) = Ok 30 w1 \<and>
     obl_begin_transaction 30 w1 = Ok 31 w2 \<and> obl_commit_transaction (knot 0) 31 w2 = Ok 0 w3 \<and>
     sessions w3 30 = Some r \<and> session_mutex r = 1 \<and> transactions w3 31 = None"
proof -
  let ?w = "database_world two_level"
  obtain w1 where w1: "obl_create_session 20 ?w = Ok 30 w1"
    by (simp add: obl_create_session_def obl_create_set_def wait_session_list_mutex_def
        post_session_list_mutex_def database_world_def initial_world_def plain_database_def run)
  then obtain w2 where w2: "obl_begin_transaction 30 w1 = Ok 31 w2"
    by (auto simp: obl_create_session_def obl_create_set_def wait_session_list_mutex_def
        post_session_list_mutex_def database_world_def initial_world_def plain_database_def run
        obl_begin_transaction_def i_allocate_transaction_def wait_session_mutex_def
        post_session_mutex_def)
  with w1 have w2': "sessions w2 30 = Some \<lparr>ses_database = 20, current_transaction = 31,
      read_set = Some \<lparr>set_root = Tip, set_keyfunction = logical_address_keyfunction\<rparr>, session_mutex = 1\<rparr>"
    "transactions w2 31 = Some \<lparr>tx_session = 30,
      write_set = Some \<lparr>set_root = Tip, set_keyfunction = logical_address_keyfunction\<rparr>\<rparr>"
    "databases w2 20 = Some ((plain_database two_level)\<lparr>session_list := [30]\<rparr>)"
    by (auto simp: obl_create_session_def obl_create_set_def wait_session_list_mutex_def
        post_session_list_mutex_def database_world_def initial_world_def plain_database_def run
        obl_begin_transaction_def i_allocate_transaction_def wait_session_mutex_def
        post_session_mutex_def obl_session_list_append_def)
  then obtain w3 r where w3: "obl_commit_transaction (knot 0) 31 w2 = Ok 0 w3"
    and r: "sessions w3 30 = Some r" "transactions w3 31 = None"
    by (simp add: obl_commit_transaction_def commit_changes_def notify_sessions_def empty_set_visits
        destroy_set_with_def i_deallocate_transaction_def free_transaction_def wait_session_mutex_def
        post_session_mutex_def wait_content_mutex_def post_content_mutex_def
        wait_session_list_mutex_def post_session_list_mutex_def the_set_def obl_log_database_def
        OBL_CONFIG_FROM_def obl_log_run plain_database_def run Let_def)
  have "runs (obl_create_session 20) ?w w1" "runs (obl_begin_transaction 30) w1 w2"
    "runs (obl_commit_transaction (knot 0) 31) w2 w3"
    using w1 w2 w3 by (simp_all add: runs_def)
  then have "tx_reachable ?w w3"
    by (intro tx_more [OF tx_more [OF tx_more [OF tx_start]]] create_session begin_transaction commit)
  then have "session_mutex r = 1"
    using transactions_linked [of ?w w3] r(1)
    by (simp add: database_world_def initial_world_def)
  with w1 w2 w3 r show ?thesis by blast
qed

end
