(* ===== verification/Spec2Isabelle.thy ===== *)
theory Spec2Isabelle
  imports Allocation CommitBlocks Discipline
begin

text \<open>
  ObjectLite, an object database in C: objects with a shape live in memory, are grouped by session,
  changed in transactions and kept in the words of a database, in memory or mapped from a file. The
  development models the library under \<open>src/obl\<close> and proves what its parts promise.

  \<^bold>\<open>How the C code is modelled.\<close> A function is a state transformer \<open>world \<Rightarrow> result\<close> (\<open>Prelude\<close>): \<open>Ok\<close>
  with a value and the new state, or a \<open>Fault\<close> where the C program has no defined continuation (a
  null or dangling pointer, an access out of bounds, a wrong member of a union, a shift that leaves
  the operand) or blocks for ever. The state \<open>world\<close> (theory \<open>World\<close>) has maps from pointers to the
  structures of \<open>storage/object.h\<close>, \<open>session.h\<close>, \<open>transaction.h\<close> and \<open>database.h\<close>, the static array
  \<open>fixed_space\<close>, the files, the log and the standard output. Pointers are natural numbers, \<open>NULL\<close> is
  0, words and addresses are \<open>32 word\<close>, UTF-16 units \<open>16 word\<close>. A semaphore is a counter and there is
  one thread, so a wait on 0 is the fault \<open>Blocked\<close>. \<open>malloc\<close> answers for ever, or a given number of
  times (\<open>malloc_budget\<close>); what it leaves in words of a database that were never stored is \<open>fresh_words\<close>. Names are those of the source; a leading underscore is written \<open>i_\<close>.

  \<^bold>\<open>Theories that model the code.\<close>

  \<^item> \<open>Platform\<close>: \<open>platform.h\<close>, \<open>constants.h\<close>: integer types, sentinels and byte-order macros, with the
    locale \<open>cell_codec\<close> for a macro pair, interpreted for all five pairs.
  \<^item> \<open>RBTree\<close>, \<open>RBIter\<close>: the red-black trees of \<open>set.c\<close>, insertion, lookup, removal, verification and
    both iterators.
  \<^item> \<open>Store\<close>: dereferencing, allocation, semaphores, the words and half-words of the content, \<open>log.c\<close>,
    and from \<open>database.c\<close> the error reports and the fixed addresses. \<open>Extent\<close>: mapping, unmapping and
    growing the memory of a database, on the heap or through a file.
  \<^item> \<open>Objects\<close>: the storage type of an object up its chain of shapes, allocation and deallocation
    (\<open>storage/object.c\<close>), stubs, the sets of objects.
  \<^item> \<open>Transactions\<close>: the part of \<open>transaction.c\<close> that the setters use.
  \<^item> \<open>Values\<close>, \<open>Collections\<close>, \<open>ObjectIO\<close>, \<open>Printing\<close>: the storage modules (integer, boolean, nil,
    string, address tree page, character, float, double, fixed, shape, slotted, stub), the dispatch tables of \<open>storage/object.c\<close>
    for children, reading and writing, and the print functions.
  \<^item> \<open>Sessions\<close>, \<open>Allocator\<close>, \<open>AddressMap\<close>, \<open>Commit\<close>, \<open>Database\<close>: \<open>session.c\<close>, \<open>allocator.c\<close>,
    \<open>addressmap.c\<close>, the commit of \<open>transaction.c\<close> with the allocation of \<open>database.c\<close>, and the start,
    opening, bootstrapping and closing of \<open>database.c\<close>.

  \<^bold>\<open>Theories that prove.\<close>

  \<^item> \<open>RBCorrect\<close>, \<open>ObjectSet\<close>, \<open>RBIter\<close>: the invariant \<open>rb_valid\<close> and its preservation, the listing after
    each operation, exactly which removals lose objects, depth, iteration; the locales \<open>object_set\<close> and \<open>removable_object_set\<close>, what the
    sessions and transactions rely on, interpreted on these operations.
  \<^item> \<open>StoreFacts\<close>, \<open>Blocks\<close>, \<open>WorldFacts\<close>: running the primitives, loops over the content, and the
    invariant \<open>world_ok\<close> of a started process. \<open>Startup\<close> establishes it from the initial state.
  \<^item> \<open>RoundTrip\<close>, \<open>ValueFacts\<close>: written objects are read back; the value objects with and without memory,
    inside and outside a transaction. \<open>SlottedFacts\<close>: slots by name.
  \<^item> \<open>AddressMapFacts\<close>: the address map as the function that its page tree denotes.
  \<^item> \<open>SessionFacts\<close>: access by address, the list of sessions, abort. \<open>Discipline\<close>: the public calls as
    the steps of a state machine, and the links and semaphores of sessions and transactions in its
    reachable states. Its locale \<open>frame_relation\<close> has the rules by which a program keeps what each of
    its steps keeps, interpreted for "sessions and transactions are the same" and for "links and
    semaphores are kept"; its locale \<open>callbacks\<close> is what loading and committing promise to everything
    that calls them back, interpreted for \<open>knot n\<close>. \<open>CommitFacts\<close>: commit. \<open>CommitBlocks\<close>: the commits that never return.
    \<open>AutoCommit\<close>: setters outside a transaction, which commit on their own.
  \<^item> \<open>ExtentFacts\<close>: mapped and grown databases, the root words.
  \<^item> \<open>Bootstrap\<close>, \<open>Opening\<close>: what an empty in-memory database becomes when it is opened: its words,
    root and address map, and the objects, sessions and memory of the process afterwards.
  \<^item> \<open>Allocation\<close>: loading the allocator with its counters from the words of a database, and the
    addresses that it hands out.

  \<^bold>\<open>Recursion and fuel.\<close> Loading an object and committing a transaction are called back from almost
  everywhere. Such functions take the record \<open>calls\<close> of these two functions, and \<open>knot n\<close> (theory
  \<open>Commit\<close>) closes the loop for \<open>n\<close> nested calls. The chain of shapes is followed for as many steps as
  there are pointers, an address map for as many pages as there are words, an iterator for one call
  more than there are objects: none of these bounds is reached by a C function that returns.

  \<^bold>\<open>Not modelled.\<close> Files behave as POSIX documents, each is mapped by one database at a time, and the
  lines of the log are kept apart from the words of the file. Time stamps of the log; \<open>platform.c\<close>,
  which wraps the Win32 API; a log file that cannot be opened; failures of \<open>malloc\<close> for list cells,
  iterators and message buffers, and the functions that only free them. The converter of ICU is the
  record \<open>icu\<close>, an argument of the functions that call it; \<open>good_icu\<close> states what ICU documents of
  \<open>ucnv_toUChars\<close>: the full length of the conversion, with \<open>U_BUFFER_OVERFLOW_ERROR\<close> when it does not fit
  the capacity, and otherwise the units at the start of the block.

  \<^bold>\<open>Undefined behaviour that callers run into.\<close> \<open>destroying_iternext\<close> reads a node that it has freed;
  its model has a parameter for what becomes of the node. Destroying a session and ending a
  transaction use it, and are modelled for a memory that leaves the node readable
  (\<open>freed_blocks_kept\<close>). \<open>munmap\<close> with a length beyond the mapping is the fault \<open>OutOfBounds\<close>.
\<close>

end
